(* ===== verification/Prelude.thy ===== *)
theory Prelude
  imports Main "HOL-Library.Word" "HOL-Library.Char_ord" "HOL-Library.List_Lexorder"
begin

text \<open>
  Shared vocabulary of the development: the theorem collections, machine integers (\<open>int64_t\<close>
  arithmetic with its wrap-around, truncating division) and \<open>std::to_string\<close> with the digits it
  prints.
\<close>

named_theorems eff_simps \<open>unfolding a run of an effectful computation\<close>
named_theorems eval_simps \<open>evaluation of the model on a concrete input\<close>
named_theorems preserves_intro \<open>composition rules for preserved state predicates\<close>

section \<open>Machine integers\<close>

type_synonym int64 = int
type_synonym uint64 = "64 word"

definition in_i64 :: "int \<Rightarrow> bool" where
  "in_i64 x \<longleftrightarrow> - (2 ^ 63) \<le> x \<and> x < 2 ^ 63"

text \<open>Two's complement reduction of an exact result to 64 bits.\<close>

definition wrap64 :: "int \<Rightarrow> int64" where
  "wrap64 x = (x + 2 ^ 63) mod 2 ^ 64 - 2 ^ 63"

text \<open>The integer division of C++, which truncates towards zero.\<close>

definition cdiv :: "int \<Rightarrow> int \<Rightarrow> int" where
  "cdiv a b = (if 0 \<le> a then a div b else - ((- a) div b))"

lemma wrap64_id [simp]: "in_i64 x \<Longrightarrow> wrap64 x = x"
  by (simp add: in_i64_def wrap64_def)

lemma wrap64_range: "in_i64 (wrap64 x)"
proof -
  have "0 \<le> (x + 2 ^ 63) mod 2 ^ 64" and "(x + 2 ^ 63) mod 2 ^ 64 < (2 ^ 64 :: int)"
    by simp_all
  then show ?thesis by (simp add: wrap64_def in_i64_def)
qed

lemma in_i64I: "\<bar>x\<bar> < 2 ^ 63 \<Longrightarrow> in_i64 x"
  by (auto simp: in_i64_def)

lemma in_i64_sint: "in_i64 (sint (w :: uint64))"
proof -
  have "- (2 ^ (LENGTH(64) - 1)) \<le> sint w" and "sint w < 2 ^ (LENGTH(64) - 1)"
    by (rule sint_ge, rule sint_lt)
  then show ?thesis by (simp add: in_i64_def)
qed

lemma sint_eq_iff: "sint (a :: uint64) = sint b \<longleftrightarrow> a = b"
  using word_eq_iff_signed by blast

lemma sint_word_of_int: "sint (word_of_int x :: uint64) = wrap64 x"
  by (simp only: int_word_sint wrap64_def) simp

section \<open>Decimal printing: std::to_string\<close>

definition digit_char :: "nat \<Rightarrow> char" where
  "digit_char d = ''0123456789'' ! d"

fun string_of_nat :: "nat \<Rightarrow> string" where
  "string_of_nat n =
     (if n < 10 then [digit_char n] else string_of_nat (n div 10) @ [digit_char (n mod 10)])"

declare string_of_nat.simps [simp del]

definition string_of_int :: "int \<Rightarrow> string" where
  "string_of_int i =
     (if i < 0 then CHR ''-'' # string_of_nat (nat (- i)) else string_of_nat (nat i))"

definition is_digit :: "char \<Rightarrow> bool" where
  "is_digit c \<longleftrightarrow> 48 \<le> (of_char c :: nat) \<and> (of_char c :: nat) \<le> 57"

text \<open>The value of a digit string, the reading that decimal printing has to invert.\<close>

fun digits_value :: "nat \<Rightarrow> string \<Rightarrow> nat" where
  "digits_value acc [] = acc"
| "digits_value acc (c # cs) = digits_value (acc * 10 + (of_char c - 48)) cs"

text \<open>Evaluation only on numerals, so that the recursion is never unfolded on a variable.\<close>

lemma string_of_nat_eval [eval_simps]:
  "string_of_nat 0 = ''0''" "string_of_nat 1 = ''1''" "string_of_nat (Suc 0) = ''1''"
  "string_of_nat (numeral n) =
     (if (numeral n :: nat) < 10 then [digit_char (numeral n)]
      else string_of_nat (numeral n div 10) @ [digit_char (numeral n mod 10)])"
  by (simp_all add: string_of_nat.simps [of 0] string_of_nat.simps [of "Suc 0"]
      string_of_nat.simps [of "numeral n"] digit_char_def)

declare digit_char_def [eval_simps] wrap64_def [eval_simps] in_i64_def [eval_simps]

lemma less_10_cases:
  "(d::nat) < 10 \<longleftrightarrow> d = 0 \<or> d = 1 \<or> d = 2 \<or> d = 3 \<or> d = 4 \<or> d = 5 \<or> d = 6 \<or> d = 7 \<or> d = 8 \<or> d = 9"
  by auto

lemma of_char_digit [simp]: "d < 10 \<Longrightarrow> (of_char (digit_char d) :: nat) = 48 + d"
  by (auto simp: less_10_cases digit_char_def)

lemma is_digit_digit_char [simp]: "d < 10 \<Longrightarrow> is_digit (digit_char d)"
  by (simp add: is_digit_def)

lemma string_of_nat_digits: "c \<in> set (string_of_nat n) \<Longrightarrow> is_digit c"
proof (induction n rule: string_of_nat.induct)
  case (1 n)
  then show ?case
    by (cases "n < 10") (auto simp: string_of_nat.simps [of n])
qed

lemma string_of_nat_nonempty [simp]: "string_of_nat n \<noteq> []"
  by (subst string_of_nat.simps) simp

lemma digits_value_append: "digits_value acc (xs @ ys) = digits_value (digits_value acc xs) ys"
  by (induction acc xs rule: digits_value.induct) simp_all

lemma digits_value_string_of_nat [simp]: "digits_value 0 (string_of_nat n) = n"
proof (induction n rule: string_of_nat.induct)
  case (1 n)
  then show ?case
    by (cases "n < 10") (simp_all add: string_of_nat.simps [of n] digits_value_append)
qed

lemma string_of_nat_inj: "string_of_nat m = string_of_nat n \<longleftrightarrow> m = n"
  by (metis digits_value_string_of_nat)

lemma length_string_of_nat: "n < 10 ^ k \<Longrightarrow> 0 < k \<Longrightarrow> length (string_of_nat n) \<le> k"
proof (induction n arbitrary: k rule: string_of_nat.induct)
  case (1 n)
  show ?case
  proof (cases "n < 10")
    case True
    with "1.prems" show ?thesis by (simp add: string_of_nat.simps [of n])
  next
    case False
    with "1.prems" have "1 < k" by (cases k) (auto intro: ccontr)
    then obtain j where k: "k = Suc j" and j: "0 < j" by (cases k) auto
    with "1.prems" have "n div 10 < 10 ^ j" by (simp add: less_mult_imp_div_less mult.commute)
    with "1.IH" False j have "length (string_of_nat (n div 10)) \<le> j" by simp
    with False k show ?thesis by (simp add: string_of_nat.simps [of n])
  qed
qed

lemma length_string_of_nat_ge: "10 ^ k \<le> n \<Longrightarrow> k < length (string_of_nat n)"
proof (induction n arbitrary: k rule: string_of_nat.induct)
  case (1 n)
  show ?case
  proof (cases k)
    case 0
    then show ?thesis by simp
  next
    case (Suc j)
    with "1.prems" have n: "10 ^ Suc j \<le> n" by simp
    then have "10 \<le> n" by (rule order_trans [rotated]) simp
    moreover from n have "10 ^ j \<le> n div 10" by (simp add: div_le_mono [of "10 ^ Suc j" n 10, simplified] less_eq_div_iff_mult_less_eq mult.commute)
    ultimately have "j < length (string_of_nat (n div 10))" using "1.IH" by simp
    with \<open>10 \<le> n\<close> Suc show ?thesis by (simp add: string_of_nat.simps [of n])
  qed
qed

text \<open>Among numbers with the same number of digits printing keeps the order.\<close>

lemma list_less_append:
  fixes xs ys :: "'a::order list"
  shows "length xs = length ys \<Longrightarrow> xs < ys \<Longrightarrow> xs @ us < ys @ vs" and "us < vs \<Longrightarrow> xs @ us < xs @ vs"
  by (simp_all add: list_less_def lexord_sufI lexord_append_leftI)

lemma digit_char_less: "a < b \<Longrightarrow> b < 10 \<Longrightarrow> digit_char a < digit_char b"
  by (simp add: less_char_def)

lemma string_of_nat_less:
  "m < n \<Longrightarrow> length (string_of_nat m) = length (string_of_nat n) \<Longrightarrow> string_of_nat m < string_of_nat n"
proof (induction m arbitrary: n rule: string_of_nat.induct)
  case (1 m)
  show ?case
  proof (cases "m < 10")
    case True
    then have "length (string_of_nat n) = 1" using "1.prems"(2) by (simp add: string_of_nat.simps [of m])
    then have "n < 10" by (cases "n < 10") (simp_all add: string_of_nat.simps [of n])
    with True "1.prems"(1) show ?thesis
      by (simp add: string_of_nat.simps [of m] string_of_nat.simps [of n] digit_char_less)
  next
    case False
    with "1.prems" have big: "\<not> n < 10" and len: "length (string_of_nat (m div 10)) = length (string_of_nat (n div 10))"
      by (simp_all add: string_of_nat.simps [of m] string_of_nat.simps [of n])
    from "1.prems"(1) consider "m div 10 < n div 10" | "m div 10 = n div 10" "m mod 10 < n mod 10"
      by (metis div_le_mono div_mult_mod_eq le_less less_imp_le nat_add_left_cancel_less)
    then show ?thesis
    proof cases
      case 1
      from "1.IH" [OF False this len] len False big show ?thesis
        by (simp add: string_of_nat.simps [of m] string_of_nat.simps [of n] list_less_append)
    next
      case 2
      with False big show ?thesis
        by (simp add: string_of_nat.simps [of m] string_of_nat.simps [of n] list_less_append digit_char_less)
    qed
  qed
qed

lemma string_of_nat_shortlex:
  assumes "m < n"
  shows "length (string_of_nat m) < length (string_of_nat n) \<or>
    length (string_of_nat m) = length (string_of_nat n) \<and> string_of_nat m < string_of_nat n"
proof -
  obtain k where k: "length (string_of_nat m) = Suc k" by (cases "string_of_nat m") auto
  have "10 ^ k \<le> m \<or> k = 0"
    using length_string_of_nat [of m k] k by (cases "m < 10 ^ k") auto
  with assms length_string_of_nat_ge [of k n] have "length (string_of_nat m) \<le> length (string_of_nat n)"
    using k by (auto simp: Suc_le_eq)
  with string_of_nat_less [OF assms] show ?thesis by linarith
qed

lemma string_of_int_inj: "string_of_int a = string_of_int b \<longleftrightarrow> a = b"
proof -
  have dash: "CHR ''-'' \<notin> set (string_of_nat n)" for n
    using string_of_nat_digits [of "CHR ''-''" n] by (auto simp: is_digit_def)
  show ?thesis
    using dash [of "nat a"] dash [of "nat b"]
    by (auto simp: string_of_int_def string_of_nat_inj split: if_splits)
       (metis list.set_intros(1))+
qed

end
