(* ===== verification/Effects.thy ===== *)
theory Effects
  imports Prelude
begin

text \<open>
  The effect type of the program. A computation takes a state and either does not return
  (\<open>None\<close>), or ends in a new state with an exception (\<open>Inl\<close>) or a value (\<open>Inr\<close>). The combinators
  are the control flow of the C++ code: sequencing, \<open>throw\<close>, \<open>try\<close>/\<open>catch\<close>, scope exit (the
  destructor of a local object) and loops over a container. The lemmas say how a finished run
  decomposes and which state predicates survive it; the locale at the end lifts a one-operation
  invariant to every finite sequence of operations.
\<close>

type_synonym ('s, 'e, 'a) eff = "'s \<Rightarrow> (('e + 'a) \<times> 's) option"

definition ret :: "'a \<Rightarrow> ('s, 'e, 'a) eff" where
  "ret x s = Some (Inr x, s)"

definition throw :: "'e \<Rightarrow> ('s, 'e, 'a) eff" where
  "throw e s = Some (Inl e, s)"

definition gets :: "('s \<Rightarrow> 'a) \<Rightarrow> ('s, 'e, 'a) eff" where
  "gets f s = Some (Inr (f s), s)"

definition modify :: "('s \<Rightarrow> 's) \<Rightarrow> ('s, 'e, unit) eff" where
  "modify f s = Some (Inr (), f s)"

definition bnd :: "('s, 'e, 'a) eff \<Rightarrow> ('a \<Rightarrow> ('s, 'e, 'b) eff) \<Rightarrow> ('s, 'e, 'b) eff" where
  "bnd m f s =
     (case m s of None \<Rightarrow> None
      | Some (Inl e, t) \<Rightarrow> Some (Inl e, t)
      | Some (Inr x, t) \<Rightarrow> f x t)"

definition try_catch ::
    "('s, 'e, 'a) eff \<Rightarrow> ('e \<Rightarrow> ('s, 'f, 'a) eff) \<Rightarrow> ('s, 'f, 'a) eff" where
  "try_catch m h s =
     (case m s of None \<Rightarrow> None
      | Some (Inl e, t) \<Rightarrow> h e t
      | Some (Inr x, t) \<Rightarrow> Some (Inr x, t))"

text \<open>A call whose failure is an exception \<open>e\<close>, and undefined behaviour: nothing is promised, not even a return.\<close>

definition or_throw :: "'e \<Rightarrow> 'a option \<Rightarrow> ('s, 'e, 'a) eff" where
  "or_throw e v = (case v of None \<Rightarrow> throw e | Some x \<Rightarrow> ret x)"

definition undefined_behaviour :: "('s, 'e, 'a) eff" where
  "undefined_behaviour s = None"

text \<open>Leaving a scope runs the destructor on the state, however the scope is left.\<close>

definition on_exit :: "('s, 'e, 'a) eff \<Rightarrow> ('s \<Rightarrow> 's) \<Rightarrow> ('s, 'e, 'a) eff" where
  "on_exit m dtor s = (case m s of None \<Rightarrow> None | Some (r, t) \<Rightarrow> Some (r, dtor t))"

fun for_each :: "('x \<Rightarrow> ('s, 'e, unit) eff) \<Rightarrow> 'x list \<Rightarrow> ('s, 'e, unit) eff" where
  "for_each f [] = ret ()"
| "for_each f (x # xs) = bnd (f x) (\<lambda>_. for_each f xs)"

text \<open>
  Evaluation on a concrete state goes from left to right: the continuation of a computation is
  looked at only once its result is known.
\<close>

definition resume :: "('a \<Rightarrow> ('s, 'e, 'b) eff) \<Rightarrow> (('e + 'a) \<times> 's) option \<Rightarrow> (('e + 'b) \<times> 's) option" where
  "resume f r =
     (case r of None \<Rightarrow> None | Some (Inl e, t) \<Rightarrow> Some (Inl e, t) | Some (Inr x, t) \<Rightarrow> f x t)"

definition rescue :: "('e \<Rightarrow> ('s, 'f, 'a) eff) \<Rightarrow> (('e + 'a) \<times> 's) option \<Rightarrow> (('f + 'a) \<times> 's) option" where
  "rescue h r =
     (case r of None \<Rightarrow> None | Some (Inl e, t) \<Rightarrow> h e t | Some (Inr x, t) \<Rightarrow> Some (Inr x, t))"

lemma eval_resume [eval_simps]:
  "bnd m f s = resume f (m s)" "resume f None = None"
  "resume f (Some (Inl e, t)) = Some (Inl e, t)" "resume f (Some (Inr x, t)) = f x t"
  by (simp_all add: bnd_def resume_def)

lemma eval_rescue [eval_simps]:
  "try_catch m h s = rescue h (m s)" "rescue h None = None"
  "rescue h (Some (Inl e, t)) = h e t" "rescue h (Some (Inr x, t)) = Some (Inr x, t)"
  by (simp_all add: try_catch_def rescue_def)

lemma bnd_cong: "bnd m f = bnd m f"
  by (rule refl)

lemma try_catch_cong: "try_catch m h = try_catch m h"
  by (rule refl)

lemma on_exit_cong: "on_exit m d = on_exit m d"
  by (rule refl)

lemma resume_cong: "r = r' \<Longrightarrow> resume f r = resume f r'"
  by simp

lemma rescue_cong: "r = r' \<Longrightarrow> rescue h r = rescue h r'"
  by simp

lemmas eval_cong = bnd_cong try_catch_cong on_exit_cong resume_cong rescue_cong

declare or_throw_def [eval_simps] undefined_behaviour_def [eval_simps] ret_def [eval_simps] throw_def [eval_simps] gets_def [eval_simps] modify_def [eval_simps]
  on_exit_def [eval_simps]

section \<open>Decomposing a run\<close>

lemma bnd_eq_Inr [eff_simps]:
  "bnd m f s = Some (Inr y, t) \<longleftrightarrow> (\<exists>x u. m s = Some (Inr x, u) \<and> f x u = Some (Inr y, t))"
  by (auto simp: bnd_def split: option.splits sum.splits)

lemma bnd_eq_Inl [eff_simps]:
  "bnd m f s = Some (Inl e, t) \<longleftrightarrow>
     m s = Some (Inl e, t) \<or> (\<exists>x u. m s = Some (Inr x, u) \<and> f x u = Some (Inl e, t))"
  by (auto simp: bnd_def split: option.splits sum.splits)

lemma bnd_eq_None:
  "bnd m f s = None \<longleftrightarrow> m s = None \<or> (\<exists>x u. m s = Some (Inr x, u) \<and> f x u = None)"
  by (auto simp: bnd_def split: option.splits sum.splits)

lemma ret_eq [eff_simps]: "ret x s = Some (r, t) \<longleftrightarrow> r = Inr x \<and> t = s"
  by (auto simp: ret_def)

lemma throw_eq [eff_simps]: "throw e s = Some (r, t) \<longleftrightarrow> r = Inl e \<and> t = s"
  by (auto simp: throw_def)

lemma gets_eq [eff_simps]: "gets f s = Some (r, t) \<longleftrightarrow> r = Inr (f s) \<and> t = s"
  by (auto simp: gets_def)

lemma modify_eq [eff_simps]: "modify f s = Some (r, t) \<longleftrightarrow> r = Inr () \<and> t = f s"
  by (auto simp: modify_def)

lemma or_throw_eq [eff_simps]:
  "or_throw e v s = Some (r, t) \<longleftrightarrow> r = (case v of None \<Rightarrow> Inl e | Some x \<Rightarrow> Inr x) \<and> t = s"
  by (auto simp: or_throw_def throw_def ret_def split: option.split)

lemma undefined_behaviour_eq [eff_simps]: "undefined_behaviour s \<noteq> Some x"
  by (simp add: undefined_behaviour_def)

lemma on_exit_eq [eff_simps]:
  "on_exit m d s = Some (r, t) \<longleftrightarrow> (\<exists>u. m s = Some (r, u) \<and> t = d u)"
  by (auto simp: on_exit_def split: option.splits)

lemma try_catch_eq:
  "try_catch m h s = Some (r, t) \<longleftrightarrow>
     (\<exists>x. m s = Some (Inr x, t) \<and> r = Inr x) \<or> (\<exists>e u. m s = Some (Inl e, u) \<and> h e u = Some (r, t))"
  by (auto simp: try_catch_def split: option.splits sum.splits)

lemma bnd_ret [simp]: "bnd (ret x) f = f x"
  by (simp add: bnd_def ret_def fun_eq_iff)

lemma bnd_throw [simp]: "bnd (throw e) f = throw e"
  by (simp add: bnd_def throw_def fun_eq_iff)

lemma bnd_assoc: "bnd (bnd m f) g = bnd m (\<lambda>x. bnd (f x) g)"
  by (rule ext) (simp add: bnd_def split: option.split sum.split)

lemma bnd_run_Inr [simp]: "m s = Some (Inr x, t) \<Longrightarrow> bnd m f s = f x t"
  by (simp add: bnd_def)

lemma bnd_run_Inl [simp]: "m s = Some (Inl e, t) \<Longrightarrow> bnd m f s = Some (Inl e, t)"
  by (simp add: bnd_def)

lemma bnd_run:
  "bnd (gets f) g s = g (f s) s" "bnd (modify h) k s = k () (h s)"
  by (simp_all add: bnd_def gets_def modify_def)

section \<open>Preserved state predicates\<close>

definition preserves :: "('s \<Rightarrow> bool) \<Rightarrow> ('s, 'e, 'a) eff \<Rightarrow> bool" where
  "preserves P m \<longleftrightarrow> (\<forall>s r t. P s \<longrightarrow> m s = Some (r, t) \<longrightarrow> P t)"

lemma preservesI: "(\<And>s r t. P s \<Longrightarrow> m s = Some (r, t) \<Longrightarrow> P t) \<Longrightarrow> preserves P m"
  by (auto simp: preserves_def)

lemma preservesD: "preserves P m \<Longrightarrow> m s = Some (r, t) \<Longrightarrow> P s \<Longrightarrow> P t"
  by (auto simp: preserves_def)

lemma preserves_ret [preserves_intro]: "preserves P (ret x)"
  by (auto simp: preserves_def ret_def)

lemma preserves_throw [preserves_intro]: "preserves P (throw e)"
  by (auto simp: preserves_def throw_def)

lemma preserves_gets [preserves_intro]: "preserves P (gets f)"
  by (auto simp: preserves_def gets_def)

lemma preserves_or_throw [preserves_intro]: "preserves P (or_throw e v)"
  by (auto simp: preserves_def eff_simps)

lemma preserves_undefined [preserves_intro]: "preserves P undefined_behaviour"
  by (auto simp: preserves_def eff_simps)

lemma preserves_modify: "(\<And>s. P s \<Longrightarrow> P (f s)) \<Longrightarrow> preserves P (modify f)"
  by (auto simp: preserves_def modify_def)

lemma preserves_bnd [preserves_intro]:
  assumes m: "preserves P m" and f: "\<And>x. preserves P (f x)"
  shows "preserves P (bnd m f)"
proof (rule preservesI)
  fix s r t
  assume "P s" and "bnd m f s = Some (r, t)"
  then show "P t"
    by (cases r) (auto simp: eff_simps dest: preservesD [OF m] preservesD [OF f])
qed

lemma preserves_try [preserves_intro]:
  assumes m: "preserves P m" and h: "\<And>e. preserves P (h e)"
  shows "preserves P (try_catch m h)"
proof (rule preservesI)
  fix s r t
  assume "P s" and "try_catch m h s = Some (r, t)"
  then show "P t"
    by (auto simp: try_catch_eq dest: preservesD [OF m] preservesD [OF h])
qed

lemma preserves_on_exit:
  "preserves P m \<Longrightarrow> (\<And>s. P s \<Longrightarrow> P (d s)) \<Longrightarrow> preserves P (on_exit m d)"
  unfolding preserves_def on_exit_def by (auto split: option.splits)

lemma preserves_if [preserves_intro]:
  "(b \<Longrightarrow> preserves P m) \<Longrightarrow> (\<not> b \<Longrightarrow> preserves P n) \<Longrightarrow> preserves P (if b then m else n)"
  by simp

lemma preserves_case_option [preserves_intro]:
  "preserves P m \<Longrightarrow> (\<And>x. preserves P (f x)) \<Longrightarrow>
   preserves P (case v of None \<Rightarrow> m | Some x \<Rightarrow> f x)"
  by (cases v) simp_all

lemma preserves_for_each [preserves_intro]:
  "(\<And>x. preserves P (f x)) \<Longrightarrow> preserves P (for_each f xs)"
  by (induction xs) (simp_all add: preserves_ret preserves_bnd)

section \<open>Computations that come to an end\<close>

text \<open>From every state the computation returns or throws: it neither loops nor is undefined.\<close>

definition ends :: "('s, 'e, 'a) eff \<Rightarrow> bool" where
  "ends m \<longleftrightarrow> (\<forall>s. \<exists>r t. m s = Some (r, t))"

lemma endsE: "ends m \<Longrightarrow> (\<And>r t. m s = Some (r, t) \<Longrightarrow> thesis) \<Longrightarrow> thesis"
  unfolding ends_def by blast

lemma ends_basic [preserves_intro]: "ends (ret x)" "ends (throw e)" "ends (gets f)" "ends (modify g)" "ends (or_throw e v)"
  by (auto simp: ends_def ret_def throw_def gets_def modify_def or_throw_def split: option.split)

lemma ends_bnd [preserves_intro]: "ends m \<Longrightarrow> (\<And>x. ends (f x)) \<Longrightarrow> ends (bnd m f)"
  unfolding ends_def bnd_def by (force split: option.split sum.split)

lemma ends_try [preserves_intro]: "ends m \<Longrightarrow> (\<And>e. ends (h e)) \<Longrightarrow> ends (try_catch m h)"
  unfolding ends_def try_catch_def by (force split: option.split sum.split)

lemma ends_on_exit [preserves_intro]: "ends m \<Longrightarrow> ends (on_exit m d)"
  unfolding ends_def on_exit_def by (metis (mono_tags, lifting) case_prod_conv option.simps(5) option.simps(9))

lemma ends_if [preserves_intro]: "(b \<Longrightarrow> ends m) \<Longrightarrow> (\<not> b \<Longrightarrow> ends n) \<Longrightarrow> ends (if b then m else n)"
  by simp

lemma ends_case_option [preserves_intro]: "ends m \<Longrightarrow> (\<And>x. ends (f x)) \<Longrightarrow> ends (case v of None \<Rightarrow> m | Some x \<Rightarrow> f x)"
  by (cases v) simp_all

section \<open>Exceptions a computation can raise\<close>

definition raises_only :: "('e \<Rightarrow> bool) \<Rightarrow> ('s, 'e, 'a) eff \<Rightarrow> bool" where
  "raises_only E m \<longleftrightarrow> (\<forall>s x t. m s = Some (Inl x, t) \<longrightarrow> E x)"

lemma raises_onlyI: "(\<And>s x t. m s = Some (Inl x, t) \<Longrightarrow> E x) \<Longrightarrow> raises_only E m"
  by (auto simp: raises_only_def)

lemma raises_onlyD: "raises_only E m \<Longrightarrow> m s = Some (Inl x, t) \<Longrightarrow> E x"
  by (auto simp: raises_only_def)

lemma raises_only_ret [preserves_intro]: "raises_only E (ret x)"
  by (simp add: raises_only_def ret_def)

lemma raises_only_throw [preserves_intro]: "E x \<Longrightarrow> raises_only E (throw x)"
  by (simp add: raises_only_def throw_def)

lemma raises_only_or_throw [preserves_intro]: "E x \<Longrightarrow> raises_only E (or_throw x v)"
  by (auto simp: raises_only_def eff_simps split: option.splits)

lemma raises_only_undefined [preserves_intro]: "raises_only E undefined_behaviour"
  by (auto simp: raises_only_def eff_simps)

lemma raises_only_bnd [preserves_intro]:
  "raises_only E m \<Longrightarrow> (\<And>x. raises_only E (f x)) \<Longrightarrow> raises_only E (bnd m f)"
  by (rule raises_onlyI) (auto simp: eff_simps dest: raises_onlyD)

lemma raises_only_if [preserves_intro]:
  "(b \<Longrightarrow> raises_only E m) \<Longrightarrow> (\<not> b \<Longrightarrow> raises_only E n) \<Longrightarrow> raises_only E (if b then m else n)"
  by simp

lemma raises_only_case_option [preserves_intro]:
  "raises_only E m \<Longrightarrow> (\<And>x. raises_only E (f x)) \<Longrightarrow>
   raises_only E (case v of None \<Rightarrow> m | Some x \<Rightarrow> f x)"
  by (cases v) simp_all

lemma raises_only_on_exit [preserves_intro]: "raises_only E m \<Longrightarrow> raises_only E (on_exit m d)"
  by (rule raises_onlyI) (auto simp: eff_simps dest: raises_onlyD)

lemma raises_only_for_each [preserves_intro]:
  "(\<And>x. raises_only E (f x)) \<Longrightarrow> raises_only E (for_each f xs)"
  by (induction xs) (simp_all add: raises_only_ret raises_only_bnd)

section \<open>Sequences of operations\<close>

text \<open>
  \<open>run_ops op as s\<close> performs the operations in order and collects their results; an operation that
  does not return leaves the whole sequence without a result.
\<close>

fun run_ops :: "('a \<Rightarrow> 's \<Rightarrow> ('r \<times> 's) option) \<Rightarrow> 'a list \<Rightarrow> 's \<Rightarrow> ('r list \<times> 's) option" where
  "run_ops op [] s = Some ([], s)"
| "run_ops op (a # as) s =
     (case op a s of None \<Rightarrow> None
      | Some (r, t) \<Rightarrow> (case run_ops op as t of None \<Rightarrow> None | Some (rs, u) \<Rightarrow> Some (r # rs, u)))"

lemma run_ops_Cons_eq:
  "run_ops op (a # as) s = Some (rs, u) \<longleftrightarrow>
     (\<exists>r t rs'. op a s = Some (r, t) \<and> run_ops op as t = Some (rs', u) \<and> rs = r # rs')"
  by (auto split: option.splits)

lemma run_ops_length: "run_ops op as s = Some (rs, u) \<Longrightarrow> length rs = length as"
  by (induction as arbitrary: s rs) (auto split: option.splits)

text \<open>The values among the results of a sequence.\<close>

fun returned :: "('e + 'a) list \<Rightarrow> 'a list" where
  "returned [] = []"
| "returned (Inl e # rs) = returned rs"
| "returned (Inr x # rs) = x # returned rs"

locale invariant_ops =
  fixes op :: "'a \<Rightarrow> 's \<Rightarrow> ('r \<times> 's) option"
    and inv :: "'s \<Rightarrow> bool"
  assumes inv_op: "inv s \<Longrightarrow> op a s = Some (r, t) \<Longrightarrow> inv t"
begin

lemma inv_run_ops: "inv s \<Longrightarrow> run_ops op as s = Some (rs, u) \<Longrightarrow> inv u"
proof (induction as arbitrary: s rs)
  case Nil
  then show ?case by simp
next
  case (Cons a as)
  then obtain r t rs' where "op a s = Some (r, t)" and "run_ops op as t = Some (rs', u)"
    by (auto simp: run_ops_Cons_eq simp del: run_ops.simps)
  with Cons show ?case by (blast intro: inv_op)
qed

text \<open>Every result of a sequence was produced in a state that satisfies the invariant.\<close>

lemma inv_each:
  "inv s \<Longrightarrow> run_ops op as s = Some (rs, u) \<Longrightarrow> r \<in> set rs \<Longrightarrow> \<exists>a s' t. inv s' \<and> op a s' = Some (r, t)"
proof (induction as arbitrary: s rs)
  case Nil
  then show ?case by simp
next
  case (Cons a as)
  then obtain r' t rs' where step: "op a s = Some (r', t)" "run_ops op as t = Some (rs', u)" "rs = r' # rs'"
    by (auto simp: run_ops_Cons_eq simp del: run_ops.simps)
  with Cons.prems(1) have "inv t" by (blast intro: inv_op)
  show ?case
  proof (cases "r = r'")
    case True
    with step Cons.prems(1) show ?thesis by blast
  next
    case False
    with step Cons.prems(3) have "r \<in> set rs'" by simp
    from Cons.IH [OF \<open>inv t\<close> step(2) this] show ?thesis .
  qed
qed

end

end
