(* ===== verification/OrderedMap.thy ===== *)
theory OrderedMap
  imports Effects
begin

text \<open>
  \<^verbatim>\<open>std::map\<close> with its iteration order: an association list kept strictly sorted by key. The
  laws a client relies on (lookup after insertion, order and distinctness of the keys) are stated as
  the locale \<open>ordered_map\<close>, proved for \<open>omap_upd\<close>, and used for the JSON objects of jsoncpp and for
  the two indexes of the reconciliation.
\<close>

fun omap_upd :: "'k::linorder \<Rightarrow> 'v \<Rightarrow> ('k \<times> 'v) list \<Rightarrow> ('k \<times> 'v) list" where
  "omap_upd k v [] = [(k, v)]"
| "omap_upd k v ((k', v') # kvs) =
     (if k < k' then (k, v) # (k', v') # kvs
      else if k = k' then (k, v) # kvs
      else (k', v') # omap_upd k v kvs)"

definition omap_find :: "'k \<Rightarrow> ('k \<times> 'v) list \<Rightarrow> 'v option" where
  "omap_find k kvs = map_of kvs k"

definition omap_ok :: "('k::linorder \<times> 'v) list \<Rightarrow> bool" where
  "omap_ok kvs \<longleftrightarrow> sorted_wrt (<) (map fst kvs)"

text \<open>\<open>for (row : rows) m[key(row)] = row;\<close>\<close>

definition omap_index :: "('r \<Rightarrow> 'k::linorder) \<Rightarrow> 'r list \<Rightarrow> ('k \<times> 'r) list" where
  "omap_index key rows = foldl (\<lambda>m row. omap_upd (key row) row m) [] rows"

declare omap_upd.simps [eval_simps] omap_find_def [eval_simps] omap_index_def [eval_simps]

lemma omap_find_upd: "omap_find k' (omap_upd k v kvs) = (if k' = k then Some v else omap_find k' kvs)"
  by (induction kvs) (auto simp: omap_find_def)

lemma set_keys_upd: "fst ` set (omap_upd k v kvs) = insert k (fst ` set kvs)"
  by (induction k v kvs rule: omap_upd.induct) (simp_all add: insert_commute)

lemma omap_ok_Nil [simp]: "omap_ok []"
  by (simp add: omap_ok_def)

lemma omap_ok_upd: "omap_ok kvs \<Longrightarrow> omap_ok (omap_upd k v kvs)"
proof (induction kvs)
  case (Cons kv kvs)
  obtain k' v' where "kv = (k', v')" by force
  with Cons set_keys_upd [of k v kvs] show ?case
    by (auto simp: omap_ok_def)
qed (simp add: omap_ok_def)

lemma omap_ok_distinct: "omap_ok kvs \<Longrightarrow> distinct (map fst kvs)"
  by (simp add: omap_ok_def strict_sorted_iff)

lemma omap_find_Some_iff:
  assumes "omap_ok kvs"
  shows "omap_find k kvs = Some v \<longleftrightarrow> (k, v) \<in> set kvs"
  using map_of_eq_Some_iff [OF omap_ok_distinct [OF assms]] by (simp add: omap_find_def)

lemma omap_find_None_iff: "omap_find k kvs = None \<longleftrightarrow> k \<notin> set (map fst kvs)"
  by (simp add: omap_find_def map_of_eq_None_iff)

locale ordered_map =
  fixes upd :: "'k::linorder \<Rightarrow> 'v \<Rightarrow> 'm \<Rightarrow> 'm"
    and find :: "'k \<Rightarrow> 'm \<Rightarrow> 'v option"
    and ok :: "'m \<Rightarrow> bool"
    and emp :: 'm
  assumes find_emp: "find k emp = None"
    and find_upd: "ok m \<Longrightarrow> find k (upd k' v m) = (if k = k' then Some v else find k m)"
    and ok_emp: "ok emp"
    and ok_upd: "ok m \<Longrightarrow> ok (upd k v m)"
begin

lemma ok_foldl: "ok m \<Longrightarrow> ok (foldl (\<lambda>m r. upd (key r) (val r) m) m rows)"
  by (induction rows arbitrary: m) (simp_all add: ok_upd)

text \<open>Indexing rows by key keeps, for each key, the last row that has it.\<close>

lemma find_foldl:
  "ok m \<Longrightarrow> find k (foldl (\<lambda>m r. upd (key r) (val r) m) m rows) =
     (case filter (\<lambda>r. key r = k) rows of [] \<Rightarrow> find k m
      | rs \<Rightarrow> Some (val (last rs)))"
proof (induction rows arbitrary: m)
  case (Cons r rows)
  then show ?case by (auto simp: ok_upd find_upd split: list.split)
qed simp

lemma find_foldl_Some:
  assumes "find k (foldl (\<lambda>m r. upd (key r) (val r) m) emp rows) = Some v"
  shows "\<exists>r \<in> set rows. key r = k \<and> val r = v"
proof -
  from assms obtain rs where rs: "filter (\<lambda>r. key r = k) rows = rs" "rs \<noteq> []" "v = val (last rs)"
    by (auto simp: find_foldl [OF ok_emp] find_emp split: list.splits)
  then have "last rs \<in> set (filter (\<lambda>r. key r = k) rows)" by simp
  with rs(3) show ?thesis by auto
qed

lemma find_foldl_None:
  "find k (foldl (\<lambda>m r. upd (key r) (val r) m) emp rows) = None \<longleftrightarrow> k \<notin> key ` set rows"
proof -
  have "find k (foldl (\<lambda>m r. upd (key r) (val r) m) emp rows) = None \<longleftrightarrow>
      filter (\<lambda>r. key r = k) rows = []"
    by (simp add: find_foldl [OF ok_emp] find_emp split: list.split)
  then show ?thesis by (auto simp: filter_empty_conv)
qed

end

interpretation omap: ordered_map omap_upd omap_find omap_ok "[]"
  by unfold_locales (simp_all add: omap_find_upd omap_ok_upd, simp add: omap_find_def)

lemma omap_ok_index: "omap_ok (omap_index key rows)"
  unfolding omap_index_def by (rule omap.ok_foldl [where val = "\<lambda>r. r"]) simp

lemma omap_index_key: "(k, r) \<in> set (omap_index key rows) \<Longrightarrow> key r = k \<and> r \<in> set rows"
  using omap.find_foldl_Some [of k key "\<lambda>r. r" rows r] omap_find_Some_iff [OF omap_ok_index, of k key rows r]
  by (auto simp: omap_index_def)

lemma omap_index_None: "omap_find k (omap_index key rows) = None \<longleftrightarrow> k \<notin> key ` set rows"
  unfolding omap_index_def by (rule omap.find_foldl_None [where val = "\<lambda>r. r"])

text \<open>With distinct keys nothing is lost: the index holds exactly the rows.\<close>

lemma set_omap_index:
  assumes "distinct (map key rows)"
  shows "set (omap_index key rows) = (\<lambda>r. (key r, r)) ` set rows"
proof -
  have inj: "r \<in> set rows \<Longrightarrow> r' \<in> set rows \<Longrightarrow> key r = key r' \<Longrightarrow> r = r'" for r r'
    using assms by (meson distinct_map inj_onD)
  show ?thesis
  proof (intro set_eqI iffI)
    fix p assume p: "p \<in> set (omap_index key rows)"
    obtain k r where "p = (k, r)" by force
    with p omap_index_key [of k r key rows] show "p \<in> (\<lambda>r. (key r, r)) ` set rows" by auto
  next
    fix p assume "p \<in> (\<lambda>r. (key r, r)) ` set rows"
    then obtain r where r: "r \<in> set rows" "p = (key r, r)" by auto
    then have "omap_find (key r) (omap_index key rows) \<noteq> None" by (auto simp: omap_index_None)
    then obtain r' where r': "omap_find (key r) (omap_index key rows) = Some r'" by auto
    then have "(key r, r') \<in> set (omap_index key rows)" by (simp add: omap_find_Some_iff omap_ok_index)
    with omap_index_key [OF this] inj r r' show "p \<in> set (omap_index key rows)" by auto
  qed
qed

end
