(* ===== verification/ErrorCode.thy ===== *)
theory ErrorCode
  imports OrderedMap
begin

text \<open>
  \<^verbatim>\<open>src/common/ErrorCode.h\<close> and \<^verbatim>\<open>src/common/BizException.h\<close>: the error codes, their numeric values
  (the wire protocol) and their readable messages, and the exceptions that services throw. Message
  texts are UTF-8 byte strings, exactly the bytes of the source literals.
\<close>

section \<open>Error codes\<close>

datatype ErrCode =
    kSuccess
  | kParamInvalid
  | kMissingRequestId
  | kDuplicateRequest
  | kNotFound
  | kAccountNotFound
  | kBalanceNotEnough
  | kProductNotFound
  | kStockNotEnough
  | kOrderNotFound
  | kOrderStatusInvalid
  | kSignVerifyFailed
  | kAmountMismatch
  | kChannelTradeConflict
  | kUnsupportedChannel
  | kReconcileBatchNotFound
  | kReconcileBatchStatusInvalid
  | kReconcileDiffAlreadyHandled
  | kReconcileBillParseFailed
  | kDbError
  | kInternalError

primrec ErrCode_value :: "ErrCode \<Rightarrow> int" where
  "ErrCode_value kSuccess = 0"
| "ErrCode_value kParamInvalid = 10001"
| "ErrCode_value kMissingRequestId = 10002"
| "ErrCode_value kDuplicateRequest = 10003"
| "ErrCode_value kNotFound = 10004"
| "ErrCode_value kAccountNotFound = 20001"
| "ErrCode_value kBalanceNotEnough = 20002"
| "ErrCode_value kProductNotFound = 30001"
| "ErrCode_value kStockNotEnough = 30002"
| "ErrCode_value kOrderNotFound = 40001"
| "ErrCode_value kOrderStatusInvalid = 40002"
| "ErrCode_value kSignVerifyFailed = 50001"
| "ErrCode_value kAmountMismatch = 50002"
| "ErrCode_value kChannelTradeConflict = 50003"
| "ErrCode_value kUnsupportedChannel = 50004"
| "ErrCode_value kReconcileBatchNotFound = 70001"
| "ErrCode_value kReconcileBatchStatusInvalid = 70002"
| "ErrCode_value kReconcileDiffAlreadyHandled = 70003"
| "ErrCode_value kReconcileBillParseFailed = 70004"
| "ErrCode_value kDbError = 90001"
| "ErrCode_value kInternalError = 90003"

primrec toMessage :: "ErrCode \<Rightarrow> string" where
  "toMessage kSuccess =
     [CHR 0xE6, CHR 0x88, CHR 0x90, CHR 0xE5, CHR 0x8A, CHR 0x9F]"
| "toMessage kParamInvalid =
     [CHR 0xE5, CHR 0x8F, CHR 0x82, CHR 0xE6, CHR 0x95, CHR 0xB0, CHR 0xE6, CHR 0xA0,
      CHR 0xA1, CHR 0xE9, CHR 0xAA, CHR 0x8C, CHR 0xE5, CHR 0xA4, CHR 0xB1, CHR 0xE8,
      CHR 0xB4, CHR 0xA5]"
| "toMessage kMissingRequestId =
     [CHR 0xE7, CHR 0xBC, CHR 0xBA, CHR 0xE5, CHR 0xB0, CHR 0x91, CHR 0xE6, CHR 0x88,
      CHR 0x96, CHR 0xE9, CHR 0x9D, CHR 0x9E, CHR 0xE6, CHR 0xB3, CHR 0x95, CHR 0xE7,
      CHR 0x9A, CHR 0x84, CHR '' '', CHR ''X'', CHR ''-'', CHR ''R'', CHR ''e'',
      CHR ''q'', CHR ''u'', CHR ''e'', CHR ''s'', CHR ''t'', CHR ''-'', CHR ''I'',
      CHR ''d'']"
| "toMessage kDuplicateRequest =
     [CHR 0xE9, CHR 0x87, CHR 0x8D, CHR 0xE5, CHR 0xA4, CHR 0x8D, CHR 0xE8, CHR 0xAF,
      CHR 0xB7, CHR 0xE6, CHR 0xB1, CHR 0x82, CHR 0xEF, CHR 0xBC, CHR 0x8C, CHR 0xE8,
      CHR 0xAF, CHR 0xB7, CHR 0xE7, CHR 0xA8, CHR 0x8D, CHR 0xE5, CHR 0x90, CHR 0x8E,
      CHR 0xE9, CHR 0x87, CHR 0x8D, CHR 0xE8, CHR 0xAF, CHR 0x95]"
| "toMessage kNotFound =
     [CHR 0xE8, CHR 0xB5, CHR 0x84, CHR 0xE6, CHR 0xBA, CHR 0x90, CHR 0xE4, CHR 0xB8,
      CHR 0x8D, CHR 0xE5, CHR 0xAD, CHR 0x98, CHR 0xE5, CHR 0x9C, CHR 0xA8]"
| "toMessage kAccountNotFound =
     [CHR 0xE8, CHR 0xB4, CHR 0xA6, CHR 0xE6, CHR 0x88, CHR 0xB7, CHR 0xE4, CHR 0xB8,
      CHR 0x8D, CHR 0xE5, CHR 0xAD, CHR 0x98, CHR 0xE5, CHR 0x9C, CHR 0xA8]"
| "toMessage kBalanceNotEnough =
     [CHR 0xE4, CHR 0xBD, CHR 0x99, CHR 0xE9, CHR 0xA2, CHR 0x9D, CHR 0xE4, CHR 0xB8,
      CHR 0x8D, CHR 0xE8, CHR 0xB6, CHR 0xB3]"
| "toMessage kProductNotFound =
     [CHR 0xE5, CHR 0x95, CHR 0x86, CHR 0xE5, CHR 0x93, CHR 0x81, CHR 0xE4, CHR 0xB8,
      CHR 0x8D, CHR 0xE5, CHR 0xAD, CHR 0x98, CHR 0xE5, CHR 0x9C, CHR 0xA8]"
| "toMessage kStockNotEnough =
     [CHR 0xE5, CHR 0xBA, CHR 0x93, CHR 0xE5, CHR 0xAD, CHR 0x98, CHR 0xE4, CHR 0xB8,
      CHR 0x8D, CHR 0xE8, CHR 0xB6, CHR 0xB3]"
| "toMessage kOrderNotFound =
     [CHR 0xE8, CHR 0xAE, CHR 0xA2, CHR 0xE5, CHR 0x8D, CHR 0x95, CHR 0xE4, CHR 0xB8,
      CHR 0x8D, CHR 0xE5, CHR 0xAD, CHR 0x98, CHR 0xE5, CHR 0x9C, CHR 0xA8]"
| "toMessage kOrderStatusInvalid =
     [CHR 0xE8, CHR 0xAE, CHR 0xA2, CHR 0xE5, CHR 0x8D, CHR 0x95, CHR 0xE7, CHR 0x8A,
      CHR 0xB6, CHR 0xE6, CHR 0x80, CHR 0x81, CHR 0xE4, CHR 0xB8, CHR 0x8D, CHR 0xE5,
      CHR 0x85, CHR 0x81, CHR 0xE8, CHR 0xAE, CHR 0xB8, CHR 0xE6, CHR 0xAD, CHR 0xA4,
      CHR 0xE6, CHR 0x93, CHR 0x8D, CHR 0xE4, CHR 0xBD, CHR 0x9C]"
| "toMessage kSignVerifyFailed =
     [CHR 0xE7, CHR 0xAD, CHR 0xBE, CHR 0xE5, CHR 0x90, CHR 0x8D, CHR 0xE6, CHR 0xA0,
      CHR 0xA1, CHR 0xE9, CHR 0xAA, CHR 0x8C, CHR 0xE5, CHR 0xA4, CHR 0xB1, CHR 0xE8,
      CHR 0xB4, CHR 0xA5]"
| "toMessage kAmountMismatch =
     [CHR 0xE6, CHR 0x94, CHR 0xAF, CHR 0xE4, CHR 0xBB, CHR 0x98, CHR 0xE9, CHR 0x87,
      CHR 0x91, CHR 0xE9, CHR 0xA2, CHR 0x9D, CHR 0xE4, CHR 0xB8, CHR 0x8E, CHR 0xE8,
      CHR 0xAE, CHR 0xA2, CHR 0xE5, CHR 0x8D, CHR 0x95, CHR 0xE9, CHR 0x87, CHR 0x91,
      CHR 0xE9, CHR 0xA2, CHR 0x9D, CHR 0xE4, CHR 0xB8, CHR 0x8D, CHR 0xE4, CHR 0xB8,
      CHR 0x80, CHR 0xE8, CHR 0x87, CHR 0xB4]"
| "toMessage kChannelTradeConflict =
     [CHR 0xE6, CHR 0xB8, CHR 0xA0, CHR 0xE9, CHR 0x81, CHR 0x93, CHR 0xE4, CHR 0xBA,
      CHR 0xA4, CHR 0xE6, CHR 0x98, CHR 0x93, CHR 0xE5, CHR 0x8F, CHR 0xB7, CHR 0xE5,
      CHR 0xB7, CHR 0xB2, CHR 0xE7, CHR 0xBB, CHR 0x91, CHR 0xE5, CHR 0xAE, CHR 0x9A,
      CHR 0xE5, CHR 0x85, CHR 0xB6, CHR 0xE4, CHR 0xBB, CHR 0x96, CHR 0xE8, CHR 0xAE,
      CHR 0xA2, CHR 0xE5, CHR 0x8D, CHR 0x95]"
| "toMessage kUnsupportedChannel =
     [CHR 0xE4, CHR 0xB8, CHR 0x8D, CHR 0xE6, CHR 0x94, CHR 0xAF, CHR 0xE6, CHR 0x8C,
      CHR 0x81, CHR 0xE7, CHR 0x9A, CHR 0x84, CHR 0xE6, CHR 0x94, CHR 0xAF, CHR 0xE4,
      CHR 0xBB, CHR 0x98, CHR 0xE6, CHR 0xB8, CHR 0xA0, CHR 0xE9, CHR 0x81, CHR 0x93]"
| "toMessage kReconcileBatchNotFound =
     [CHR 0xE5, CHR 0xAF, CHR 0xB9, CHR 0xE8, CHR 0xB4, CHR 0xA6, CHR 0xE6, CHR 0x89,
      CHR 0xB9, CHR 0xE6, CHR 0xAC, CHR 0xA1, CHR 0xE4, CHR 0xB8, CHR 0x8D, CHR 0xE5,
      CHR 0xAD, CHR 0x98, CHR 0xE5, CHR 0x9C, CHR 0xA8]"
| "toMessage kReconcileBatchStatusInvalid =
     [CHR 0xE8, CHR 0xAF, CHR 0xA5, CHR 0xE6, CHR 0x97, CHR 0xA5, CHR 0xE6, CHR 0x9C,
      CHR 0x9F, CHR 0xE5, CHR 0xB7, CHR 0xB2, CHR 0xE5, CHR 0xAF, CHR 0xB9, CHR 0xE8,
      CHR 0xB4, CHR 0xA6, CHR 0xE6, CHR 0x88, CHR 0x96, CHR 0xE6, CHR 0x89, CHR 0xB9,
      CHR 0xE6, CHR 0xAC, CHR 0xA1, CHR 0xE7, CHR 0x8A, CHR 0xB6, CHR 0xE6, CHR 0x80,
      CHR 0x81, CHR 0xE4, CHR 0xB8, CHR 0x8D, CHR 0xE5, CHR 0x85, CHR 0x81, CHR 0xE8,
      CHR 0xAE, CHR 0xB8, CHR 0xE6, CHR 0xAD, CHR 0xA4, CHR 0xE6, CHR 0x93, CHR 0x8D,
      CHR 0xE4, CHR 0xBD, CHR 0x9C]"
| "toMessage kReconcileDiffAlreadyHandled =
     [CHR 0xE5, CHR 0xB7, CHR 0xAE, CHR 0xE5, CHR 0xBC, CHR 0x82, CHR 0xE8, CHR 0xAE,
      CHR 0xB0, CHR 0xE5, CHR 0xBD, CHR 0x95, CHR 0xE5, CHR 0xB7, CHR 0xB2, CHR 0xE5,
      CHR 0xA4, CHR 0x84, CHR 0xE7, CHR 0x90, CHR 0x86, CHR 0xE8, CHR 0xBF, CHR 0x87]"
| "toMessage kReconcileBillParseFailed =
     [CHR 0xE8, CHR 0xB4, CHR 0xA6, CHR 0xE5, CHR 0x8D, CHR 0x95, CHR 0xE6, CHR 0x96,
      CHR 0x87, CHR 0xE4, CHR 0xBB, CHR 0xB6, CHR 0xE4, CHR 0xB8, CHR 0x8D, CHR 0xE5,
      CHR 0xAD, CHR 0x98, CHR 0xE5, CHR 0x9C, CHR 0xA8, CHR 0xE6, CHR 0x88, CHR 0x96,
      CHR 0xE8, CHR 0xA7, CHR 0xA3, CHR 0xE6, CHR 0x9E, CHR 0x90, CHR 0xE5, CHR 0xA4,
      CHR 0xB1, CHR 0xE8, CHR 0xB4, CHR 0xA5]"
| "toMessage kDbError =
     [CHR 0xE7, CHR 0xB3, CHR 0xBB, CHR 0xE7, CHR 0xBB, CHR 0x9F, CHR 0xE7, CHR 0xB9,
      CHR 0x81, CHR 0xE5, CHR 0xBF, CHR 0x99, CHR 0xEF, CHR 0xBC, CHR 0x8C, CHR 0xE8,
      CHR 0xAF, CHR 0xB7, CHR 0xE7, CHR 0xA8, CHR 0x8D, CHR 0xE5, CHR 0x90, CHR 0x8E,
      CHR 0xE9, CHR 0x87, CHR 0x8D, CHR 0xE8, CHR 0xAF, CHR 0x95]"
| "toMessage kInternalError =
     [CHR 0xE7, CHR 0xB3, CHR 0xBB, CHR 0xE7, CHR 0xBB, CHR 0x9F, CHR 0xE5, CHR 0x86,
      CHR 0x85, CHR 0xE9, CHR 0x83, CHR 0xA8, CHR 0xE9, CHR 0x94, CHR 0x99, CHR 0xE8,
      CHR 0xAF, CHR 0xAF]"

declare toMessage.simps [simp del]

definition isSuccess :: "ErrCode \<Rightarrow> bool" where
  "isSuccess c \<longleftrightarrow> c = kSuccess"

section \<open>Texts of the services\<close>

text \<open>The literals passed to \<open>BizException\<close> and \<open>Result::fail\<close>, in the order of the services.\<close>

definition msg_quantity_range :: string where \<comment> \<open>quantity must be within 1..999\<close>
  "msg_quantity_range =
     [CHR 0xE8, CHR 0xB4, CHR 0xAD, CHR 0xE4, CHR 0xB9, CHR 0xB0, CHR 0xE6, CHR 0x95,
      CHR 0xB0, CHR 0xE9, CHR 0x87, CHR 0x8F, CHR 0xE5, CHR 0xBF, CHR 0x85, CHR 0xE9,
      CHR 0xA1, CHR 0xBB, CHR 0xE5, CHR 0x9C, CHR 0xA8, CHR '' '', CHR ''1'', CHR ''~'',
      CHR ''9'', CHR ''9'', CHR ''9'', CHR '' '', CHR 0xE4, CHR 0xB9, CHR 0x8B, CHR 0xE9,
      CHR 0x97, CHR 0xB4]"

definition msg_product_missing :: string where \<comment> \<open>product does not exist\<close>
  "msg_product_missing =
     [CHR 0xE5, CHR 0x95, CHR 0x86, CHR 0xE5, CHR 0x93, CHR 0x81, CHR 0xE4, CHR 0xB8,
      CHR 0x8D, CHR 0xE5, CHR 0xAD, CHR 0x98, CHR 0xE5, CHR 0x9C, CHR 0xA8]"

definition msg_product_off_sale :: string where \<comment> \<open>product is off sale\<close>
  "msg_product_off_sale =
     [CHR 0xE5, CHR 0x95, CHR 0x86, CHR 0xE5, CHR 0x93, CHR 0x81, CHR 0xE5, CHR 0xB7,
      CHR 0xB2, CHR 0xE4, CHR 0xB8, CHR 0x8B, CHR 0xE6, CHR 0x9E, CHR 0xB6]"

definition msg_stock_short :: string where \<comment> \<open>stock not enough\<close>
  "msg_stock_short =
     [CHR 0xE5, CHR 0xBA, CHR 0x93, CHR 0xE5, CHR 0xAD, CHR 0x98, CHR 0xE4, CHR 0xB8,
      CHR 0x8D, CHR 0xE8, CHR 0xB6, CHR 0xB3]"

definition msg_channel_unsupported :: string where \<comment> \<open>unsupported channel\<close>
  "msg_channel_unsupported =
     [CHR 0xE4, CHR 0xB8, CHR 0x8D, CHR 0xE6, CHR 0x94, CHR 0xAF, CHR 0xE6, CHR 0x8C,
      CHR 0x81, CHR 0xE7, CHR 0x9A, CHR 0x84, CHR 0xE6, CHR 0x94, CHR 0xAF, CHR 0xE4,
      CHR 0xBB, CHR 0x98, CHR 0xE6, CHR 0xB8, CHR 0xA0, CHR 0xE9, CHR 0x81, CHR 0x93]"

definition msg_sign_failed :: string where \<comment> \<open>signature check failed\<close>
  "msg_sign_failed =
     [CHR 0xE7, CHR 0xAD, CHR 0xBE, CHR 0xE5, CHR 0x90, CHR 0x8D, CHR 0xE6, CHR 0xA0,
      CHR 0xA1, CHR 0xE9, CHR 0xAA, CHR 0x8C, CHR 0xE5, CHR 0xA4, CHR 0xB1, CHR 0xE8,
      CHR 0xB4, CHR 0xA5]"

definition msg_order_missing :: string where \<comment> \<open>order does not exist\<close>
  "msg_order_missing =
     [CHR 0xE8, CHR 0xAE, CHR 0xA2, CHR 0xE5, CHR 0x8D, CHR 0x95, CHR 0xE4, CHR 0xB8,
      CHR 0x8D, CHR 0xE5, CHR 0xAD, CHR 0x98, CHR 0xE5, CHR 0x9C, CHR 0xA8]"

definition msg_amount_mismatch :: string where \<comment> \<open>paid amount differs from the order\<close>
  "msg_amount_mismatch =
     [CHR 0xE6, CHR 0x94, CHR 0xAF, CHR 0xE4, CHR 0xBB, CHR 0x98, CHR 0xE9, CHR 0x87,
      CHR 0x91, CHR 0xE9, CHR 0xA2, CHR 0x9D, CHR 0xE4, CHR 0xB8, CHR 0x8E, CHR 0xE8,
      CHR 0xAE, CHR 0xA2, CHR 0xE5, CHR 0x8D, CHR 0x95, CHR 0xE9, CHR 0x87, CHR 0x91,
      CHR 0xE9, CHR 0xA2, CHR 0x9D, CHR 0xE4, CHR 0xB8, CHR 0x8D, CHR 0xE4, CHR 0xB8,
      CHR 0x80, CHR 0xE8, CHR 0x87, CHR 0xB4]"

definition msg_trade_conflict :: string where \<comment> \<open>trade number bound to another order\<close>
  "msg_trade_conflict =
     [CHR 0xE6, CHR 0xB8, CHR 0xA0, CHR 0xE9, CHR 0x81, CHR 0x93, CHR 0xE4, CHR 0xBA,
      CHR 0xA4, CHR 0xE6, CHR 0x98, CHR 0x93, CHR 0xE5, CHR 0x8F, CHR 0xB7, CHR 0xE5,
      CHR 0xB7, CHR 0xB2, CHR 0xE7, CHR 0xBB, CHR 0x91, CHR 0xE5, CHR 0xAE, CHR 0x9A,
      CHR 0xE5, CHR 0x85, CHR 0xB6, CHR 0xE4, CHR 0xBB, CHR 0x96, CHR 0xE8, CHR 0xAE,
      CHR 0xA2, CHR 0xE5, CHR 0x8D, CHR 0x95]"

definition msg_order_status :: string where \<comment> \<open>order status does not allow payment\<close>
  "msg_order_status =
     [CHR 0xE8, CHR 0xAE, CHR 0xA2, CHR 0xE5, CHR 0x8D, CHR 0x95, CHR 0xE7, CHR 0x8A,
      CHR 0xB6, CHR 0xE6, CHR 0x80, CHR 0x81, CHR 0xE4, CHR 0xB8, CHR 0x8D, CHR 0xE5,
      CHR 0x85, CHR 0x81, CHR 0xE8, CHR 0xAE, CHR 0xB8, CHR 0xE6, CHR 0x94, CHR 0xAF,
      CHR 0xE4, CHR 0xBB, CHR 0x98]"

definition msg_account_missing :: string where \<comment> \<open>account does not exist\<close>
  "msg_account_missing =
     [CHR 0xE8, CHR 0xB4, CHR 0xA6, CHR 0xE6, CHR 0x88, CHR 0xB7, CHR 0xE4, CHR 0xB8,
      CHR 0x8D, CHR 0xE5, CHR 0xAD, CHR 0x98, CHR 0xE5, CHR 0x9C, CHR 0xA8]"

definition msg_balance_short :: string where \<comment> \<open>balance not enough\<close>
  "msg_balance_short =
     [CHR 0xE4, CHR 0xBD, CHR 0x99, CHR 0xE9, CHR 0xA2, CHR 0x9D, CHR 0xE4, CHR 0xB8,
      CHR 0x8D, CHR 0xE8, CHR 0xB6, CHR 0xB3]"

definition msg_bill_missing :: string where \<comment> \<open>bill file does not exist\<close>
  "msg_bill_missing =
     [CHR 0xE8, CHR 0xB4, CHR 0xA6, CHR 0xE5, CHR 0x8D, CHR 0x95, CHR 0xE6, CHR 0x96,
      CHR 0x87, CHR 0xE4, CHR 0xBB, CHR 0xB6, CHR 0xE4, CHR 0xB8, CHR 0x8D, CHR 0xE5,
      CHR 0xAD, CHR 0x98, CHR 0xE5, CHR 0x9C, CHR 0xA8, CHR 0xEF, CHR 0xBC, CHR 0x88,
      CHR 0xE5, CHR 0x85, CHR 0x88, CHR 0xE7, CHR 0x94, CHR 0xA8, CHR '' '', CHR ''s'',
      CHR ''c'', CHR ''r'', CHR ''i'', CHR ''p'', CHR ''t'', CHR ''s'', CHR ''/'',
      CHR ''g'', CHR ''e'', CHR ''n'', CHR ''_'', CHR ''b'', CHR ''i'', CHR ''l'',
      CHR ''l'', CHR ''.'', CHR ''s'', CHR ''h'', CHR '' '', CHR 0xE7, CHR 0x94,
      CHR 0x9F, CHR 0xE6, CHR 0x88, CHR 0x90, CHR 0xEF, CHR 0xBC, CHR 0x89]"

definition msg_bill_line :: string where \<comment> \<open>bill line failed to parse\<close>
  "msg_bill_line =
     [CHR 0xE8, CHR 0xB4, CHR 0xA6, CHR 0xE5, CHR 0x8D, CHR 0x95, CHR 0xE8, CHR 0xA1,
      CHR 0x8C, CHR 0xE8, CHR 0xA7, CHR 0xA3, CHR 0xE6, CHR 0x9E, CHR 0x90, CHR 0xE5,
      CHR 0xA4, CHR 0xB1, CHR 0xE8, CHR 0xB4, CHR 0xA5]"

definition msg_batch_exists :: string where \<comment> \<open>date already reconciled\<close>
  "msg_batch_exists =
     [CHR 0xE8, CHR 0xAF, CHR 0xA5, CHR 0xE6, CHR 0x97, CHR 0xA5, CHR 0xE6, CHR 0x9C,
      CHR 0x9F, CHR 0xE5, CHR 0xB7, CHR 0xB2, CHR 0xE5, CHR 0xAF, CHR 0xB9, CHR 0xE8,
      CHR 0xB4, CHR 0xA6, CHR 0xEF, CHR 0xBC, CHR 0x8C, CHR 0xE5, CHR 0x8B, CHR 0xBF,
      CHR 0xE9, CHR 0x87, CHR 0x8D, CHR 0xE5, CHR 0xA4, CHR 0x8D, CHR 0xE8, CHR 0xB7,
      CHR 0x91, CHR 0xE6, CHR 0x89, CHR 0xB9]"

definition msg_action_invalid :: string where \<comment> \<open>action must be verify or ignore\<close>
  "msg_action_invalid =
     [CHR ''a'', CHR ''c'', CHR ''t'', CHR ''i'', CHR ''o'', CHR ''n'', CHR '' '',
      CHR 0xE5, CHR 0xBF, CHR 0x85, CHR 0xE9, CHR 0xA1, CHR 0xBB, CHR 0xE6, CHR 0x98,
      CHR 0xAF, CHR '' '', CHR ''v'', CHR ''e'', CHR ''r'', CHR ''i'', CHR ''f'',
      CHR ''y'', CHR '' '', CHR 0xE6, CHR 0x88, CHR 0x96, CHR '' '', CHR ''i'',
      CHR ''g'', CHR ''n'', CHR ''o'', CHR ''r'', CHR ''e'']"

definition msg_diff_missing :: string where \<comment> \<open>difference does not exist\<close>
  "msg_diff_missing =
     [CHR 0xE5, CHR 0xB7, CHR 0xAE, CHR 0xE5, CHR 0xBC, CHR 0x82, CHR 0xE8, CHR 0xAE,
      CHR 0xB0, CHR 0xE5, CHR 0xBD, CHR 0x95, CHR 0xE4, CHR 0xB8, CHR 0x8D, CHR 0xE5,
      CHR 0xAD, CHR 0x98, CHR 0xE5, CHR 0x9C, CHR 0xA8]"

definition msg_diff_handled :: string where \<comment> \<open>difference already handled\<close>
  "msg_diff_handled =
     [CHR 0xE5, CHR 0xB7, CHR 0xAE, CHR 0xE5, CHR 0xBC, CHR 0x82, CHR 0xE5, CHR 0xB7,
      CHR 0xB2, CHR 0xE5, CHR 0xA4, CHR 0x84, CHR 0xE7, CHR 0x90, CHR 0x86, CHR 0xE8,
      CHR 0xBF, CHR 0x87]"

definition msg_shutting_down :: string where \<comment> \<open>service is shutting down\<close>
  "msg_shutting_down =
     [CHR 0xE6, CHR 0x9C, CHR 0x8D, CHR 0xE5, CHR 0x8A, CHR 0xA1, CHR 0xE6, CHR 0xAD,
      CHR 0xA3, CHR 0xE5, CHR 0x9C, CHR 0xA8, CHR 0xE5, CHR 0x85, CHR 0xB3, CHR 0xE9,
      CHR 0x97, CHR 0xAD, CHR 0xEF, CHR 0xBC, CHR 0x8C, CHR 0xE8, CHR 0xAF, CHR 0xB7,
      CHR 0xE7, CHR 0xA8, CHR 0x8D, CHR 0xE5, CHR 0x90, CHR 0x8E, CHR 0xE9, CHR 0x87,
      CHR 0x8D, CHR 0xE8, CHR 0xAF, CHR 0x95]"

definition msg_order_params :: string where \<comment> \<open>ids and quantity must be positive integers\<close>
  "msg_order_params =
     [CHR ''p'', CHR ''r'', CHR ''o'', CHR ''d'', CHR ''u'', CHR ''c'', CHR ''t'',
      CHR ''I'', CHR ''d'', CHR ''/'', CHR ''q'', CHR ''u'', CHR ''a'', CHR ''n'',
      CHR ''t'', CHR ''i'', CHR ''t'', CHR ''y'', CHR ''/'', CHR ''u'', CHR ''s'',
      CHR ''e'', CHR ''r'', CHR ''I'', CHR ''d'', CHR '' '', CHR 0xE5, CHR 0xBF,
      CHR 0x85, CHR 0xE9, CHR 0xA1, CHR 0xBB, CHR 0xE4, CHR 0xB8, CHR 0xBA, CHR 0xE6,
      CHR 0xAD, CHR 0xA3, CHR 0xE6, CHR 0x95, CHR 0xB4, CHR 0xE6, CHR 0x95, CHR 0xB0]"

definition msg_callback_params :: string where \<comment> \<open>callback fields missing or invalid\<close>
  "msg_callback_params =
     [CHR ''o'', CHR ''r'', CHR ''d'', CHR ''e'', CHR ''r'', CHR ''N'', CHR ''o'',
      CHR ''/'', CHR ''c'', CHR ''h'', CHR ''a'', CHR ''n'', CHR ''n'', CHR ''e'',
      CHR ''l'', CHR ''/'', CHR ''c'', CHR ''h'', CHR ''a'', CHR ''n'', CHR ''n'',
      CHR ''e'', CHR ''l'', CHR ''T'', CHR ''r'', CHR ''a'', CHR ''d'', CHR ''e'',
      CHR ''N'', CHR ''o'', CHR ''/'', CHR ''a'', CHR ''m'', CHR ''o'', CHR ''u'',
      CHR ''n'', CHR ''t'', CHR ''/'', CHR ''t'', CHR ''i'', CHR ''m'', CHR ''e'',
      CHR ''s'', CHR ''t'', CHR ''a'', CHR ''m'', CHR ''p'', CHR ''/'', CHR ''s'',
      CHR ''i'', CHR ''g'', CHR ''n'', CHR '' '', CHR 0xE7, CHR 0xBC, CHR 0xBA, CHR 0xE5,
      CHR 0xA4, CHR 0xB1, CHR 0xE6, CHR 0x88, CHR 0x96, CHR 0xE9, CHR 0x9D, CHR 0x9E,
      CHR 0xE6, CHR 0xB3, CHR 0x95]"

definition msg_bill_date :: string where \<comment> \<open>billDate is required\<close>
  "msg_bill_date =
     [CHR ''b'', CHR ''i'', CHR ''l'', CHR ''l'', CHR ''D'', CHR ''a'', CHR ''t'',
      CHR ''e'', CHR ''('', CHR ''Y'', CHR ''Y'', CHR ''Y'', CHR ''Y'', CHR ''-'',
      CHR ''M'', CHR ''M'', CHR ''-'', CHR ''D'', CHR ''D'', CHR '')'', CHR '' '',
      CHR 0xE5, CHR 0xBF, CHR 0x85, CHR 0xE5, CHR 0xA1, CHR 0xAB]"

definition msg_batch_no :: string where \<comment> \<open>batchNo is required\<close>
  "msg_batch_no =
     [CHR ''b'', CHR ''a'', CHR ''t'', CHR ''c'', CHR ''h'', CHR ''N'', CHR ''o'',
      CHR '' '', CHR 0xE6, CHR 0x9F, CHR 0xA5, CHR 0xE8, CHR 0xAF, CHR 0xA2, CHR 0xE5,
      CHR 0x8F, CHR 0x82, CHR 0xE6, CHR 0x95, CHR 0xB0, CHR 0xE5, CHR 0xBF, CHR 0x85,
      CHR 0xE5, CHR 0xA1, CHR 0xAB]"

definition msg_action_required :: string where \<comment> \<open>action is required\<close>
  "msg_action_required =
     [CHR ''a'', CHR ''c'', CHR ''t'', CHR ''i'', CHR ''o'', CHR ''n'', CHR ''('',
      CHR ''v'', CHR ''e'', CHR ''r'', CHR ''i'', CHR ''f'', CHR ''y'', CHR ''/'',
      CHR ''i'', CHR ''g'', CHR ''n'', CHR ''o'', CHR ''r'', CHR ''e'', CHR '')'',
      CHR '' '', CHR 0xE5, CHR 0xBF, CHR 0x85, CHR 0xE5, CHR 0xA1, CHR 0xAB]"

section \<open>Exceptions\<close>

text \<open>
  What the code throws: a business exception with its code and text, a database error of the driver,
  or any other \<open>std::exception\<close>. The technical text of the last two only goes to the log.
\<close>

datatype exn = BizException ErrCode string | DrogonDbException | StdException

section \<open>Properties\<close>

text \<open>Codes are distinct and only \<open>kSuccess\<close> is zero, so a response code identifies its error.\<close>

lemma ErrCode_value_inj [simp]: "ErrCode_value c = ErrCode_value d \<longleftrightarrow> c = d"
  by (cases c; cases d; simp)

lemma ErrCode_value_zero [simp]: "ErrCode_value c = 0 \<longleftrightarrow> c = kSuccess"
  by (cases c; simp)

lemma ErrCode_value_zero' [simp]: "0 = ErrCode_value c \<longleftrightarrow> c = kSuccess"
  by (cases c; simp)

text \<open>The scheme AABBB of the header comment: the module is the code divided by 1000.\<close>

lemma ErrCode_module:
  "c \<noteq> kSuccess \<Longrightarrow> ErrCode_value c div 1000 \<in> {10, 20, 30, 40, 50, 60, 70, 90}"
  by (cases c) simp_all

end
