(* ===== verification/Json.thy ===== *)
theory Json
  imports ErrorCode
begin

text \<open>
  The JSON values the program builds and reads (the operations of jsoncpp's \<^verbatim>\<open>Json::Value\<close> it calls)
  and \<^verbatim>\<open>src/models/Result.h\<close>, the envelope of every HTTP response. An accessor that throws
  \<^verbatim>\<open>Json::LogicError\<close> on a value of the wrong type is \<open>None\<close>.
\<close>

section \<open>Values\<close>

text \<open>
  An object is an ordered map. A floating point value is represented by the text the library prints
  for it and by its integral part, the only two views of it the program takes.
\<close>

datatype json =
    JNull
  | JBool bool
  | JInt int
  | JUInt int
  | JReal string int
  | JString string
  | JArray "json list"
  | JObject "(string \<times> json) list"

text \<open>\<open>v[key] = x\<close> on a null value or an object; the program never assigns into another value.\<close>

fun jset :: "string \<Rightarrow> json \<Rightarrow> json \<Rightarrow> json" where
  "jset k x (JObject kvs) = JObject (omap_upd k x kvs)"
| "jset k x v = JObject [(k, x)]"

fun isMember :: "json \<Rightarrow> string \<Rightarrow> bool option" where
  "isMember (JObject kvs) k = Some (omap_find k kvs \<noteq> None)"
| "isMember JNull k = Some False"
| "isMember v k = None"

fun jget :: "json \<Rightarrow> string \<Rightarrow> json option" where
  "jget (JObject kvs) k = Some (case omap_find k kvs of None \<Rightarrow> JNull | Some v \<Rightarrow> v)"
| "jget JNull k = Some JNull"
| "jget v k = None"

fun isNumeric :: "json \<Rightarrow> bool" where
  "isNumeric (JInt i) = True"
| "isNumeric (JUInt i) = True"
| "isNumeric (JReal r i) = True"
| "isNumeric v = False"

fun isString :: "json \<Rightarrow> bool" where
  "isString (JString s) = True"
| "isString v = False"

fun asInt64 :: "json \<Rightarrow> int option" where
  "asInt64 (JInt i) = Some i"
| "asInt64 (JUInt i) = (if in_i64 i then Some i else None)"
| "asInt64 (JReal r i) = (if in_i64 i then Some i else None)"
| "asInt64 JNull = Some 0"
| "asInt64 (JBool b) = Some (if b then 1 else 0)"
| "asInt64 v = None"

definition in_i32 :: "int \<Rightarrow> bool" where
  "in_i32 i \<longleftrightarrow> - (2 ^ 31) \<le> i \<and> i < 2 ^ 31"

fun asInt :: "json \<Rightarrow> int option" where
  "asInt (JInt i) = (if in_i32 i then Some i else None)"
| "asInt (JUInt i) = (if in_i32 i then Some i else None)"
| "asInt (JReal r i) = (if in_i32 i then Some i else None)"
| "asInt JNull = Some 0"
| "asInt (JBool b) = Some (if b then 1 else 0)"
| "asInt v = None"

fun asString :: "json \<Rightarrow> string option" where
  "asString (JString s) = Some s"
| "asString JNull = Some []"
| "asString (JBool b) = Some (if b then ''true'' else ''false'')"
| "asString (JInt i) = Some (string_of_int i)"
| "asString (JUInt i) = Some (string_of_int i)"
| "asString (JReal r i) = Some r"
| "asString v = None"

fun asBool :: "json \<Rightarrow> bool option" where
  "asBool (JBool b) = Some b"
| "asBool JNull = Some False"
| "asBool (JInt i) = Some (i \<noteq> 0)"
| "asBool (JUInt i) = Some (i \<noteq> 0)"
| "asBool (JReal r i) = Some (r \<noteq> ''0.0'' \<and> r \<noteq> ''-0.0'')"
| "asBool v = None"

text \<open>The idiom \<open>cfg.isMember(key) ? cfg[key].asString() : fallback\<close>.\<close>

definition memberOr :: "json \<Rightarrow> string \<Rightarrow> string \<Rightarrow> string option" where
  "memberOr cfg key fallback =
     (case isMember cfg key of
        None \<Rightarrow> None
      | Some False \<Rightarrow> Some fallback
      | Some True \<Rightarrow> (case jget cfg key of None \<Rightarrow> None | Some x \<Rightarrow> asString x))"

declare memberOr_def [eval_simps] in_i32_def [eval_simps]

lemma jget_jset_same [simp]: "jget (jset k x v) k = Some x"
  by (cases v) (simp_all add: omap_find_upd, simp_all add: omap_find_def)

lemma jget_jset_other:
  "k \<noteq> k' \<Longrightarrow> jget (jset k x v) k' = (case v of JObject kvs \<Rightarrow> jget v k' | _ \<Rightarrow> Some JNull)"
  by (cases v) (simp_all add: omap_find_upd, simp_all add: omap_find_def)

lemma isMember_jset:
  "isMember (jset k x v) k' = Some (k = k' \<or> (case v of JObject kvs \<Rightarrow> omap_find k' kvs \<noteq> None | _ \<Rightarrow> False))"
  by (cases v) (auto simp: omap_find_upd, auto simp: omap_find_def split: if_splits)

section \<open>Result\<close>

record 'a Result =
  res_code :: int
  res_message :: string
  res_data :: "'a option"
  res_requestId :: string

definition Result_makeOk :: "'a \<Rightarrow> string \<Rightarrow> 'a Result" where
  "Result_makeOk value requestId =
     \<lparr>res_code = ErrCode_value kSuccess, res_message = toMessage kSuccess,
      res_data = Some value, res_requestId = requestId\<rparr>"

definition Result_ok :: "'a \<Rightarrow> string \<Rightarrow> 'a Result" where
  "Result_ok value requestId = Result_makeOk value requestId"

declare Result_makeOk_def [simp]

definition Result_fail :: "ErrCode \<Rightarrow> string \<Rightarrow> string \<Rightarrow> 'a Result" where
  "Result_fail code message requestId =
     \<lparr>res_code = ErrCode_value code, res_message = message,
      res_data = None, res_requestId = requestId\<rparr>"

definition Result_isOk :: "'a Result \<Rightarrow> bool" where
  "Result_isOk r \<longleftrightarrow> res_code r = ErrCode_value kSuccess"

text \<open>\<open>to\<close> is the conversion \<open>detail::toJsonValue\<close> selects for the data type.\<close>

definition Result_toJson :: "('a \<Rightarrow> json) \<Rightarrow> 'a Result \<Rightarrow> json" where
  "Result_toJson to r =
     (let root = jset ''code'' (JInt (res_code r)) JNull;
          root = jset ''message'' (JString (res_message r)) root;
          root = jset ''requestId'' (JString (res_requestId r)) root
      in case res_data r of
           Some d \<Rightarrow> jset ''data'' (to d) root
         | None \<Rightarrow> jset ''data'' JNull root)"

lemma Result_isOk_simps [simp]:
  "Result_isOk (Result_ok v rid)" "Result_isOk (Result_fail c m rid) \<longleftrightarrow> c = kSuccess"
  by (simp_all add: Result_isOk_def Result_ok_def Result_fail_def)

lemma res_code_simps [simp]:
  "res_code (Result_ok v rid) = 0" "res_code (Result_fail c m rid) = ErrCode_value c"
  by (simp_all add: Result_ok_def Result_fail_def)

lemma Result_ok_inject [simp]: "Result_ok v rid = Result_ok v' rid' \<longleftrightarrow> v = v' \<and> rid = rid'"
  by (auto simp: Result_ok_def)

lemma Result_ok_neq_fail [simp]:
  "c \<noteq> kSuccess \<Longrightarrow> Result_ok v rid \<noteq> Result_fail c m rid'"
  "c \<noteq> kSuccess \<Longrightarrow> Result_fail c m rid' \<noteq> Result_ok v rid"
  by (auto simp: Result_ok_def Result_fail_def)

text \<open>
  The response envelope. Every response object carries the members \<open>code\<close>, \<open>message\<close>,
  \<open>requestId\<close> and \<open>data\<close> with the values of the result; \<open>data\<close> is present and null when the result
  has no data, never absent.
\<close>

theorem Result_toJson_members:
  "jget (Result_toJson to r) ''code'' = Some (JInt (res_code r)) \<and>
   jget (Result_toJson to r) ''message'' = Some (JString (res_message r)) \<and>
   jget (Result_toJson to r) ''requestId'' = Some (JString (res_requestId r)) \<and>
   isMember (Result_toJson to r) ''data'' = Some True \<and>
   jget (Result_toJson to r) ''data'' = Some (case res_data r of None \<Rightarrow> JNull | Some d \<Rightarrow> to d)"
  by (cases "res_data r") (simp_all add: Result_toJson_def Let_def omap_find_def)

end
