(* ===== verification/IdGenerator.thy ===== *)
theory IdGenerator
  imports ErrorCode
begin

text \<open>
  \<^verbatim>\<open>src/utils/IdGenerator.cc\<close>: the snowflake generator of order numbers, payment numbers, message
  identifiers and batch numbers. Its state is the pair of globals \<open>gLastTimestampMs\<close> and
  \<open>gSequence\<close>, which the mutex makes change in one step per call. The system clock is a
  parameter: \<open>clk k\<close> is the time in nanoseconds that its \<open>k\<close>-th reading returns. The spin loop
  \<open>waitNextMs\<close> returns \<open>None\<close> when the clock never passes the last timestamp.
\<close>

unbundle bit_operations_syntax

section \<open>Definitions\<close>

record idgen =
  gLastTimestampMs :: int64
  gSequence :: int64

definition idgen_init :: idgen where
  "idgen_init = \<lparr>gLastTimestampMs = - 1, gSequence = 0\<rparr>"

definition kEpochMs :: int64 where "kEpochMs = 1704067200000"
definition kDatacenterIdBits :: nat where "kDatacenterIdBits = 5"
definition kWorkerIdBits :: nat where "kWorkerIdBits = 5"
definition kSequenceBits :: nat where "kSequenceBits = 12"
definition kMaxSequence :: int64 where "kMaxSequence = push_bit kSequenceBits 1 - 1"
definition kTimestampShift :: nat where "kTimestampShift = kDatacenterIdBits + kWorkerIdBits + kSequenceBits"
definition kDatacenterShift :: nat where "kDatacenterShift = kWorkerIdBits + kSequenceBits"
definition kWorkerShift :: nat where "kWorkerShift = kSequenceBits"
definition kDatacenterId :: int64 where "kDatacenterId = 1"
definition kWorkerId :: int64 where "kWorkerId = 1"

declare kDatacenterIdBits_def [simp] kWorkerIdBits_def [simp] kSequenceBits_def [simp] kDatacenterId_def [simp] kWorkerId_def [simp]

definition currentTimeMs :: "(nat \<Rightarrow> int) \<Rightarrow> nat \<Rightarrow> int64" where
  "currentTimeMs clk k = cdiv (clk k) 1000000"

partial_function (option) waitNextMs :: "(nat \<Rightarrow> int) \<Rightarrow> int64 \<Rightarrow> nat \<Rightarrow> (int64 \<times> nat) option" where
  "waitNextMs clk lastMs k =
     (if currentTimeMs clk k \<le> lastMs then waitNextMs clk lastMs (Suc k)
      else Some (currentTimeMs clk k, Suc k))"

definition snowflake :: "int64 \<Rightarrow> int64 \<Rightarrow> uint64" where
  "snowflake nowMs sequence =
     push_bit kTimestampShift (word_of_int (nowMs - kEpochMs)) OR
     push_bit kDatacenterShift (word_of_int kDatacenterId) OR
     push_bit kWorkerShift (word_of_int kWorkerId) OR
     word_of_int sequence"

definition finish_id :: "int64 \<Rightarrow> int64 \<Rightarrow> nat \<Rightarrow> ((exn + string) \<times> idgen \<times> nat) option" where
  "finish_id nowMs sequence k =
     Some (Inr (string_of_int (sint (snowflake nowMs sequence))),
           \<lparr>gLastTimestampMs = nowMs, gSequence = sequence\<rparr>, k)"

definition IdGenerator_nextId :: "(nat \<Rightarrow> int) \<Rightarrow> (idgen \<times> nat, exn, string) eff" where
  "IdGenerator_nextId clk = (\<lambda>(g, k).
     let nowMs = currentTimeMs clk k in
     if nowMs < gLastTimestampMs g then Some (Inl StdException, g, Suc k)
     else if nowMs = gLastTimestampMs g then
       (let s = (gSequence g + 1) AND kMaxSequence in
        if s = 0 then
          (case waitNextMs clk (gLastTimestampMs g) (Suc k) of
             None \<Rightarrow> None
           | Some (ts, k') \<Rightarrow> finish_id ts s k')
        else finish_id nowMs s (Suc k))
     else finish_id nowMs 0 (Suc k))"

declare idgen_init_def [eval_simps] currentTimeMs_def [eval_simps] cdiv_def [eval_simps]
  finish_id_def [eval_simps] IdGenerator_nextId_def [eval_simps]
  snowflake_def [eval_simps] kEpochMs_def [eval_simps] kMaxSequence_def [eval_simps]
  kTimestampShift_def [eval_simps] kDatacenterShift_def [eval_simps] kWorkerShift_def [eval_simps]
  string_of_int_def [eval_simps]

section \<open>The bit layout\<close>

lemma push_bit_or_add:
  fixes a b :: uint64
  assumes "unat b < 2 ^ n"
  shows "push_bit n a OR b = push_bit n a + b"
proof (rule disjunctive_add [symmetric])
  fix m
  have "take_bit n b = b"
    using assms by (simp add: word_unat_eq_iff unsigned_take_bit_eq take_bit_nat_eq_self)
  then have "bit b m \<Longrightarrow> m < n" by (metis bit_take_bit_iff)
  moreover have "bit (push_bit n a) m \<Longrightarrow> n \<le> m" by (simp add: bit_push_bit_iff)
  ultimately show "\<not> bit (push_bit n a) m \<or> \<not> bit b m" by auto
qed

lemma snowflake_value:
  assumes "0 \<le> nowMs - kEpochMs" "nowMs - kEpochMs < 2 ^ 41" "0 \<le> s" "s < 4096"
  shows "sint (snowflake nowMs s) = (nowMs - kEpochMs) * 2 ^ 22 + 135168 + s"
proof -
  let ?t = "nowMs - kEpochMs"
  have small: "unat (word_of_int x :: uint64) = nat x" if "0 \<le> x" "x < 2 ^ 64" for x
    using that by (simp add: unat_eq_nat_uint uint_word_of_int)
  have u: "unat (word_of_int s :: uint64) < 2 ^ kWorkerShift"
      "unat (word_of_int (4096 + s) :: uint64) < 2 ^ kDatacenterShift"
      "unat (word_of_int (135168 + s) :: uint64) < 2 ^ kTimestampShift"
    using assms(3,4)
    by (simp_all add: small kWorkerShift_def kDatacenterShift_def kTimestampShift_def del: of_int_add)
  have "push_bit kWorkerShift 1 OR (word_of_int s :: uint64) = word_of_int (4096 + s)"
    unfolding push_bit_or_add [OF u(1)] by (simp add: kWorkerShift_def)
  moreover have "push_bit kDatacenterShift 1 OR (word_of_int (4096 + s) :: uint64) = word_of_int (135168 + s)"
    unfolding push_bit_or_add [OF u(2)] by (simp add: kDatacenterShift_def)
  moreover have "push_bit kTimestampShift (word_of_int ?t) OR (word_of_int (135168 + s) :: uint64) =
      word_of_int (?t * 2 ^ 22 + (135168 + s))"
    unfolding push_bit_or_add [OF u(3)] by (simp add: kTimestampShift_def push_bit_eq_mult)
  ultimately have "snowflake nowMs s = word_of_int (?t * 2 ^ 22 + (135168 + s))"
    by (simp add: snowflake_def)
  moreover have "in_i64 (?t * 2 ^ 22 + (135168 + s))"
    using assms by (simp add: in_i64_def)
  ultimately show ?thesis by (simp only: sint_word_of_int wrap64_id add.assoc)
qed

section \<open>Monotonicity and uniqueness\<close>

text \<open>The clock readings for which the 41-bit timestamp is exact: 2024-01-01 until the year 2093.\<close>

definition clock_in_range :: "(nat \<Rightarrow> int) \<Rightarrow> bool" where
  "clock_in_range clk \<longleftrightarrow> (\<forall>k. kEpochMs * 1000000 \<le> clk k \<and> clk k < (kEpochMs + 2 ^ 41) * 1000000)"

definition idgen_ok :: "idgen \<Rightarrow> bool" where
  "idgen_ok g \<longleftrightarrow> 0 \<le> gSequence g \<and> gSequence g < 4096 \<and>
     gLastTimestampMs g < kEpochMs + 2 ^ 41"

text \<open>The number of the identifier that a generator state has handed out last.\<close>

definition id_value :: "idgen \<Rightarrow> int" where
  "id_value g = (gLastTimestampMs g - kEpochMs) * 2 ^ 22 + 135168 + gSequence g"

lemma idgen_ok_init [simp]: "idgen_ok idgen_init"
  by (simp add: idgen_ok_def idgen_init_def kEpochMs_def)

lemma currentTimeMs_range:
  assumes "clock_in_range clk"
  shows "kEpochMs \<le> currentTimeMs clk k \<and> currentTimeMs clk k < kEpochMs + 2 ^ 41"
proof -
  from assms have "kEpochMs * 1000000 \<le> clk k" "clk k < (kEpochMs + 2 ^ 41) * 1000000"
    by (auto simp: clock_in_range_def)
  then show ?thesis by (auto simp: currentTimeMs_def cdiv_def kEpochMs_def)
qed

lemma waitNextMs_Some:
  assumes "waitNextMs clk lastMs k = Some (ts, k')"
  shows "lastMs < ts \<and> (\<exists>j. ts = currentTimeMs clk j)"
proof -
  from assms have "lastMs < fst (ts, k') \<and> (\<exists>j. fst (ts, k') = currentTimeMs clk j)"
  proof (rule waitNextMs.raw_induct [where P = "\<lambda>clk lastMs k r. lastMs < fst r \<and> (\<exists>j. fst r = currentTimeMs clk j)", rotated])
    fix f :: "(nat \<Rightarrow> int) \<Rightarrow> int \<Rightarrow> nat \<Rightarrow> (int \<times> nat) option" and clk lastMs k r
    assume IH: "\<And>clk lastMs k r. f clk lastMs k = Some r \<Longrightarrow> lastMs < fst r \<and> (\<exists>j. fst r = currentTimeMs clk j)"
      and eq: "(if currentTimeMs clk k \<le> lastMs then f clk lastMs (Suc k)
                else Some (currentTimeMs clk k, Suc k)) = Some r"
    then show "lastMs < fst r \<and> (\<exists>j. fst r = currentTimeMs clk j)"
      by (auto split: if_splits)
  qed
  then show ?thesis by simp
qed

text \<open>The spin loop ends as soon as some later reading is past the last timestamp.\<close>

lemma waitNextMs_returns:
  "lastMs < currentTimeMs clk (k + d) \<Longrightarrow> \<exists>r. waitNextMs clk lastMs k = Some r"
proof (induction d arbitrary: k)
  case 0
  then show ?case by (simp add: waitNextMs.simps)
next
  case (Suc d)
  then show ?case
    using Suc.IH [of "Suc k"] by (simp add: waitNextMs.simps [of clk lastMs k])
qed

lemma sequence_step:
  assumes "0 \<le> s" "s < (4096::int)"
  shows "(s + 1) AND kMaxSequence = (if s = 4095 then 0 else s + 1)"
proof -
  have "kMaxSequence = mask 12" by (simp add: kMaxSequence_def mask_eq_exp_minus_1)
  then have "(s + 1) AND kMaxSequence = take_bit 12 (s + 1)" by (simp only: take_bit_eq_mask)
  also have "\<dots> = (s + 1) mod 4096" by (simp add: take_bit_eq_mod)
  finally have "(s + 1) AND kMaxSequence = (s + 1) mod 4096" .
  with assms show ?thesis by auto
qed

text \<open>A successful call hands out the number of its new state, which is larger than every earlier one.\<close>

lemma finish_id_step:
  assumes "finish_id nowMs s k = Some (r, g', k')"
    and "kEpochMs \<le> nowMs" "nowMs < kEpochMs + 2 ^ 41" "0 \<le> s" "s < 4096"
    and "gLastTimestampMs g < nowMs \<or> gLastTimestampMs g = nowMs \<and> gSequence g < s" and "gSequence g < 4096"
  shows "idgen_ok g' \<and> r = Inr (string_of_int (id_value g')) \<and> id_value g < id_value g' \<and>
    gLastTimestampMs g' = nowMs \<and> k' = k"
proof -
  have "sint (snowflake nowMs s) = (nowMs - kEpochMs) * 2 ^ 22 + 135168 + s"
    using assms by (intro snowflake_value) simp_all
  with assms show ?thesis by (auto simp: finish_id_def idgen_ok_def id_value_def)
qed

lemma nextId_step:
  assumes run: "IdGenerator_nextId clk (g, k) = Some (r, g', k')"
    and clk: "clock_in_range clk" and ok: "idgen_ok g"
  shows "idgen_ok g' \<and>
    (case r of Inr x \<Rightarrow> x = string_of_int (id_value g') \<and> id_value g < id_value g' \<and>
                     (\<exists>j. gLastTimestampMs g' = currentTimeMs clk j)
             | Inl e \<Rightarrow> g' = g \<and> e = StdException)"
proof -
  let ?now = "currentTimeMs clk k" and ?s = "(gSequence g + 1) AND kMaxSequence"
  note range = currentTimeMs_range [OF clk]
  from ok have seq: "0 \<le> gSequence g" "gSequence g < 4096" by (simp_all add: idgen_ok_def)
  note step = finish_id_step [where g = g]
  consider (backwards) "?now < gLastTimestampMs g" | (later) "gLastTimestampMs g < ?now"
    | (same) "?now = gLastTimestampMs g" "?s \<noteq> 0" | (full) "?now = gLastTimestampMs g" "?s = 0"
    by linarith
  then show ?thesis
  proof cases
    case backwards
    with run ok show ?thesis by (auto simp: IdGenerator_nextId_def Let_def)
  next
    case later
    with run have "finish_id ?now 0 (Suc k) = Some (r, g', k')" by (simp add: IdGenerator_nextId_def Let_def)
    from step [OF this] later range [of k] seq show ?thesis by auto
  next
    case same
    with run have "finish_id ?now ?s (Suc k) = Some (r, g', k')" by (simp add: IdGenerator_nextId_def Let_def)
    with same step [of ?now ?s "Suc k" r g' k'] range [of k] seq sequence_step [OF seq] show ?thesis
      by (auto split: if_splits intro: exI [of _ k])
  next
    case full
    with run obtain ts j where w: "waitNextMs clk (gLastTimestampMs g) (Suc k) = Some (ts, j)"
      and f: "finish_id ts 0 j = Some (r, g', k')"
      by (auto simp: IdGenerator_nextId_def Let_def split: option.splits)
    from waitNextMs_Some [OF w] obtain i where "gLastTimestampMs g < ts" "ts = currentTimeMs clk i" by blast
    with step [OF f] range [of i] seq show ?thesis by auto
  qed
qed

text \<open>
  The contract of an identifier source: every successful call hands out the decimal form of a
  number of the range that is larger than the one before. Clients get distinct identifiers from it,
  ordered by length and then alphabetically.
\<close>

definition shortlex :: "string \<Rightarrow> string \<Rightarrow> bool" where
  "shortlex x y \<longleftrightarrow> length x < length y \<or> length x = length y \<and> x < y"

locale monotone_ids =
  fixes op :: "'a \<Rightarrow> 's \<Rightarrow> (('e + string) \<times> 's) option"
    and last_id :: "'s \<Rightarrow> int"
    and ok :: "'s \<Rightarrow> bool"
    and lo hi :: int
  assumes op_ok: "ok s \<Longrightarrow> op a s = Some (Inr x, t) \<Longrightarrow>
      ok t \<and> x = string_of_int (last_id t) \<and> last_id s < last_id t \<and> lo \<le> last_id t \<and> last_id t < hi"
    and op_err: "ok s \<Longrightarrow> op a s = Some (Inl e, t) \<Longrightarrow> ok t \<and> last_id t = last_id s"
    and lo_nonneg: "0 \<le> lo"
begin

lemma run_ids:
  "ok s \<Longrightarrow> run_ops op as s = Some (rs, u) \<Longrightarrow>
     \<exists>vs. returned rs = map string_of_int vs \<and> sorted_wrt (<) (last_id s # vs) \<and> set vs \<subseteq> {lo..<hi} \<and> ok u"
proof (induction as arbitrary: s rs)
  case Nil
  then show ?case by simp
next
  case (Cons a as)
  from Cons.prems(2) obtain r t rs' where step: "op a s = Some (r, t)"
    and rest: "run_ops op as t = Some (rs', u)" and rs: "rs = r # rs'"
    by (auto simp: run_ops_Cons_eq simp del: run_ops.simps)
  have "ok t" using op_ok op_err step Cons.prems(1) by (cases r) blast+
  from Cons.IH [OF this rest] obtain vs where
    vs: "returned rs' = map string_of_int vs" "sorted_wrt (<) (last_id t # vs)" "set vs \<subseteq> {lo..<hi}" "ok u"
    by blast
  show ?case
  proof (cases r)
    case (Inl e)
    with op_err step Cons.prems(1) vs rs show ?thesis by auto
  next
    case (Inr x)
    with op_ok step Cons.prems(1) have "x = string_of_int (last_id t)" "last_id s < last_id t"
      "last_id t \<in> {lo..<hi}" by auto
    with Inr vs rs show ?thesis
      by (intro exI [of _ "last_id t # vs"]) auto
  qed
qed

lemma distinct_ids:
  assumes "ok s" and "run_ops op as s = Some (rs, u)"
  shows "distinct (returned rs)"
proof -
  from run_ids [OF assms] obtain vs where "returned rs = map string_of_int vs" "sorted_wrt (<) vs" by auto
  then show ?thesis
    by (simp add: distinct_map strict_sorted_iff inj_on_def string_of_int_inj)
qed

lemma shortlex_ids:
  assumes "ok s" and "run_ops op as s = Some (rs, u)"
  shows "sorted_wrt shortlex (returned rs)"
proof -
  from run_ids [OF assms] obtain vs where vs: "returned rs = map string_of_int vs" "sorted_wrt (<) vs" "set vs \<subseteq> {lo..<hi}"
    by auto
  have "shortlex (string_of_int v) (string_of_int w)" if "v \<in> set vs" "v < w" for v w
    using that vs(3) lo_nonneg string_of_nat_shortlex [of "nat v" "nat w"]
    by (auto simp: string_of_int_def shortlex_def)
  with vs(2) show ?thesis by (simp add: vs(1) sorted_wrt_map sorted_wrt_mono_rel [of vs "(<)"])
qed

lemma format_ids:
  assumes "ok s" and "run_ops op as s = Some (rs, u)" and "hi \<le> 10 ^ d" "0 < d" and "x \<in> set (returned rs)"
  shows "x \<noteq> [] \<and> length x \<le> d \<and> list_all is_digit x"
proof -
  from run_ids [OF assms(1,2)] assms(5) obtain v where "x = string_of_int v" "lo \<le> v" "v < hi" by fastforce
  moreover from this lo_nonneg assms(3) have "nat v < 10 ^ d" by (simp add: nat_less_iff)
  ultimately show ?thesis
    using lo_nonneg length_string_of_nat [of "nat v" d] assms(4)
    by (auto simp: string_of_int_def list_all_iff string_of_nat_digits)
qed

text \<open>When all numbers of the range have the same number of digits, the order is the alphabetical one.\<close>

lemma lex_ids:
  assumes "ok s" and "run_ops op as s = Some (rs, u)" and "10 ^ d \<le> lo" "hi \<le> 10 ^ Suc d"
  shows "sorted_wrt (<) (returned rs) \<and> (\<forall>x\<in>set (returned rs). length x = Suc d)"
proof -
  have len: "length x = Suc d" if x: "x \<in> set (returned rs)" for x
  proof -
    from run_ids [OF assms(1,2)] x obtain v where "x = string_of_int v" "lo \<le> v" "v < hi" by fastforce
    moreover from this lo_nonneg assms(3,4) have "10 ^ d \<le> nat v" "nat v < 10 ^ Suc d"
      by (simp_all add: nat_less_iff le_nat_iff)
    ultimately show ?thesis
      using lo_nonneg length_string_of_nat [of "nat v" "Suc d"] length_string_of_nat_ge [of d "nat v"]
      by (simp add: string_of_int_def)
  qed
  have "sorted_wrt (<) (returned rs)"
    by (rule sorted_wrt_mono_rel [OF _ shortlex_ids [OF assms(1,2)]]) (auto simp: shortlex_def len)
  with len show ?thesis by simp
qed

end

text \<open>The clock readings at which identifiers have 18 digits: from 2024-10-02 until 2031-07-22.\<close>

definition clock_18_digits :: "(nat \<Rightarrow> int) \<Rightarrow> bool" where
  "clock_18_digits clk \<longleftrightarrow>
     (\<forall>k. (kEpochMs + 23841857911) * 1000000 \<le> clk k \<and> clk k < (kEpochMs + 238418579102) * 1000000)"

lemma clock_18_in_range:
  assumes "clock_18_digits clk"
  shows "clock_in_range clk"
  unfolding clock_in_range_def
proof
  fix k
  from assms have "(kEpochMs + 23841857911) * 1000000 \<le> clk k" "clk k < (kEpochMs + 238418579102) * 1000000"
    by (auto simp: clock_18_digits_def)
  then show "kEpochMs * 1000000 \<le> clk k \<and> clk k < (kEpochMs + 2 ^ 41) * 1000000"
    by (simp add: kEpochMs_def)
qed

lemma clock_18_reading:
  assumes "clock_18_digits clk"
  shows "23841857911 \<le> currentTimeMs clk k - kEpochMs \<and> currentTimeMs clk k - kEpochMs < 238418579102"
proof -
  from assms have "(kEpochMs + 23841857911) * 1000000 \<le> clk k" "clk k < (kEpochMs + 238418579102) * 1000000"
    by (auto simp: clock_18_digits_def)
  then show ?thesis by (auto simp: currentTimeMs_def cdiv_def kEpochMs_def)
qed

interpretation snowflake_ids: monotone_ids
  "\<lambda>_. IdGenerator_nextId clk" "\<lambda>s. id_value (fst s)" "\<lambda>s. idgen_ok (fst s) \<and> clock_in_range clk" 0 "2 ^ 63" for clk
proof unfold_locales
  fix s t :: "idgen \<times> nat" and x e
  assume ok: "idgen_ok (fst s) \<and> clock_in_range clk"
  show "(idgen_ok (fst t) \<and> clock_in_range clk) \<and> x = string_of_int (id_value (fst t)) \<and>
      id_value (fst s) < id_value (fst t) \<and> 0 \<le> id_value (fst t) \<and> id_value (fst t) < 2 ^ 63"
    if "IdGenerator_nextId clk s = Some (Inr x, t)"
  proof -
    from that nextId_step [of clk "fst s" "snd s" "Inr x" "fst t" "snd t"] ok obtain j
      where t: "gLastTimestampMs (fst t) = currentTimeMs clk j" "idgen_ok (fst t)"
        "x = string_of_int (id_value (fst t))" "id_value (fst s) < id_value (fst t)" by auto
    moreover have "0 \<le> id_value (fst t) \<and> id_value (fst t) < 2 ^ 63"
      using currentTimeMs_range [of clk j] ok t(1,2) by (simp add: id_value_def idgen_ok_def)
    ultimately show ?thesis using ok by simp
  qed
  show "(idgen_ok (fst t) \<and> clock_in_range clk) \<and> id_value (fst t) = id_value (fst s)"
    if "IdGenerator_nextId clk s = Some (Inl e, t)"
    using nextId_step [of clk "fst s" "snd s" "Inl e" "fst t" "snd t"] that ok by simp
qed simp

interpretation snowflake_18: monotone_ids
  "\<lambda>_. IdGenerator_nextId clk" "\<lambda>s. id_value (fst s)" "\<lambda>s. idgen_ok (fst s) \<and> clock_18_digits clk"
  "10 ^ 17" "10 ^ 18" for clk
proof unfold_locales
  fix s t :: "idgen \<times> nat" and x e
  assume ok: "idgen_ok (fst s) \<and> clock_18_digits clk"
  then have range: "idgen_ok (fst s) \<and> clock_in_range clk" using clock_18_in_range by blast
  show "(idgen_ok (fst t) \<and> clock_18_digits clk) \<and> x = string_of_int (id_value (fst t)) \<and>
      id_value (fst s) < id_value (fst t) \<and> 10 ^ 17 \<le> id_value (fst t) \<and> id_value (fst t) < 10 ^ 18"
    if "IdGenerator_nextId clk s = Some (Inr x, t)"
  proof -
    from that nextId_step [of clk "fst s" "snd s" "Inr x" "fst t" "snd t"] range obtain j
      where "gLastTimestampMs (fst t) = currentTimeMs clk j" "idgen_ok (fst t)" by auto
    then have "10 ^ 17 \<le> id_value (fst t) \<and> id_value (fst t) < 10 ^ 18"
      using clock_18_reading [of clk j] ok by (simp add: id_value_def idgen_ok_def)
    with snowflake_ids.op_ok [OF range that] ok show ?thesis by simp
  qed
  show "(idgen_ok (fst t) \<and> clock_18_digits clk) \<and> id_value (fst t) = id_value (fst s)"
    if "IdGenerator_nextId clk s = Some (Inl e, t)"
    using snowflake_ids.op_err [OF range that] ok by simp
qed simp

lemma currentTimeMs_mono:
  assumes "mono clk" "clock_in_range clk" "j \<le> k"
  shows "currentTimeMs clk j \<le> currentTimeMs clk k"
proof -
  from assms(1,3) have "clk j \<le> clk k" by (rule monoD)
  moreover from assms(2) have "0 \<le> clk j" "0 \<le> clk k"
    by (auto simp: clock_in_range_def kEpochMs_def intro: order_trans [rotated])
  ultimately show ?thesis by (simp add: currentTimeMs_def cdiv_def zdiv_mono1)
qed

text \<open>Without a step back of the clock and within the sequence of a millisecond no call waits or throws.\<close>

lemma nextId_steady:
  assumes "clock_in_range clk" and "idgen_ok g" and "gLastTimestampMs g \<le> currentTimeMs clk k" and "gSequence g < 4095"
  obtains g' where "IdGenerator_nextId clk (g, k) = Some (Inr (string_of_int (id_value g')), g', Suc k)"
    "idgen_ok g'" "id_value g < id_value g'" "0 \<le> id_value g'" "gSequence g' \<le> gSequence g + 1"
    "gLastTimestampMs g' = currentTimeMs clk k"
proof -
  let ?s = "if currentTimeMs clk k = gLastTimestampMs g then gSequence g + 1 else 0"
  let ?g = "\<lparr>gLastTimestampMs = currentTimeMs clk k, gSequence = ?s\<rparr>"
  from assms(2) have seq: "0 \<le> gSequence g" "gSequence g < 4096" by (simp_all add: idgen_ok_def)
  have run: "IdGenerator_nextId clk (g, k) = finish_id (currentTimeMs clk k) ?s (Suc k)"
    using assms(3,4) seq by (auto simp: IdGenerator_nextId_def Let_def sequence_step [OF seq])
  have fin: "finish_id (currentTimeMs clk k) ?s (Suc k) =
      Some (Inr (string_of_int (sint (snowflake (currentTimeMs clk k) ?s))), ?g, Suc k)"
    by (simp add: finish_id_def)
  from finish_id_step [OF fin, of g] currentTimeMs_range [OF assms(1), of k] assms(3,4) seq
  have "idgen_ok ?g" "string_of_int (sint (snowflake (currentTimeMs clk k) ?s)) = string_of_int (id_value ?g)"
    "id_value g < id_value ?g" by auto
  moreover have "0 \<le> id_value ?g"
    using currentTimeMs_range [OF assms(1), of k] seq by (simp add: id_value_def)
  ultimately show ?thesis using run fin seq by (intro that [of ?g]) simp_all
qed

text \<open>With a clock that passes every moment sooner or later, the generator always answers.\<close>

definition clock_passes :: "(nat \<Rightarrow> int) \<Rightarrow> bool" where
  "clock_passes clk \<longleftrightarrow> (\<forall>x k. \<exists>j. x < currentTimeMs clk (k + j))"

lemma nextId_total:
  assumes "clock_passes clk"
  shows "\<exists>r. IdGenerator_nextId clk (g, k) = Some r"
proof -
  from assms obtain j where "gLastTimestampMs g < currentTimeMs clk (Suc k + j)" unfolding clock_passes_def by blast
  from waitNextMs_returns [OF this] obtain r where "waitNextMs clk (gLastTimestampMs g) (Suc k) = Some r" by blast
  then show ?thesis by (cases r) (auto simp: IdGenerator_nextId_def Let_def finish_id_def)
qed

section \<open>Properties\<close>

text \<open>
  C39: snowflake identifiers are unique and ordered. Over any sequence of calls, in whatever pattern
  the clock ticks, stands still or runs backwards (calls that then throw), as long as the clock stays
  within the 41 bits of the timestamp, the identifiers handed out are pairwise distinct, each is a
  string of one to nineteen decimal digits, and they increase in the order of length first and
  characters second. While the clock gives numbers of eighteen digits they increase as strings.
\<close>

theorem snowflake_ids_unique:
  assumes "clock_in_range clk"
    and "run_ops (\<lambda>_::nat. IdGenerator_nextId clk) calls (idgen_init, k) = Some (rs, u)"
  shows "distinct (returned rs) \<and>
    (\<forall>x\<in>set (returned rs). x \<noteq> [] \<and> length x \<le> 19 \<and> list_all is_digit x) \<and>
    sorted_wrt shortlex (returned rs) \<and>
    (clock_18_digits clk \<longrightarrow> sorted_wrt (<) (returned rs))"
proof (intro conjI ballI impI)
  have ok: "idgen_ok (fst (idgen_init, k)) \<and> clock_in_range clk" using assms(1) by simp
  show "distinct (returned rs)" by (rule snowflake_ids.distinct_ids [OF ok assms(2)])
  show "sorted_wrt shortlex (returned rs)" by (rule snowflake_ids.shortlex_ids [OF ok assms(2)])
  show "sorted_wrt (<) (returned rs)" if "clock_18_digits clk"
    using snowflake_18.lex_ids [OF _ assms(2), of 17] that by simp
  show "x \<noteq> []" "length x \<le> 19" "list_all is_digit x" if "x \<in> set (returned rs)" for x
    using snowflake_ids.format_ids [OF ok assms(2) _ _ that, of 19] by simp_all
qed

theorem snowflake_ids_unique_witness:
  "distinct (returned (fst (the (run_ops (\<lambda>_::nat. IdGenerator_nextId (\<lambda>k. 1752800000000000000))
     [0, 1] (idgen_init, 0))))) \<and>
   sorted_wrt (<) (returned (fst (the (run_ops (\<lambda>_::nat. IdGenerator_nextId (\<lambda>k. 1752800000000000000))
     [0, 1] (idgen_init, 0)))))"
proof -
  let ?clk = "\<lambda>k::nat. 1752800000000000000::int"
  have clk: "clock_in_range ?clk" "clock_18_digits ?clk"
    by (simp_all add: clock_in_range_def clock_18_digits_def kEpochMs_def)
  have "\<exists>rs u. run_ops (\<lambda>_::nat. IdGenerator_nextId ?clk) [0, 1] (idgen_init, 0) = Some (rs, u)"
    by (simp add: IdGenerator_nextId_def Let_def currentTimeMs_def cdiv_def idgen_init_def
        finish_id_def kMaxSequence_def)
  then obtain rs u where r: "run_ops (\<lambda>_::nat. IdGenerator_nextId ?clk) [0, 1] (idgen_init, 0) = Some (rs, u)"
    by blast
  from snowflake_ids_unique [OF clk(1) r] clk(2) show ?thesis by (simp only: r) simp
qed

text \<open>
  The order as strings ends when the numbers get their nineteenth digit: of the identifiers of two
  successive milliseconds of July 2031 the later one is the smaller string.
\<close>

lemma snowflake_string_order_breaks:
  "run_ops (\<lambda>_::nat. IdGenerator_nextId (\<lambda>k. (1942485779101 + int k) * 1000000)) [0, 1] (idgen_init, 0) =
     Some ([Inr ''999999999997775872'', Inr ''1000000000001970176''],
       \<lparr>gLastTimestampMs = 1942485779102, gSequence = 0\<rparr>, 2) \<and>
   ''1000000000001970176'' < ''999999999997775872''"
proof -
  have v: "sint (snowflake 1942485779101 0) = 999999999997775872"
    "sint (snowflake 1942485779102 0) = 1000000000001970176"
    by (simp_all add: snowflake_value kEpochMs_def)
  show ?thesis
    by (simp add: IdGenerator_nextId_def currentTimeMs_def cdiv_def idgen_init_def finish_id_def v
        string_of_int_def string_of_nat_eval digit_char_def less_char_def)
qed

text \<open>
  C40: the generator returns. Unless the clock reads earlier than the last timestamp (then the call
  throws and the state is unchanged), a call returns an identifier, also when the sequence of the
  millisecond is exhausted and the spin loop has to wait, provided the clock passes the last
  timestamp at some later reading.
\<close>

theorem nextId_returns:
  assumes "gLastTimestampMs g < currentTimeMs clk (Suc k + d)"
  shows "if currentTimeMs clk k < gLastTimestampMs g
    then IdGenerator_nextId clk (g, k) = Some (Inl StdException, g, Suc k)
    else \<exists>x g' k'. IdGenerator_nextId clk (g, k) = Some (Inr x, g', k')"
proof -
  from waitNextMs_returns [OF assms] obtain r where "waitNextMs clk (gLastTimestampMs g) (Suc k) = Some r"
    by blast
  then show ?thesis
    by (cases r) (auto simp: IdGenerator_nextId_def Let_def finish_id_def)
qed

theorem nextId_returns_witness:
  "\<exists>x g' k'. IdGenerator_nextId (\<lambda>k. if k = 0 then 1752800000000000000 else 1752800000001000000)
     (\<lparr>gLastTimestampMs = 1752800000000, gSequence = 4095\<rparr>, 0) = Some (Inr x, g', k')"
proof -
  let ?clk = "\<lambda>k::nat. if k = 0 then 1752800000000000000 else 1752800000001000000::int"
    and ?g = "\<lparr>gLastTimestampMs = 1752800000000, gSequence = 4095\<rparr>"
  have h: "gLastTimestampMs ?g < currentTimeMs ?clk (Suc 0 + 0)" by (simp add: currentTimeMs_def cdiv_def)
  from nextId_returns [OF h] show ?thesis by (simp add: currentTimeMs_def cdiv_def)
qed

end
