(* ===== verification/Chrono.thy ===== *)
theory Chrono
  imports ErrorCode
begin

text \<open>
  The C library time functions the program uses (\<^verbatim>\<open>gmtime_r\<close>, \<^verbatim>\<open>strftime\<close>, \<^verbatim>\<open>std::stoll\<close>) and its own
  three conversions: \<open>dbTimeAfter\<close> (\<^verbatim>\<open>src/services/OrderService.cc\<close>), \<open>epochToBeijing\<close>
  (\<^verbatim>\<open>src/services/PaymentService.cc\<close>) and \<open>todayBeijing\<close> (\<^verbatim>\<open>src/tasks/ReconcileTask.cc\<close>). Beijing time
  is UTC plus eight hours, without use of the process time zone.
\<close>

section \<open>gmtime_r and strftime\<close>

record tm =
  tm_year :: int
  tm_mon :: int
  tm_mday :: int
  tm_hour :: int
  tm_min :: int
  tm_sec :: int

text \<open>Year, month and day of a day number (days since 1970-01-01, proleptic Gregorian).\<close>

definition year_of_era :: "int \<Rightarrow> int" where
  "year_of_era doe = (doe - doe div 1460 + doe div 36524 - doe div 146096) div 365"

definition day_of_year :: "int \<Rightarrow> int" where
  "day_of_year doe =
     doe - (365 * year_of_era doe + year_of_era doe div 4 - year_of_era doe div 100)"

text \<open>Months counted from March, as an index and as a calendar month.\<close>

definition month_index :: "int \<Rightarrow> int" where
  "month_index doy = (5 * doy + 2) div 153"

definition month_of_index :: "int \<Rightarrow> int" where
  "month_of_index mp = (if mp < 10 then mp + 3 else mp - 9)"

definition civil_in_era :: "int \<Rightarrow> int \<Rightarrow> int \<times> int \<times> int" where
  "civil_in_era era doe =
     (year_of_era doe + era * 400 + (if month_of_index (month_index (day_of_year doe)) \<le> 2 then 1 else 0),
      month_of_index (month_index (day_of_year doe)),
      day_of_year doe - (153 * month_index (day_of_year doe) + 2) div 5 + 1)"

definition civil_from_days :: "int \<Rightarrow> int \<times> int \<times> int" where
  "civil_from_days days = civil_in_era ((days + 719468) div 146097) ((days + 719468) mod 146097)"

text \<open>
  \<open>gmtime_r\<close> fails when the year does not fit its field; the buffer, zero-initialised by the
  callers, is then unchanged.
\<close>

definition gmtime_r :: "int64 \<Rightarrow> tm" where
  "gmtime_r t =
     (case civil_from_days (t div 86400) of (y, m, d) \<Rightarrow>
        if - (2 ^ 31) \<le> y - 1900 \<and> y - 1900 < 2 ^ 31 then
          \<lparr>tm_year = y - 1900, tm_mon = m - 1, tm_mday = d,
           tm_hour = t mod 86400 div 3600, tm_min = t mod 3600 div 60, tm_sec = t mod 60\<rparr>
        else \<lparr>tm_year = 0, tm_mon = 0, tm_mday = 0, tm_hour = 0, tm_min = 0, tm_sec = 0\<rparr>)"

definition pad2 :: "int \<Rightarrow> string" where
  "pad2 i = (if i < 10 then ''0'' else '''') @ string_of_int i"

definition strftime_date :: "tm \<Rightarrow> string" where
  "strftime_date b = string_of_int (tm_year b + 1900) @ ''-'' @ pad2 (tm_mon b + 1) @ ''-'' @ pad2 (tm_mday b)"

definition strftime_datetime :: "tm \<Rightarrow> string" where
  "strftime_datetime b =
     strftime_date b @ '' '' @ pad2 (tm_hour b) @ '':'' @ pad2 (tm_min b) @ '':'' @ pad2 (tm_sec b)"

text \<open>The two texts of a count of seconds since the epoch.\<close>

definition datetime_text :: "int \<Rightarrow> string" where
  "datetime_text t = strftime_datetime (gmtime_r t)"

definition date_text :: "int \<Rightarrow> string" where
  "date_text t = strftime_date (gmtime_r t)"

section \<open>std::stoll\<close>

definition is_space :: "char \<Rightarrow> bool" where
  "is_space c \<longleftrightarrow> (of_char c :: nat) = 32 \<or> (9 \<le> (of_char c :: nat) \<and> (of_char c :: nat) \<le> 13)"

text \<open>
  Leading blanks, an optional sign, then the longest digit string; no digits or a value outside
  \<open>int64_t\<close> throws (\<open>None\<close>).
\<close>

definition stoll :: "string \<Rightarrow> int64 option" where
  "stoll str =
     (let s = dropWhile is_space str;
          negative = (s \<noteq> [] \<and> hd s = CHR ''-'');
          s = (if s \<noteq> [] \<and> (hd s = CHR ''+'' \<or> hd s = CHR ''-'') then tl s else s);
          digits = takeWhile is_digit s;
          v = (if negative then - int (digits_value 0 digits) else int (digits_value 0 digits))
      in if digits = [] \<or> \<not> in_i64 v then None else Some v)"

section \<open>Conversions of the program\<close>

text \<open>\<open>system_clock::to_time_t\<close> of a reading in nanoseconds.\<close>

definition to_time_t :: "int \<Rightarrow> int64" where
  "to_time_t ns = cdiv ns 1000000000"

definition dbTimeAfter :: "int \<Rightarrow> int \<Rightarrow> string" where
  "dbTimeAfter now_ns minutes =
     datetime_text (to_time_t (now_ns + minutes * 60 * 1000000000 + 8 * 3600 * 1000000000))"

definition epochToBeijing :: "string \<Rightarrow> string option" where
  "epochToBeijing epochSeconds =
     (case stoll epochSeconds of
        None \<Rightarrow> None
      | Some n \<Rightarrow> Some (datetime_text (wrap64 (n + 8 * 3600))))"

definition todayBeijing :: "int \<Rightarrow> string" where
  "todayBeijing now_ns = date_text (to_time_t (now_ns + 8 * 3600 * 1000000000))"

declare year_of_era_def [eval_simps] day_of_year_def [eval_simps] month_index_def [eval_simps]
  month_of_index_def [eval_simps] civil_in_era_def [eval_simps] civil_from_days_def [eval_simps] gmtime_r_def [eval_simps] pad2_def [eval_simps]
  strftime_date_def [eval_simps] strftime_datetime_def [eval_simps] datetime_text_def [eval_simps]
  date_text_def [eval_simps] is_space_def [eval_simps] is_digit_def [eval_simps] stoll_def [eval_simps]
  to_time_t_def [eval_simps] dbTimeAfter_def [eval_simps] epochToBeijing_def [eval_simps]
  todayBeijing_def [eval_simps] cdiv_def [eval_simps] string_of_int_def [eval_simps]

section \<open>Lemmas\<close>

lemma takeWhile_digits [simp]: "takeWhile is_digit (string_of_nat n) = string_of_nat n"
  by (simp add: takeWhile_eq_all_conv string_of_nat_digits)

lemma hd_string_of_nat: "is_digit (hd (string_of_nat n))"
  by (rule string_of_nat_digits) (rule hd_in_set, simp)

lemma dropWhile_space_digits [simp]: "dropWhile is_space (string_of_nat n) = string_of_nat n"
proof -
  have "\<not> is_space (hd (string_of_nat n))"
    using hd_string_of_nat [of n] by (auto simp: is_space_def is_digit_def)
  then show ?thesis by (cases "string_of_nat n") simp_all
qed

text \<open>\<open>stoll\<close> inverts \<open>std::to_string\<close>, so a timestamp that went through a string is unchanged.\<close>

lemma stoll_string_of_int [simp]:
  assumes "in_i64 i"
  shows "stoll (string_of_int i) = Some i"
proof -
  have "hd (string_of_nat n) \<noteq> CHR ''-''" "hd (string_of_nat n) \<noteq> CHR ''+''" for n
    using hd_string_of_nat [of n] by (auto simp: is_digit_def)
  with assms show ?thesis
    by (auto simp: stoll_def string_of_int_def Let_def is_space_def)
qed

lemma epochToBeijing_string_of_int:
  "in_i64 i \<Longrightarrow> epochToBeijing (string_of_int i) = Some (datetime_text (wrap64 (i + 28800)))"
  by (simp add: epochToBeijing_def)

text \<open>The date of a time, with midnight appended, is the text of the start of its day.\<close>

lemma datetime_text_midnight:
  "date_text (86400 * (t div 86400)) @ '' 00:00:00'' = datetime_text (86400 * (t div 86400))"
proof -
  let ?m = "86400 * (t div 86400)"
  have "?m mod 3600 = 0" "?m mod 60 = 0" "?m mod 86400 = 0"
    by (simp_all add: mod_eq_0_iff_dvd dvd_mult2)
  moreover have "pad2 0 = ''00''" by (simp add: pad2_def string_of_int_def string_of_nat.simps [of 0] digit_char_def)
  ultimately have "strftime_datetime (gmtime_r ?m) = strftime_date (gmtime_r ?m) @ '' 00:00:00''"
    by (simp add: strftime_datetime_def gmtime_r_def split: prod.split)
  then show ?thesis by (simp add: date_text_def datetime_text_def)
qed

lemma date_text_same_day: "s div 86400 = t div 86400 \<Longrightarrow> date_text s = date_text t"
  by (cases "civil_from_days (t div 86400)")
     (auto simp: date_text_def strftime_date_def gmtime_r_def split: if_splits)

end
