(* ===== verification/Env.thy ===== *)
theory Env
  imports Json IdGenerator Chrono
begin

text \<open>
  What the program relies on and does not contain, as parameters of the model: the clock, the MySQL
  server beyond the statements themselves (faults, its clock, generated keys, collation, date
  parsing), jsoncpp's printers and parser, OpenSSL, the configuration and the file system. A
  property that needs more than the type of a parameter names it in a hypothesis; the predicates at
  the end of the theory are those hypotheses.

  Readings of the clock and SQL statements are numbered in the order in which the program makes
  them, so that a run of the program against one behaviour of its environment is a function.
\<close>

datatype begin_result = BeginOk | BeginNull | BeginThrows

record env =
  clock_ns :: "nat \<Rightarrow> int" \<comment> \<open>the k-th reading of \<open>system_clock::now()\<close>, in nanoseconds\<close>
  db_configured :: bool \<comment> \<open>the default database client exists\<close>
  begin_tx :: "nat \<Rightarrow> begin_result" \<comment> \<open>what \<open>newTransaction()\<close> does as statement n\<close>
  sql_fault :: "nat \<Rightarrow> bool"
    \<comment> \<open>statement n fails for a reason outside the tables: connection, lock wait, a value a column cannot hold\<close>
  db_now :: "nat \<Rightarrow> int" \<comment> \<open>\<open>NOW()\<close> of the server at statement n, in seconds of its local time\<close>
  auto_id :: "nat \<Rightarrow> int" \<comment> \<open>the \<open>AUTO_INCREMENT\<close> value given to a row that statement n inserts\<close>
  ckey :: "string \<Rightarrow> string" \<comment> \<open>collation key: two strings are equal in SQL iff their keys are\<close>
  cast_oor :: "int \<Rightarrow> int" \<comment> \<open>what a DECIMAL(18,2) cast makes of a value beyond its range\<close>
  dt_parse :: "string \<Rightarrow> int option" \<comment> \<open>a string as DATETIME, in seconds; \<open>None\<close>: the statement is refused\<close>
  dt_format :: "int \<Rightarrow> string" \<comment> \<open>\<open>DATE_FORMAT(_, '%Y-%m-%d %H:%i:%s')\<close>\<close>
  date_parse :: "string \<Rightarrow> int option" \<comment> \<open>a string as DATE, as a day number; \<open>None\<close>: refused\<close>
  json_compact :: "json \<Rightarrow> string" \<comment> \<open>\<open>StreamWriterBuilder\<close> without comments and indentation\<close>
  json_http :: "json \<Rightarrow> string" \<comment> \<open>the body that \<open>newHttpJsonResponse\<close> sends\<close>
  json_styled :: "json \<Rightarrow> string" \<comment> \<open>\<open>toStyledString\<close>\<close>
  json_parse :: "string \<Rightarrow> json option" \<comment> \<open>\<open>parseFromStream\<close>; \<open>None\<close>: malformed\<close>
  hmac_sha256 :: "string \<Rightarrow> string \<Rightarrow> string" \<comment> \<open>OpenSSL \<open>HMAC(EVP_sha256(), key, data)\<close>\<close>
  sha256 :: "string \<Rightarrow> string" \<comment> \<open>OpenSSL digest of a request body\<close>
  custom_config :: json \<comment> \<open>the section \<open>custom_config\<close> of the configuration\<close>
  read_file :: "string \<Rightarrow> string option" \<comment> \<open>the content of a file; \<open>None\<close>: it cannot be opened\<close>

section \<open>Documented behaviour used as hypotheses\<close>

text \<open>Identifiers made of digits only differ in every collation of the server.\<close>

definition digits_collate :: "env \<Rightarrow> bool" where
  "digits_collate e \<longleftrightarrow>
     (\<forall>a b. list_all is_digit a \<longrightarrow> list_all is_digit b \<longrightarrow> ckey e a = ckey e b \<longrightarrow> a = b)"

text \<open>The responses of drogon are printed with the settings the snapshot uses.\<close>

definition same_printer :: "env \<Rightarrow> bool" where
  "same_printer e \<longleftrightarrow> json_http e = json_compact e"

text \<open>The server reads back the canonical text of a time.\<close>

definition datetime_roundtrip :: "env \<Rightarrow> bool" where
  "datetime_roundtrip e \<longleftrightarrow>
     (\<forall>t. - 30610224000 \<le> t \<longrightarrow> t < 253402300800 \<longrightarrow> dt_parse e (datetime_text t) = Some t)"

text \<open>Generated keys only grow.\<close>

definition auto_increments :: "env \<Rightarrow> bool" where
  "auto_increments e \<longleftrightarrow> (\<forall>m n. m < n \<longrightarrow> auto_id e m < auto_id e n)"

text \<open>No fault of the server from statement \<open>n\<close> on.\<close>

definition healthy_from :: "env \<Rightarrow> nat \<Rightarrow> bool" where
  "healthy_from e n \<longleftrightarrow> db_configured e \<and> (\<forall>m. n \<le> m \<longrightarrow> begin_tx e m = BeginOk \<and> \<not> sql_fault e m)"

lemma healthy_fromD:
  assumes "healthy_from e n" and "n \<le> m"
  shows "begin_tx e m = BeginOk" and "\<not> sql_fault e m"
  using assms unfolding healthy_from_def by blast+

lemma healthy_from_configured [simp]: "healthy_from e n \<Longrightarrow> db_configured e"
  by (simp add: healthy_from_def)

lemma healthy_from_mono: "healthy_from e n \<Longrightarrow> n \<le> m \<Longrightarrow> healthy_from e m"
  unfolding healthy_from_def using le_trans by blast

end
