(* ===== verification/MoneyUtil.thy ===== *)
theory MoneyUtil
  imports Effects
begin

text \<open>
  \<^verbatim>\<open>src/utils/MoneyUtil.cc\<close>: amounts are \<open>int64_t\<close> fen; \<open>fenToYuanString\<close> prints them with two
  decimals and \<open>yuanStringToFen\<close> reads them back. The lemmas give the exact grammar and range the
  parser accepts, that printing never overflows (also at the least \<open>int64_t\<close>), and the round trip.
\<close>

section \<open>Definitions\<close>

definition fen_abs :: "int64 \<Rightarrow> uint64" where
  "fen_abs fen = (if fen < 0 then word_of_int (wrap64 (- wrap64 (fen + 1))) + 1 else word_of_int fen)"

definition fenToYuanString :: "int64 \<Rightarrow> string" where
  "fenToYuanString fen =
     (let negative = fen < 0;
          abs = fen_abs fen;
          yuan = abs div 100;
          rem = abs mod 100
      in (if negative then ''-'' else '''') @ string_of_nat (unat yuan) @ ''.'' @
         (if rem < 10 then ''0'' else '''') @ string_of_nat (unat rem))"

text \<open>
  The loop of \<open>yuanStringToFen\<close> over the characters after the sign, with its local variables
  \<open>yuan\<close>, \<open>frac\<close>, \<open>fracDigits\<close>, \<open>seenDot\<close> and \<open>seenDigit\<close>; \<open>None\<close> is an early
  \<open>return std::nullopt\<close>.
\<close>

fun yuan_loop :: "string \<Rightarrow> int64 \<Rightarrow> int64 \<Rightarrow> int \<Rightarrow> bool \<Rightarrow> bool \<Rightarrow> (int64 \<times> int64 \<times> int \<times> bool) option" where
  "yuan_loop [] yuan frac fracDigits seenDot seenDigit = Some (yuan, frac, fracDigits, seenDigit)"
| "yuan_loop (c # cs) yuan frac fracDigits seenDot seenDigit =
     (if c = CHR ''.'' then
        (if seenDot then None else yuan_loop cs yuan frac fracDigits True seenDigit)
      else if c < CHR ''0'' \<or> c > CHR ''9'' then None
      else
        (let d = of_char c - 48 in
         if \<not> seenDot then
           (if yuan > 100000000 then None
            else yuan_loop cs (yuan * 10 + d) frac fracDigits seenDot True)
         else
           (if fracDigits + 1 > 2 then None
            else yuan_loop cs yuan (frac * 10 + d) (fracDigits + 1) seenDot True)))"

definition yuanStringToFen :: "string \<Rightarrow> int64 option" where
  "yuanStringToFen raw =
     (if raw = [] \<or> length raw > 20 then None
      else
        (let signed = hd raw = CHR ''+'' \<or> hd raw = CHR ''-'';
             negative = (hd raw = CHR ''-'');
             rest = (if signed then tl raw else raw)
         in case yuan_loop rest 0 0 0 False False of
              None \<Rightarrow> None
            | Some (yuan, frac, fracDigits, seenDigit) \<Rightarrow>
                if \<not> seenDigit then None
                else
                  (let frac = (if fracDigits = 1 then frac * 10 else frac);
                       fen = yuan * 100 + frac
                   in Some (if negative then - fen else fen))))"

declare fen_abs_def [eval_simps] fenToYuanString_def [eval_simps] yuanStringToFen_def [eval_simps]
declare yuan_loop.simps(2) [simp del]
declare yuan_loop.simps [eval_simps]

section \<open>Printing\<close>

lemma unat_word_of_nonneg: "0 \<le> x \<Longrightarrow> x < 2 ^ 64 \<Longrightarrow> unat (word_of_int x :: uint64) = nat x"
  by (simp add: unat_eq_nat_uint word_of_int_inverse uint_word_of_int)

lemma fen_abs_word: "in_i64 fen \<Longrightarrow> fen_abs fen = word_of_int \<bar>fen\<bar>"
  by (auto simp: fen_abs_def in_i64_def)

lemma unat_fen_abs:
  assumes "in_i64 fen"
  shows "unat (fen_abs fen) = nat \<bar>fen\<bar>"
proof -
  from assms have "\<bar>fen\<bar> < 2 ^ 64" by (auto simp: in_i64_def)
  with assms show ?thesis
    unfolding fen_abs_word [OF assms] by (intro unat_word_of_nonneg) simp_all
qed

lemma two_digits:
  "r < 100 \<Longrightarrow> (if r < 10 then ''0'' else []) @ string_of_nat r = [digit_char (r div 10), digit_char (r mod 10)]"
  by (auto simp: string_of_nat.simps [of r] string_of_nat.simps [of "r div 10"] digit_char_def)

text \<open>The shape of every printed amount: optional sign, yuan, a dot and exactly two digits.\<close>

lemma fenToYuanString_shape:
  assumes "in_i64 fen"
  shows "fenToYuanString fen =
    (if fen < 0 then ''-'' else []) @ string_of_nat (nat \<bar>fen\<bar> div 100) @
    [CHR ''.'', digit_char (nat \<bar>fen\<bar> mod 100 div 10), digit_char (nat \<bar>fen\<bar> mod 10)]"
proof -
  have r: "unat (fen_abs fen mod 100) = nat \<bar>fen\<bar> mod 100"
    and q: "unat (fen_abs fen div 100) = nat \<bar>fen\<bar> div 100"
    by (simp_all add: unat_mod unat_div unat_fen_abs [OF assms])
  have lt: "fen_abs fen mod 100 < 10 \<longleftrightarrow> nat \<bar>fen\<bar> mod 100 < 10"
    by (simp add: word_less_nat_alt r)
  have "nat \<bar>fen\<bar> mod 100 mod 10 = nat \<bar>fen\<bar> mod 10"
    by (simp add: mod_mod_cancel)
  with two_digits [of "nat \<bar>fen\<bar> mod 100"] show ?thesis
    by (simp add: fenToYuanString_def Let_def q r lt)
qed

section \<open>Parsing\<close>

lemma is_digit_iff: "is_digit c \<longleftrightarrow> \<not> (c < CHR ''0'' \<or> c > CHR ''9'')"
  by (auto simp: is_digit_def less_char_def)

lemma is_digit_neqs [simp]:
  "is_digit c \<Longrightarrow> c \<noteq> CHR ''.''" "is_digit c \<Longrightarrow> c \<noteq> CHR ''+''" "is_digit c \<Longrightarrow> c \<noteq> CHR ''-''"
  "is_digit c \<Longrightarrow> c \<noteq> CHR '',''"
  by (auto simp: is_digit_def)

lemma digit_value_int: "is_digit c \<Longrightarrow> (of_char c :: int) - 48 = int (of_char c - 48)"
  by (simp add: is_digit_def of_nat_diff of_nat_of_char [symmetric, where ?'a = int])

lemma yuan_loop_digit:
  "is_digit c \<Longrightarrow> yuan_loop (c # cs) yuan frac fd dot dig =
     (if \<not> dot then
        (if yuan > 100000000 then None
         else yuan_loop cs (yuan * 10 + int (of_char c - 48)) frac fd dot True)
      else
        (if fd + 1 > 2 then None
         else yuan_loop cs yuan (frac * 10 + int (of_char c - 48)) (fd + 1) dot True))"
  by (simp add: yuan_loop.simps(2) digit_value_int Let_def)
     (auto simp: is_digit_iff)

lemma yuan_loop_dot:
  "yuan_loop (CHR ''.'' # cs) yuan frac fd dot dig =
     (if dot then None else yuan_loop cs yuan frac fd True dig)"
  by (simp add: yuan_loop.simps(2))

lemma yuan_loop_other:
  "c \<noteq> CHR ''.'' \<Longrightarrow> \<not> is_digit c \<Longrightarrow> yuan_loop (c # cs) yuan frac fd dot dig = None"
  by (auto simp: yuan_loop.simps(2) is_digit_iff)

lemmas yuan_loop_steps = yuan_loop_digit yuan_loop_dot yuan_loop_other

lemma digits_value_ge: "acc \<le> digits_value acc cs"
  by (induction acc cs rule: digits_value.induct) (auto intro: order_trans [rotated])

lemma digits_value_less: "list_all is_digit cs \<Longrightarrow> digits_value acc cs < (acc + 1) * 10 ^ length cs"
proof (induction acc cs rule: digits_value.induct)
  case (1 acc)
  then show ?case by simp
next
  case (2 acc c cs)
  then have "of_char c - 48 < (10::nat)" by (auto simp: is_digit_def)
  then have "(acc * 10 + (of_char c - 48) + 1) * 10 ^ length cs \<le> ((acc + 1) * 10) * 10 ^ length cs"
    by (intro mult_right_mono) simp_all
  with 2 show ?case by (simp add: algebra_simps)
qed

text \<open>
  The integer digits: the loop goes on exactly as long as the value stays at most
  \<open>1000000009\<close>, the largest value that the guard \<open>yuan > 100000000\<close> before each step lets through.
\<close>

lemma yuan_loop_integer_part:
  "list_all is_digit ip \<Longrightarrow> yuan_loop (ip @ rest) (int a) frac fd False dig =
     (if ip = [] then yuan_loop rest (int a) frac fd False dig
      else if digits_value a ip \<le> 1000000009 then
        yuan_loop rest (int (digits_value a ip)) frac fd False True
      else None)"
proof (induction ip arbitrary: a dig)
  case Nil
  then show ?case by simp
next
  case (Cons c cs)
  let ?b = "a * 10 + (of_char c - 48)"
  from Cons.prems have c: "is_digit c" and cs: "list_all is_digit cs" by simp_all
  show ?case
  proof (cases "a > 100000000")
    case True
    then have "\<not> digits_value ?b cs \<le> 1000000009" using digits_value_ge [of ?b cs] by simp
    with True c show ?thesis by (simp add: yuan_loop_digit)
  next
    case False
    with c have "?b \<le> 1000000009" by (auto simp: is_digit_def)
    moreover have "int a * 10 + int (of_char c - 48) = int ?b" by simp
    ultimately show ?thesis
      using False c Cons.IH [OF cs, of ?b True] by (simp add: yuan_loop_digit)
  qed
qed

lemma yuan_loop_fraction:
  "list_all is_digit ds \<Longrightarrow> length ds \<le> 2 \<Longrightarrow> yuan_loop ds yuan 0 0 True dig =
     Some (yuan, int (digits_value 0 ds), int (length ds), dig \<or> ds \<noteq> [])"
  by (auto simp: numeral_2_eq_2 le_Suc_eq length_Suc_conv yuan_loop_digit)

text \<open>Whatever the loop accepts is a digit string, optionally followed by a dot and few digits.\<close>

definition amount_body :: "string \<Rightarrow> string \<Rightarrow> string \<Rightarrow> bool" where
  "amount_body cs ip ds \<longleftrightarrow>
     (cs = ip \<and> ds = [] \<or> cs = ip @ CHR ''.'' # ds) \<and> list_all is_digit ip \<and> list_all is_digit ds"

lemma yuan_loop_after_dot:
  "yuan_loop cs yuan frac fd True dig = Some r \<Longrightarrow>
     list_all is_digit cs \<and> (cs \<noteq> [] \<longrightarrow> fd + int (length cs) \<le> 2)"
proof (induction cs arbitrary: frac fd dig)
  case Nil
  then show ?case by simp
next
  case (Cons c cs)
  then have c: "is_digit c" and step: "yuan_loop cs yuan (frac * 10 + int (of_char c - 48)) (fd + 1) True True = Some r"
    and "fd + 1 \<le> 2"
    by (cases "is_digit c"; cases "c = CHR ''.''"; auto simp: yuan_loop_steps split: if_splits)+
  with Cons.IH [OF step] show ?case by auto
qed

lemma yuan_loop_body:
  "yuan_loop cs yuan frac 0 False dig = Some r \<Longrightarrow> \<exists>ip ds. amount_body cs ip ds \<and> length ds \<le> 2"
proof (induction cs arbitrary: yuan dig)
  case Nil
  then show ?case by (auto simp: amount_body_def)
next
  case (Cons c cs)
  consider (dot) "c = CHR ''.''" | (dig) "is_digit c" | (other) "c \<noteq> CHR ''.''" "\<not> is_digit c"
    by blast
  then show ?case
  proof cases
    case dot
    with Cons.prems have "yuan_loop cs yuan frac 0 True dig = Some r" by (simp add: yuan_loop_dot)
    from yuan_loop_after_dot [OF this] dot have "amount_body (c # cs) [] cs \<and> length cs \<le> 2"
      by (cases "cs = []") (auto simp: amount_body_def)
    then show ?thesis by blast
  next
    case dig
    with Cons.prems obtain y where "yuan_loop cs y frac 0 False True = Some r"
      by (auto simp: yuan_loop_digit split: if_splits)
    from Cons.IH [OF this] obtain ip ds where "amount_body cs ip ds" "length ds \<le> 2" by blast
    with dig have "amount_body (c # cs) (c # ip) ds" by (auto simp: amount_body_def)
    with \<open>length ds \<le> 2\<close> show ?thesis by blast
  next
    case other
    with Cons.prems show ?thesis by (simp add: yuan_loop_other)
  qed
qed

text \<open>The loop on a well-formed body: the value of both parts, or rejection by range.\<close>

lemma yuan_loop_value:
  assumes "amount_body cs ip ds" and "length ds \<le> 2"
  shows "yuan_loop cs 0 0 0 False False =
    (if digits_value 0 ip \<le> 1000000009
     then Some (int (digits_value 0 ip), int (digits_value 0 ds), int (length ds), ip \<noteq> [] \<or> ds \<noteq> [])
     else None)"
proof -
  from assms(1) have ip: "list_all is_digit ip" and ds: "list_all is_digit ds"
    and cs: "cs = ip \<and> ds = [] \<or> cs = ip @ CHR ''.'' # ds"
    by (auto simp: amount_body_def)
  from cs show ?thesis
  proof
    assume "cs = ip \<and> ds = []"
    with yuan_loop_integer_part [OF ip, of "[]" 0] show ?thesis by auto
  next
    assume "cs = ip @ CHR ''.'' # ds"
    with yuan_loop_integer_part [OF ip, of "CHR ''.'' # ds" 0] yuan_loop_fraction [OF ds assms(2)]
    show ?thesis by (auto simp: yuan_loop_dot)
  qed
qed

text \<open>The fraction in fen: one digit counts tenths of a yuan.\<close>

definition frac_fen :: "string \<Rightarrow> nat" where
  "frac_fen ds = digits_value 0 ds * (if length ds = 1 then 10 else 1)"

lemma frac_fen_less:
  assumes "list_all is_digit ds" and "length ds \<le> 2"
  shows "frac_fen ds < 100"
proof -
  from assms(2) consider "length ds = 0" | "length ds = 1" | "length ds = 2" by linarith
  then show ?thesis
    using digits_value_less [OF assms(1), of 0] by cases (auto simp: frac_fen_def)
qed

definition split_sign :: "string \<Rightarrow> bool \<times> string" where
  "split_sign raw = (if raw \<noteq> [] \<and> (hd raw = CHR ''+'' \<or> hd raw = CHR ''-'')
     then (hd raw = CHR ''-'', tl raw) else (False, raw))"

text \<open>
  The exact contract of the parser. An amount is accepted iff it has at most twenty characters and
  is an optional sign, digits, and optionally a dot with at most two digits, with at least one
  digit, whose yuan value is at most 1000000009; the result is its exact value in fen.
\<close>

lemma yuanStringToFen_parts:
  assumes "length raw \<le> 20" and "split_sign raw = (neg, cs)" and "amount_body cs ip ds" and "length ds \<le> 2"
  shows "yuanStringToFen raw =
    (if (ip \<noteq> [] \<or> ds \<noteq> []) \<and> digits_value 0 ip \<le> 1000000009
     then Some ((if neg then - 1 else 1) * int (digits_value 0 ip * 100 + frac_fen ds))
     else None)"
proof (cases "raw = []")
  case True
  with assms(2,3) show ?thesis by (auto simp: split_sign_def amount_body_def yuanStringToFen_def)
next
  case False
  let ?p = "(if hd raw = CHR ''+'' \<or> hd raw = CHR ''-'' then tl raw else raw)"
  from False assms(2) have p: "?p = cs" and n: "(hd raw = CHR ''-'') = neg"
    by (auto simp: split_sign_def split: if_splits)
  have "yuan_loop ?p 0 0 0 False False = yuan_loop cs 0 0 0 False False" by (simp only: p)
  then show ?thesis
    unfolding yuanStringToFen_def Let_def
    using False assms(1) yuan_loop_value [OF assms(3,4)] n
    by (auto simp: frac_fen_def)
qed

lemma yuanStringToFen_SomeD:
  assumes "yuanStringToFen raw = Some f"
  obtains neg cs ip ds where "length raw \<le> 20" "split_sign raw = (neg, cs)" "amount_body cs ip ds"
    "length ds \<le> 2"
proof -
  from assms have raw: "raw \<noteq> []" "length raw \<le> 20" by (auto simp: yuanStringToFen_def split: if_splits)
  let ?p = "(if hd raw = CHR ''+'' \<or> hd raw = CHR ''-'' then tl raw else raw)"
  from assms obtain r where r: "yuan_loop ?p 0 0 0 False False = Some r"
    by (auto simp: yuanStringToFen_def Let_def split: if_splits option.splits)
  have "split_sign raw = (raw \<noteq> [] \<and> hd raw = CHR ''-'', ?p)" by (auto simp: split_sign_def raw)
  with yuan_loop_body [OF r] raw that show thesis by blast
qed

lemma yuanStringToFen_bound:
  assumes some: "yuanStringToFen raw = Some f"
  shows "\<bar>f\<bar> \<le> 100000000999"
proof -
  from yuanStringToFen_SomeD [OF some] obtain neg cs ip ds where
    p: "length raw \<le> 20" "split_sign raw = (neg, cs)" "amount_body cs ip ds" "length ds \<le> 2"
    by metis
  from p(3,4) have "frac_fen ds < 100" by (intro frac_fen_less) (auto simp: amount_body_def)
  with some show ?thesis
    unfolding yuanStringToFen_parts [OF p] by (auto split: if_splits)
qed

lemma yuanStringToFen_in_i64: "yuanStringToFen raw = Some f \<Longrightarrow> in_i64 f"
  using yuanStringToFen_bound [of raw f] by (intro in_i64I) simp

lemma list_all_string_of_nat [simp]: "list_all is_digit (string_of_nat n)"
  by (auto simp: list_all_iff string_of_nat_digits)

lemma split_sign_printed:
  assumes "in_i64 fen"
  shows "split_sign (fenToYuanString fen) =
    (fen < 0, string_of_nat (nat \<bar>fen\<bar> div 100) @
       [CHR ''.'', digit_char (nat \<bar>fen\<bar> mod 100 div 10), digit_char (nat \<bar>fen\<bar> mod 10)])"
proof -
  have "is_digit (hd (string_of_nat (nat \<bar>fen\<bar> div 100)))"
    by (rule string_of_nat_digits) (rule hd_in_set, simp)
  then show ?thesis
    by (auto simp: fenToYuanString_shape [OF assms] split_sign_def is_digit_def)
qed

lemma length_fenToYuanString:
  assumes "in_i64 fen" and "\<bar>fen\<bar> < 10 ^ 18"
  shows "length (fenToYuanString fen) \<le> 20"
proof -
  from assms(2) have "nat \<bar>fen\<bar> div 100 < 10 ^ 16" by simp
  from length_string_of_nat [OF this] show ?thesis by (auto simp: fenToYuanString_shape [OF assms(1)])
qed

text \<open>
  The texts the parser is for: at most twenty characters, an optional sign, decimal digits and an
  optional dot with at most two digits, at least one digit in all; and the amount they denote in fen.
\<close>

definition amount_text :: "string \<Rightarrow> bool \<Rightarrow> string \<Rightarrow> string \<Rightarrow> bool" where
  "amount_text raw neg ip ds \<longleftrightarrow>
     length raw \<le> 20 \<and> (\<exists>cs. split_sign raw = (neg, cs) \<and> amount_body cs ip ds) \<and> length ds \<le> 2 \<and> ip @ ds \<noteq> []"

definition amount_fen :: "bool \<Rightarrow> string \<Rightarrow> string \<Rightarrow> int" where
  "amount_fen neg ip ds = (if neg then - 1 else 1) * int (digits_value 0 ip * 100 + frac_fen ds)"

lemma yuanStringToFen_exact:
  "yuanStringToFen raw = Some f \<longleftrightarrow>
     (\<exists>neg ip ds. amount_text raw neg ip ds \<and> digits_value 0 ip \<le> 1000000009 \<and> f = amount_fen neg ip ds)"
  (is "?lhs \<longleftrightarrow> ?rhs")
proof
  assume some: ?lhs
  from yuanStringToFen_SomeD [OF some] obtain neg cs ip ds where
    p: "length raw \<le> 20" "split_sign raw = (neg, cs)" "amount_body cs ip ds" "length ds \<le> 2"
    by metis
  with some yuanStringToFen_parts [OF p]
  have "amount_text raw neg ip ds \<and> digits_value 0 ip \<le> 1000000009 \<and> f = amount_fen neg ip ds"
    by (simp add: amount_text_def amount_fen_def split: if_splits)
  then show ?rhs by blast
next
  assume ?rhs
  then show ?lhs by (auto simp: yuanStringToFen_parts amount_text_def amount_fen_def)
qed

lemma yuanStringToFen_text:
  assumes "amount_text raw neg ip ds"
  shows "yuanStringToFen raw = (if digits_value 0 ip \<le> 1000000009 then Some (amount_fen neg ip ds) else None)"
  using assms by (auto simp: yuanStringToFen_parts amount_text_def amount_fen_def)

lemma amount_text_frac: "amount_text raw neg ip ds \<Longrightarrow> frac_fen ds < 100"
  by (rule frac_fen_less) (auto simp: amount_text_def amount_body_def)

lemma yuanStringToFen_printed:
  assumes "in_i64 fen"
  shows "yuanStringToFen (fenToYuanString fen) = (if \<bar>fen\<bar> \<le> 100000000999 then Some fen else None)"
proof (cases "length (fenToYuanString fen) \<le> 20")
  case False
  with length_fenToYuanString [OF assms] have "\<not> \<bar>fen\<bar> \<le> 100000000999" by auto
  with False show ?thesis by (auto simp: yuanStringToFen_def)
next
  case True
  let ?n = "nat \<bar>fen\<bar>" and ?ds = "[digit_char (nat \<bar>fen\<bar> mod 100 div 10), digit_char (nat \<bar>fen\<bar> mod 10)]"
  have body: "amount_body (string_of_nat (?n div 100) @ CHR ''.'' # ?ds) (string_of_nat (?n div 100)) ?ds"
    by (simp add: amount_body_def less_mult_imp_div_less)
  have "frac_fen ?ds = ?n mod 100 div 10 * 10 + ?n mod 10"
    by (simp add: frac_fen_def less_mult_imp_div_less)
  also have "\<dots> = ?n mod 100" by (simp add: mod_mod_cancel [of 10 100 ?n, symmetric])
  finally have "digits_value 0 (string_of_nat (?n div 100)) * 100 + frac_fen ?ds = ?n" by simp
  moreover have "?n div 100 \<le> 1000000009 \<longleftrightarrow> \<bar>fen\<bar> \<le> 100000000999" by linarith
  ultimately show ?thesis
    using yuanStringToFen_parts [OF True split_sign_printed [OF assms] body] by auto
qed

section \<open>Properties\<close>

text \<open>
  C37: the parser's contract. A well-formed text whose amount is at most one billion yuan in absolute
  value is read as exactly that amount in fen; a text that is not well-formed (empty, garbage, two
  dots, three decimals, more than twenty characters) is rejected, and so is every amount from
  1000000010 yuan up; and no text at all is read as another amount than it denotes. (Between the
  documented limit of one billion yuan and 1000000010 yuan the code does not reject:
  \<open>yuanStringToFen_above_limit\<close>.)
\<close>

theorem yuanStringToFen_contract:
  "(amount_text raw neg ip ds \<and> \<bar>amount_fen neg ip ds\<bar> \<le> 100000000000 \<longrightarrow> yuanStringToFen raw = Some (amount_fen neg ip ds)) \<and>
   (\<not> (\<exists>neg ip ds. amount_text raw neg ip ds) \<longrightarrow> yuanStringToFen raw = None) \<and>
   (amount_text raw neg ip ds \<and> 100000001000 \<le> \<bar>amount_fen neg ip ds\<bar> \<longrightarrow> yuanStringToFen raw = None) \<and>
   (amount_text raw neg ip ds \<and> yuanStringToFen raw = Some f \<longrightarrow> f = amount_fen neg ip ds)"
proof (intro conjI impI; (elim conjE)?)
  assume a: "amount_text raw neg ip ds" and "\<bar>amount_fen neg ip ds\<bar> \<le> 100000000000"
  then have "digits_value 0 ip \<le> 1000000009" by (auto simp: amount_fen_def split: if_splits)
  with a show "yuanStringToFen raw = Some (amount_fen neg ip ds)" by (simp add: yuanStringToFen_text)
next
  assume "\<not> (\<exists>neg ip ds. amount_text raw neg ip ds)"
  then show "yuanStringToFen raw = None" using yuanStringToFen_exact [of raw] by (metis option.exhaust)
next
  assume a: "amount_text raw neg ip ds" and "100000001000 \<le> \<bar>amount_fen neg ip ds\<bar>"
  then have "\<not> digits_value 0 ip \<le> 1000000009" using amount_text_frac [OF a] by (auto simp: amount_fen_def split: if_splits)
  with a show "yuanStringToFen raw = None" by (simp add: yuanStringToFen_text)
next
  assume "amount_text raw neg ip ds" and "yuanStringToFen raw = Some f"
  then show "f = amount_fen neg ip ds" by (simp add: yuanStringToFen_text split: if_splits)
qed

lemma demo_amount_text: "amount_text ''-12.5'' True ''12'' ''5''"
  by (auto simp: amount_text_def split_sign_def amount_body_def is_digit_def)

theorem yuanStringToFen_contract_witness:
  "amount_text ''-12.5'' True ''12'' ''5'' \<and> yuanStringToFen ''-12.5'' = Some (- 1250)"
proof -
  have v: "amount_fen True ''12'' ''5'' = - 1250" by code_simp
  then have "\<bar>amount_fen True ''12'' ''5''\<bar> \<le> 100000000000" by simp
  with demo_amount_text have "yuanStringToFen ''-12.5'' = Some (amount_fen True ''12'' ''5'')"
    using yuanStringToFen_contract [THEN conjunct1] by blast
  with v demo_amount_text show ?thesis by (simp only: simp_thms)
qed

text \<open>Above the documented limit.\<close>

lemma yuanStringToFen_above_limit: "yuanStringToFen ''1000000000.01'' = Some 100000000001"
  by code_simp

text \<open>
  C38: the round trip of an amount. Every amount of at most one billion yuan in absolute value,
  printed by \<open>fenToYuanString\<close>, is read back by \<open>yuanStringToFen\<close> as the same amount; for every
  \<open>int64_t\<close> amount the parser returns the printed amount or nothing, never another amount, and from
  1000000010 yuan up it returns nothing.
\<close>

theorem fen_yuan_round_trip:
  "(\<bar>fen\<bar> \<le> 100000000000 \<longrightarrow> yuanStringToFen (fenToYuanString fen) = Some fen) \<and>
   (in_i64 fen \<longrightarrow> yuanStringToFen (fenToYuanString fen) \<in> {Some fen, None}) \<and>
   (in_i64 fen \<and> 100000001000 \<le> \<bar>fen\<bar> \<longrightarrow> yuanStringToFen (fenToYuanString fen) = None)"
proof -
  have "\<bar>fen\<bar> \<le> 100000000000 \<Longrightarrow> in_i64 fen" by (rule in_i64I) simp
  then show ?thesis by (auto simp: yuanStringToFen_printed)
qed

theorem fen_yuan_round_trip_witness:
  "\<bar>- 1250 :: int\<bar> \<le> 100000000000 \<and> in_i64 (- 1250) \<and> yuanStringToFen (fenToYuanString (- 1250)) = Some (- 1250)"
proof -
  have h: "in_i64 (- 1250)" by (simp add: in_i64_def)
  then show ?thesis using fen_yuan_round_trip [of "- 1250"] by simp
qed

end
