(* ===== verification/Models.thy ===== *)
theory Models
  imports Json MoneyUtil
begin

text \<open>
  \<^verbatim>\<open>src/models/*.h\<close>: the structures that the layers exchange, with the conversions to JSON. Amounts
  are fen (\<open>int64_t\<close>), user and product identifiers \<open>uint64_t\<close>. An enumeration that is read back
  from a database column by \<^verbatim>\<open>static_cast\<close> can hold any column value, which the last constructor
  stands for.
\<close>

section \<open>Product.h\<close>

record Product =
  prd_id :: uint64
  prd_productNo :: string
  prd_name :: string
  prd_priceFen :: int64
  prd_stock :: int64
  prd_status :: int

definition Product_onSale :: "Product \<Rightarrow> bool" where
  "Product_onSale p \<longleftrightarrow> prd_status p = 1"

definition Product_toJson :: "Product \<Rightarrow> json" where
  "Product_toJson p =
     jset ''status'' (JInt (prd_status p))
       (jset ''stock'' (JInt (prd_stock p))
         (jset ''price'' (JString (fenToYuanString (prd_priceFen p)))
           (jset ''name'' (JString (prd_name p))
             (jset ''productNo'' (JString (prd_productNo p))
               (jset ''productId'' (JUInt (uint (prd_id p))) JNull)))))"

section \<open>Order.h\<close>

datatype OrderStatus =
    OrderStatus_kPendingPayment | OrderStatus_kPaid | OrderStatus_kCompleted
  | OrderStatus_kCancelled | OrderStatus_kRefunded | OrderStatus_other int

fun OrderStatus_int :: "OrderStatus \<Rightarrow> int" where
  "OrderStatus_int OrderStatus_kPendingPayment = 0"
| "OrderStatus_int OrderStatus_kPaid = 1"
| "OrderStatus_int OrderStatus_kCompleted = 2"
| "OrderStatus_int OrderStatus_kCancelled = 3"
| "OrderStatus_int OrderStatus_kRefunded = 4"
| "OrderStatus_int (OrderStatus_other i) = i"

definition OrderStatus_cast :: "int \<Rightarrow> OrderStatus" where
  "OrderStatus_cast i =
     (if i = 0 then OrderStatus_kPendingPayment else if i = 1 then OrderStatus_kPaid
      else if i = 2 then OrderStatus_kCompleted else if i = 3 then OrderStatus_kCancelled
      else if i = 4 then OrderStatus_kRefunded else OrderStatus_other i)"

lemma OrderStatus_int_cast [simp]: "OrderStatus_int (OrderStatus_cast i) = i"
  by (simp add: OrderStatus_cast_def)

record Order =
  ord_orderNo :: string
  ord_requestId :: string
  ord_userId :: uint64
  ord_productId :: uint64
  ord_quantity :: int64
  ord_unitPriceFen :: int64
  ord_totalAmountFen :: int64
  ord_status :: OrderStatus
  ord_expireTime :: string
  ord_paidAt :: string

definition Order_toJson :: "Order \<Rightarrow> json" where
  "Order_toJson ord =
     jset ''expireTime'' (JString (ord_expireTime ord))
       (jset ''status'' (JInt (OrderStatus_int (ord_status ord)))
         (jset ''totalAmount'' (JString (fenToYuanString (ord_totalAmountFen ord)))
           (jset ''unitPrice'' (JString (fenToYuanString (ord_unitPriceFen ord)))
             (jset ''quantity'' (JInt (ord_quantity ord))
               (jset ''productId'' (JUInt (uint (ord_productId ord)))
                 (jset ''userId'' (JUInt (uint (ord_userId ord)))
                   (jset ''orderNo'' (JString (ord_orderNo ord)) JNull)))))))"

record CreateOrderReq =
  cor_requestId :: string
  cor_requestHash :: string
  cor_userId :: uint64
  cor_productId :: uint64
  cor_quantity :: int64

section \<open>Payment.h\<close>

datatype PaymentStatus =
  PaymentStatus_kPending | PaymentStatus_kSuccess | PaymentStatus_kFailed | PaymentStatus_other int

definition PaymentStatus_cast :: "int \<Rightarrow> PaymentStatus" where
  "PaymentStatus_cast i =
     (if i = 0 then PaymentStatus_kPending else if i = 1 then PaymentStatus_kSuccess
      else if i = 2 then PaymentStatus_kFailed else PaymentStatus_other i)"

record Payment =
  pay_paymentNo :: string
  pay_orderNo :: string
  pay_channel :: string
  pay_channelTradeNo :: string
  pay_amountFen :: int64
  pay_status :: PaymentStatus
  pay_callbackTime :: string
  pay_rawBody :: string

record PaymentCallbackReq =
  pcr_requestId :: string
  pcr_orderNo :: string
  pcr_channel :: string
  pcr_channelTradeNo :: string
  pcr_amount :: string
  pcr_timestamp :: string
  pcr_sign :: string

section \<open>Account.h\<close>

record Account =
  acc_accountNo :: string
  acc_userId :: uint64
  acc_balanceFen :: int64
  acc_frozenAmountFen :: int64
  acc_status :: int

datatype FlowBizType = kRecharge | kPayment | kRefund | kFreeze | kUnfreeze

primrec FlowBizType_int :: "FlowBizType \<Rightarrow> int" where
  "FlowBizType_int kRecharge = 1"
| "FlowBizType_int kPayment = 2"
| "FlowBizType_int kRefund = 3"
| "FlowBizType_int kFreeze = 4"
| "FlowBizType_int kUnfreeze = 5"

datatype FlowDirection = kIn | kOut

primrec FlowDirection_int :: "FlowDirection \<Rightarrow> int" where
  "FlowDirection_int kIn = 1"
| "FlowDirection_int kOut = 2"

record AccountFlow =
  flw_accountNo :: string
  flw_bizType :: FlowBizType
  flw_direction :: FlowDirection
  flw_amountFen :: int64
  flw_beforeFen :: int64
  flw_afterFen :: int64
  flw_orderNo :: string
  flw_requestId :: string

section \<open>Idempotent.h and LocalMessage.h\<close>

record Idempotent =
  idm_requestId :: string
  idm_userId :: uint64
  idm_apiPath :: string
  idm_requestHash :: string
  idm_expireTime :: string

text \<open>
  \<open>scanPending\<close> fills the identifying fields and \<open>retryCount\<close>; \<open>status\<close> and \<open>nextRetryTime\<close> of a
  message live in the table only.
\<close>

record LocalMessage =
  msg_messageId :: string
  msg_bizType :: string
  msg_bizId :: string
  msg_exchange :: string
  msg_routingKey :: string
  msg_payload :: string
  msg_retryCount :: int

section \<open>Reconcile.h\<close>

datatype ReconcileDiffType = kLocalOnly | kChannelOnly | kDiffAmountMismatch | kDiffType_other int

fun ReconcileDiffType_int :: "ReconcileDiffType \<Rightarrow> int" where
  "ReconcileDiffType_int kLocalOnly = 1"
| "ReconcileDiffType_int kChannelOnly = 2"
| "ReconcileDiffType_int kDiffAmountMismatch = 3"
| "ReconcileDiffType_int (kDiffType_other i) = i"

definition ReconcileDiffType_cast :: "int \<Rightarrow> ReconcileDiffType" where
  "ReconcileDiffType_cast i =
     (if i = 1 then kLocalOnly else if i = 2 then kChannelOnly
      else if i = 3 then kDiffAmountMismatch else kDiffType_other i)"

lemma ReconcileDiffType_int_cast [simp]: "ReconcileDiffType_int (ReconcileDiffType_cast i) = i"
  by (simp add: ReconcileDiffType_cast_def)

record ReconcileSideRow =
  srow_channelTradeNo :: string
  srow_orderNo :: string
  srow_amountFen :: int64

datatype HandleStatus =
  HandleStatus_kPending | HandleStatus_kVerified | HandleStatus_kIgnored | HandleStatus_other int

fun HandleStatus_int :: "HandleStatus \<Rightarrow> int" where
  "HandleStatus_int HandleStatus_kPending = 0"
| "HandleStatus_int HandleStatus_kVerified = 1"
| "HandleStatus_int HandleStatus_kIgnored = 2"
| "HandleStatus_int (HandleStatus_other i) = i"

definition HandleStatus_cast :: "int \<Rightarrow> HandleStatus" where
  "HandleStatus_cast i =
     (if i = 0 then HandleStatus_kPending else if i = 1 then HandleStatus_kVerified
      else if i = 2 then HandleStatus_kIgnored else HandleStatus_other i)"

lemma HandleStatus_int_cast [simp]: "HandleStatus_int (HandleStatus_cast i) = i"
  by (simp add: HandleStatus_cast_def)

record ReconcileDiff =
  rdf_batchNo :: string
  rdf_orderNo :: string
  rdf_channelTradeNo :: string
  rdf_localAmountFen :: int64
  rdf_channelAmountFen :: int64
  rdf_diffType :: ReconcileDiffType
  rdf_diffAmountFen :: int64
  rdf_handleStatus :: HandleStatus
  rdf_handleRemark :: string
  rdf_handledAt :: string

definition ReconcileDiff_toJson :: "ReconcileDiff \<Rightarrow> json" where
  "ReconcileDiff_toJson d =
     jset ''handledAt'' (JString (rdf_handledAt d))
       (jset ''handleRemark'' (JString (rdf_handleRemark d))
         (jset ''handleStatus'' (JInt (HandleStatus_int (rdf_handleStatus d)))
           (jset ''diffAmount'' (JString (fenToYuanString (rdf_diffAmountFen d)))
             (jset ''diffType'' (JInt (ReconcileDiffType_int (rdf_diffType d)))
               (jset ''channelAmount'' (JString (fenToYuanString (rdf_channelAmountFen d)))
                 (jset ''localAmount'' (JString (fenToYuanString (rdf_localAmountFen d)))
                   (jset ''channelTradeNo'' (JString (rdf_channelTradeNo d))
                     (jset ''orderNo'' (JString (rdf_orderNo d))
                       (jset ''batchNo'' (JString (rdf_batchNo d)) JNull)))))))))"

datatype BatchStatus = kBatchProcessing | kBalanced | kHasDiff | kBatchFailed

primrec BatchStatus_int :: "BatchStatus \<Rightarrow> int" where
  "BatchStatus_int kBatchProcessing = 0"
| "BatchStatus_int kBalanced = 1"
| "BatchStatus_int kHasDiff = 2"
| "BatchStatus_int kBatchFailed = 3"

record ReconcileBatch =
  rbt_batchNo :: string
  rbt_billDate :: string
  rbt_channel :: string
  rbt_totalCount :: int64
  rbt_totalAmountFen :: int64
  rbt_channelCount :: int64
  rbt_channelAmountFen :: int64
  rbt_diffCount :: int64
  rbt_status :: BatchStatus

definition ReconcileBatch_toJson :: "ReconcileBatch \<Rightarrow> json" where
  "ReconcileBatch_toJson b =
     jset ''status'' (JInt (BatchStatus_int (rbt_status b)))
       (jset ''diffCount'' (JInt (rbt_diffCount b))
         (jset ''channelAmount'' (JString (fenToYuanString (rbt_channelAmountFen b)))
           (jset ''channelCount'' (JInt (rbt_channelCount b))
             (jset ''totalAmount'' (JString (fenToYuanString (rbt_totalAmountFen b)))
               (jset ''totalCount'' (JInt (rbt_totalCount b))
                 (jset ''channel'' (JString (rbt_channel b))
                   (jset ''billDate'' (JString (rbt_billDate b))
                     (jset ''batchNo'' (JString (rbt_batchNo b)) JNull))))))))"

declare Product_onSale_def [eval_simps] Product_toJson_def [eval_simps] Order_toJson_def [eval_simps]
  OrderStatus_cast_def [eval_simps] PaymentStatus_cast_def [eval_simps] ReconcileDiffType_cast_def [eval_simps]
  HandleStatus_cast_def [eval_simps] ReconcileDiff_toJson_def [eval_simps] ReconcileBatch_toJson_def [eval_simps]

end
