(* ===== verification/Database.thy ===== *)
theory Database
  imports Env Models
begin

text \<open>
  The database as the program sees it: the ten tables of \<^verbatim>\<open>sql/schema.sql\<close> (with the columns the
  program reads or writes), SQL statements as functions on them, and
  \<^verbatim>\<open>src/utils/DbUtil.h\<close>/\<^verbatim>\<open>DbUtil.cc\<close>: \<open>beginTransaction\<close> and the RAII class \<open>TransactionGuard\<close>.

  A table is the list of its rows in the order of their primary key. Statements of a transaction
  work on the transaction's own view \<open>w_tx\<close>; \<open>commit\<close> publishes it as \<open>w_db\<close>, the committed
  tables, and leaving the guard's scope without a commit drops it. Statements outside a transaction
  work on the committed tables at once. Here transactions are executed one after the other; their
  statements interleave in the theory \<open>Interleaving\<close>.
\<close>

section \<open>Tables\<close>

record product_row =
  tp_id :: int
  tp_product_no :: string
  tp_name :: string
  tp_price :: int
  tp_stock :: int
  tp_version :: int
  tp_status :: int

record order_row =
  to_order_no :: string
  to_request_id :: string
  to_user_id :: int
  to_product_id :: int
  to_quantity :: int
  to_unit_price :: int
  to_total_amount :: int
  to_status :: int
  to_expire_time :: int
  to_paid_at :: "int option"

record idempotent_row =
  ti_request_id :: string
  ti_user_id :: int
  ti_api_path :: string
  ti_request_hash :: string
  ti_response_body :: "string option"
  ti_status :: int
  ti_expire_time :: int

record account_row =
  ta_account_no :: string
  ta_user_id :: int
  ta_balance :: int
  ta_frozen_amount :: int
  ta_version :: int
  ta_status :: int

record flow_row =
  tf_account_no :: string
  tf_biz_type :: int
  tf_direction :: int
  tf_amount :: int
  tf_before_balance :: int
  tf_after_balance :: int
  tf_order_no :: string
  tf_request_id :: string

record payment_row =
  ty_payment_no :: string
  ty_order_no :: string
  ty_channel :: string
  ty_channel_trade_no :: string
  ty_amount :: int
  ty_status :: int
  ty_callback_time :: int
  ty_raw_body :: string

record message_row =
  tl_message_id :: string
  tl_biz_type :: string
  tl_biz_id :: string
  tl_exchange :: string
  tl_routing_key :: string
  tl_payload :: string
  tl_status :: int
  tl_retry_count :: int
  tl_next_retry_time :: int

record notify_row =
  tn_notify_no :: string
  tn_order_no :: string
  tn_target_url :: string
  tn_response_body :: "string option"
  tn_status :: int
  tn_retry_count :: int
  tn_message_id :: string

record batch_row =
  tb_batch_no :: string
  tb_bill_date :: int
  tb_channel :: string
  tb_total_count :: int
  tb_total_amount :: int
  tb_channel_count :: int
  tb_channel_amount :: int
  tb_diff_count :: int
  tb_status :: int

record diff_row =
  td_id :: int
  td_batch_no :: string
  td_order_no :: string
  td_channel_trade_no :: string
  td_local_amount :: int
  td_channel_amount :: int
  td_diff_type :: int
  td_diff_amount :: int
  td_handle_status :: int
  td_handle_remark :: "string option"
  td_handled_at :: "int option"

record db =
  t_product :: "product_row list"
  t_order :: "order_row list"
  t_idempotent :: "idempotent_row list"
  t_account :: "account_row list"
  t_account_flow :: "flow_row list"
  t_payment :: "payment_row list"
  t_local_message :: "message_row list"
  t_notify_record :: "notify_row list"
  t_reconcile_batch :: "batch_row list"
  t_reconcile_diff :: "diff_row list"

section \<open>Constraints of the schema\<close>

text \<open>
  The keys and CHECK constraints of \<^verbatim>\<open>sql/schema.sql\<close> on the columns of the model. Text columns are
  unique under the collation of their tables.
\<close>

definition product_ok :: "product_row list \<Rightarrow> bool" where
  "product_ok rows \<longleftrightarrow> distinct (map tp_id rows) \<and> list_all (\<lambda>r. 0 \<le> tp_stock r) rows"

definition order_ok :: "env \<Rightarrow> order_row list \<Rightarrow> bool" where
  "order_ok e rows \<longleftrightarrow>
     distinct (map (\<lambda>r. ckey e (to_order_no r)) rows) \<and> distinct (map (\<lambda>r. ckey e (to_request_id r)) rows) \<and>
     list_all (\<lambda>r. 0 < to_quantity r \<and> 0 \<le> to_total_amount r) rows"

definition idempotent_ok :: "env \<Rightarrow> idempotent_row list \<Rightarrow> bool" where
  "idempotent_ok e rows \<longleftrightarrow> distinct (map (\<lambda>r. ckey e (ti_request_id r)) rows)"

definition account_ok :: "env \<Rightarrow> account_row list \<Rightarrow> bool" where
  "account_ok e rows \<longleftrightarrow>
     distinct (map (\<lambda>r. ckey e (ta_account_no r)) rows) \<and> distinct (map ta_user_id rows) \<and>
     list_all (\<lambda>r. 0 \<le> ta_balance r) rows"

definition flow_ok :: "env \<Rightarrow> flow_row list \<Rightarrow> bool" where
  "flow_ok e rows \<longleftrightarrow>
     distinct (map (\<lambda>r. (ckey e (tf_request_id r), tf_biz_type r)) rows) \<and> list_all (\<lambda>r. 0 < tf_amount r) rows"

definition payment_ok :: "env \<Rightarrow> payment_row list \<Rightarrow> bool" where
  "payment_ok e rows \<longleftrightarrow>
     distinct (map (\<lambda>r. ckey e (ty_payment_no r)) rows) \<and>
     distinct (map (\<lambda>r. (ckey e (ty_channel r), ckey e (ty_channel_trade_no r))) rows)"

definition message_ok :: "env \<Rightarrow> message_row list \<Rightarrow> bool" where
  "message_ok e rows \<longleftrightarrow> distinct (map (\<lambda>r. ckey e (tl_message_id r)) rows)"

definition notify_ok :: "env \<Rightarrow> notify_row list \<Rightarrow> bool" where
  "notify_ok e rows \<longleftrightarrow>
     distinct (map (\<lambda>r. ckey e (tn_notify_no r)) rows) \<and> distinct (map (\<lambda>r. ckey e (tn_message_id r)) rows)"

definition batch_ok :: "env \<Rightarrow> batch_row list \<Rightarrow> bool" where
  "batch_ok e rows \<longleftrightarrow>
     distinct (map (\<lambda>r. ckey e (tb_batch_no r)) rows) \<and>
     distinct (map (\<lambda>r. (tb_bill_date r, ckey e (tb_channel r))) rows)"

definition diff_ok :: "diff_row list \<Rightarrow> bool" where
  "diff_ok rows \<longleftrightarrow> distinct (map td_id rows)"

definition schema_ok :: "env \<Rightarrow> db \<Rightarrow> bool" where
  "schema_ok e d \<longleftrightarrow>
     product_ok (t_product d) \<and> order_ok e (t_order d) \<and> idempotent_ok e (t_idempotent d) \<and>
     account_ok e (t_account d) \<and> flow_ok e (t_account_flow d) \<and> payment_ok e (t_payment d) \<and>
     message_ok e (t_local_message d) \<and> notify_ok e (t_notify_record d) \<and>
     batch_ok e (t_reconcile_batch d) \<and> diff_ok (t_reconcile_diff d)"

lemmas table_ok_defs = product_ok_def order_ok_def idempotent_ok_def account_ok_def flow_ok_def
  payment_ok_def message_ok_def notify_ok_def batch_ok_def diff_ok_def

declare table_ok_defs [eval_simps] schema_ok_def [eval_simps]

section \<open>Statements\<close>

text \<open>String equality in SQL is equality under the collation of the tables.\<close>

definition sql_eq :: "env \<Rightarrow> string \<Rightarrow> string \<Rightarrow> bool" where
  "sql_eq e a b \<longleftrightarrow> ckey e a = ckey e b"

lemma sql_eq_refl [simp]: "sql_eq e a a"
  by (simp add: sql_eq_def)

lemma sql_eq_sym: "sql_eq e a b \<longleftrightarrow> sql_eq e b a"
  by (auto simp: sql_eq_def)

text \<open>
  \<open>UPDATE \<dots> SET \<dots> WHERE\<close>: the rows, and the number of rows changed. Every update of the program
  changes each row it matches, so this is the driver's \<open>affectedRows()\<close>.
\<close>

definition update_where :: "('r \<Rightarrow> bool) \<Rightarrow> ('r \<Rightarrow> 'r) \<Rightarrow> 'r list \<Rightarrow> 'r list \<times> nat" where
  "update_where P f rows = (map (\<lambda>r. if P r then f r else r) rows, length (filter P rows))"

text \<open>The first row of a SELECT, if any.\<close>

definition first_where :: "('r \<Rightarrow> bool) \<Rightarrow> 'r list \<Rightarrow> 'r option" where
  "first_where P rows = List.find P rows"

text \<open>
  \<open>CAST(? AS DECIMAL(18,2))\<close> of a bound text in the form \<open>fenToYuanString\<close> writes: sign, digits,
  a dot and two digits; the value is kept in fen.
\<close>

definition decimal_value :: "string \<Rightarrow> int" where
  "decimal_value s =
     (case split_sign s of (neg, cs) \<Rightarrow>
        (if neg then - 1 else 1) *
        int (digits_value 0 (takeWhile is_digit cs) * 100 + frac_fen (tl (dropWhile is_digit cs))))"

definition castDecimal :: "env \<Rightarrow> string \<Rightarrow> int" where
  "castDecimal e s = (if \<bar>decimal_value s\<bar> < 10 ^ 18 then decimal_value s else cast_oor e (decimal_value s))"

section \<open>State of the process\<close>

record world =
  w_db :: db \<comment> \<open>the committed tables\<close>
  w_tx :: db \<comment> \<open>the view of the open transaction\<close>
  w_finished :: bool \<comment> \<open>\<open>TransactionGuard::finished_\<close>\<close>
  w_gen :: idgen \<comment> \<open>globals of the identifier generator\<close>
  w_clk :: nat \<comment> \<open>clock readings so far\<close>
  w_sql :: nat \<comment> \<open>SQL statements so far\<close>

type_synonym 'a act = "(world, exn, 'a) eff"
type_synonym 'a stmt = "nat \<Rightarrow> db \<Rightarrow> (db \<times> 'a) option"

text \<open>
  \<open>execSqlSync\<close> inside a transaction and on the default client. A statement gets its number and the
  tables; \<open>None\<close> is a violated constraint, which the driver reports as an exception like a fault.
  Without a configured client the second form dereferences a null pointer and the process ends.
\<close>

definition execSqlSync_tx :: "env \<Rightarrow> 'a stmt \<Rightarrow> 'a act" where
  "execSqlSync_tx e st w =
     (if sql_fault e (w_sql w) then Some (Inl DrogonDbException, w\<lparr>w_sql := Suc (w_sql w)\<rparr>)
      else case st (w_sql w) (w_tx w) of
        None \<Rightarrow> Some (Inl DrogonDbException, w\<lparr>w_sql := Suc (w_sql w)\<rparr>)
      | Some (d, x) \<Rightarrow> Some (Inr x, w\<lparr>w_tx := d, w_sql := Suc (w_sql w)\<rparr>))"

definition execSqlSync_auto :: "env \<Rightarrow> 'a stmt \<Rightarrow> 'a act" where
  "execSqlSync_auto e st w =
     (if \<not> db_configured e then None
      else if sql_fault e (w_sql w) then Some (Inl DrogonDbException, w\<lparr>w_sql := Suc (w_sql w)\<rparr>)
      else case st (w_sql w) (w_db w) of
        None \<Rightarrow> Some (Inl DrogonDbException, w\<lparr>w_sql := Suc (w_sql w)\<rparr>)
      | Some (d, x) \<Rightarrow> Some (Inr x, w\<lparr>w_db := d, w_sql := Suc (w_sql w)\<rparr>))"

text \<open>A statement that only reads.\<close>

definition query :: "(db \<Rightarrow> 'a) \<Rightarrow> 'a stmt" where
  "query f n d = Some (d, f d)"

text \<open>Reading the clock and drawing an identifier.\<close>

definition now_ns :: "env \<Rightarrow> int act" where
  "now_ns e w = Some (Inr (clock_ns e (w_clk w)), w\<lparr>w_clk := Suc (w_clk w)\<rparr>)"

definition nextId :: "env \<Rightarrow> string act" where
  "nextId e w =
     (case IdGenerator_nextId (clock_ns e) (w_gen w, w_clk w) of
        None \<Rightarrow> None
      | Some (r, g, k) \<Rightarrow> Some (r, w\<lparr>w_gen := g, w_clk := k\<rparr>))"

section \<open>DbUtil: transactions\<close>

definition beginTransaction :: "env \<Rightarrow> bool act" where
  "beginTransaction e w =
     (if \<not> db_configured e then Some (Inl StdException, w)
      else case begin_tx e (w_sql w) of
        BeginOk \<Rightarrow> Some (Inr True, w\<lparr>w_tx := w_db w, w_sql := Suc (w_sql w)\<rparr>)
      | BeginNull \<Rightarrow> Some (Inr False, w\<lparr>w_sql := Suc (w_sql w)\<rparr>)
      | BeginThrows \<Rightarrow> Some (Inl DrogonDbException, w\<lparr>w_sql := Suc (w_sql w)\<rparr>))"

text \<open>The constructor refuses a null transaction.\<close>

definition TransactionGuard_ctor :: "bool \<Rightarrow> unit act" where
  "TransactionGuard_ctor tx w =
     (if \<not> tx then Some (Inl StdException, w) else Some (Inr (), w\<lparr>w_finished := False\<rparr>))"

text \<open>
  A COMMIT whose call reports a failure is taken as not performed, and the destructor rolls back. (A
  server may have performed it although the connection was lost before its answer; the program cannot
  tell the two apart and treats both as failures. That outcome is outside this model.)
\<close>

definition TransactionGuard_commit :: "env \<Rightarrow> unit act" where
  "TransactionGuard_commit e w =
     (if w_finished w then Some (Inl StdException, w)
      else if sql_fault e (w_sql w) then Some (Inl DrogonDbException, w\<lparr>w_sql := Suc (w_sql w)\<rparr>)
      else Some (Inr (), w\<lparr>w_db := w_tx w, w_finished := True, w_sql := Suc (w_sql w)\<rparr>))"

text \<open>The destructor rolls an unfinished transaction back; a fault there is swallowed.\<close>

definition TransactionGuard_dtor :: "world \<Rightarrow> world" where
  "TransactionGuard_dtor w = (if \<not> w_finished w then w\<lparr>w_tx := w_db w\<rparr> else w)"

text \<open>\<open>TransactionGuard txGuard(beginTransaction());\<close> and the rest of its scope.\<close>

definition with_guard :: "env \<Rightarrow> 'a act \<Rightarrow> 'a act" where
  "with_guard e body =
     bnd (beginTransaction e) (\<lambda>tx.
       bnd (TransactionGuard_ctor tx) (\<lambda>_. on_exit body TransactionGuard_dtor))"

lemmas db_act_defs = execSqlSync_tx_def execSqlSync_auto_def query_def now_ns_def nextId_def
  beginTransaction_def TransactionGuard_ctor_def TransactionGuard_commit_def TransactionGuard_dtor_def
  with_guard_def

declare sql_eq_def [eval_simps] update_where_def [eval_simps] first_where_def [eval_simps]
  decimal_value_def [eval_simps] castDecimal_def [eval_simps] db_act_defs [eval_simps]
  split_sign_def [eval_simps] frac_fen_def [eval_simps]

section \<open>Rows\<close>

lemma update_where_none:
  "(\<And>r. r \<in> set rows \<Longrightarrow> \<not> P r) \<Longrightarrow> update_where P f rows = (rows, 0)"
  by (induction rows) (auto simp: update_where_def)

lemma first_where_Some: "first_where P rows = Some r \<Longrightarrow> r \<in> set rows \<and> P r"
  by (auto simp: first_where_def find_Some_iff)

lemma first_where_None: "first_where P rows = None \<longleftrightarrow> (\<forall>r \<in> set rows. \<not> P r)"
  by (auto simp: first_where_def find_None_iff)

text \<open>An update keyed by a unique column changes at most the one row with that key.\<close>

lemma update_where_key:
  assumes "distinct (map key rows)" and "\<And>r. P r \<Longrightarrow> key r = k" and "first_where (\<lambda>r. key r = k) rows = Some r0"
  shows "update_where P f rows =
    (if P r0 then (map (\<lambda>r. if key r = k then f r else r) rows, 1) else (rows, 0))"
proof -
  from first_where_Some [OF assms(3)] have r0: "r0 \<in> set rows" "key r0 = k" by auto
  from assms(1) have inj: "inj_on key (set rows)" and d: "distinct rows" by (auto simp: distinct_map)
  have uniq: "r \<in> set rows \<Longrightarrow> key r = k \<Longrightarrow> r = r0" for r
    using inj_onD [OF inj, of r r0] r0 by simp
  show ?thesis
  proof (cases "P r0")
    case True
    have "filter P rows = filter (\<lambda>r. r = r0) rows"
      using True uniq assms(2) by (intro filter_cong) auto
    also have "length \<dots> = 1"
      using d r0(1) by (simp add: distinct_length_filter Int_absorb1 Collect_conv_if)
    finally have "length (filter P rows) = 1" .
    moreover have "map (\<lambda>r. if P r then f r else r) rows = map (\<lambda>r. if key r = k then f r else r) rows"
      using True uniq assms(2) by (intro map_cong) auto
    ultimately show ?thesis using True by (simp add: update_where_def)
  next
    case False
    with uniq assms(2) have "\<And>r. r \<in> set rows \<Longrightarrow> \<not> P r" by blast
    with False show ?thesis by (simp add: update_where_none)
  qed
qed

text \<open>The three facts that the data access theories use about updates by key.\<close>

lemma update_where_keyed:
  assumes "distinct (map key rows)" and "\<And>r. P r \<longleftrightarrow> key r = k \<and> Q r"
  shows "update_where P f rows =
    (case first_where (\<lambda>r. key r = k) rows of
       None \<Rightarrow> (rows, 0)
     | Some r \<Rightarrow> if Q r then (map (\<lambda>r. if key r = k then f r else r) rows, 1) else (rows, 0))"
proof (cases "first_where (\<lambda>r. key r = k) rows")
  case None
  with assms(2) have "\<And>r. r \<in> set rows \<Longrightarrow> \<not> P r" by (auto simp: first_where_None)
  with None show ?thesis by (simp add: update_where_none)
next
  case (Some r0)
  with update_where_key [OF assms(1) _ Some, of P f] assms(2) first_where_Some [OF Some] show ?thesis by simp
qed

lemma first_where_map_keyed:
  assumes "\<And>r. key (f r) = key r"
  shows "first_where (\<lambda>r. key r = k') (map (\<lambda>r. if key r = k then f r else r) rows) =
    map_option (\<lambda>r. if k' = k then f r else r) (first_where (\<lambda>r. key r = k') rows)"
proof -
  have "List.find (\<lambda>r. key r = k') (map (\<lambda>r. if key r = k then f r else r) rows) =
    map_option (\<lambda>r. if k' = k then f r else r) (List.find (\<lambda>r. key r = k') rows)"
    using assms by (induction rows) simp_all
  then show ?thesis by (simp add: first_where_def)
qed

lemma first_where_map_if:
  assumes "\<And>r. key (f r) = key r"
  shows "first_where (\<lambda>r. key r = k) (map (\<lambda>r. if P r then f r else r) rows) =
    map_option (\<lambda>r. if P r then f r else r) (first_where (\<lambda>r. key r = k) rows)"
proof -
  have "List.find (\<lambda>r. key r = k) (map (\<lambda>r. if P r then f r else r) rows) =
    map_option (\<lambda>r. if P r then f r else r) (List.find (\<lambda>r. key r = k) rows)"
    using assms by (induction rows) simp_all
  then show ?thesis by (simp add: first_where_def)
qed

lemma map_key_if:
  "(\<And>r. key (f r) = key r) \<Longrightarrow> map key (map (\<lambda>r. if P r then f r else r) rows) = map key rows"
  by simp

text \<open>A row found by a unique key is the row with that key.\<close>

lemma first_where_unique:
  assumes "distinct (map key rows)" and "r \<in> set rows" and "key r = k"
  shows "first_where (\<lambda>r. key r = k) rows = Some r"
proof (cases "first_where (\<lambda>r. key r = k) rows")
  case None
  with assms show ?thesis by (auto simp: first_where_None)
next
  case (Some r0)
  from first_where_Some [OF this] assms have "r0 = r" by (auto simp: distinct_map intro: inj_onD)
  with Some show ?thesis by simp
qed

lemma first_where_append:
  "first_where P (xs @ ys) = (case first_where P xs of None \<Rightarrow> first_where P ys | Some x \<Rightarrow> Some x)"
  unfolding first_where_def by (induction xs) auto

lemma first_where_single: "first_where P [x] = (if P x then Some x else None)"
  by (simp add: first_where_def)

text \<open>An update that leaves a key alone keeps its column; appending a fresh key keeps it unique.\<close>

lemma map_update_where:
  "(\<And>r. P r \<Longrightarrow> key (f r) = key r) \<Longrightarrow> map key (fst (update_where P f rows)) = map key rows"
  by (auto simp: update_where_def)

lemma list_all_update_where:
  "list_all Q rows \<Longrightarrow> (\<And>r. Q r \<Longrightarrow> P r \<Longrightarrow> Q (f r)) \<Longrightarrow> list_all Q (fst (update_where P f rows))"
  by (auto simp: update_where_def list_all_iff)

lemma set_update_where:
  "r \<in> set (fst (update_where P f rows)) \<longleftrightarrow> (\<exists>r0 \<in> set rows. r = (if P r0 then f r0 else r0))"
  by (auto simp: update_where_def)

section \<open>The DECIMAL boundary\<close>

lemma takeWhile_digits_append:
  "list_all is_digit xs \<Longrightarrow> \<not> is_digit c \<Longrightarrow> takeWhile is_digit (xs @ c # ys) = xs"
  "list_all is_digit xs \<Longrightarrow> \<not> is_digit c \<Longrightarrow> dropWhile is_digit (xs @ c # ys) = c # ys"
  by (induction xs) simp_all

lemma frac_fen_two: "frac_fen [digit_char (n mod 100 div 10), digit_char (n mod 10)] = n mod 100"
proof -
  have "n mod 100 div 10 < 10" by (simp add: less_mult_imp_div_less)
  moreover have "n mod 100 div 10 * 10 + n mod 10 = n mod 100"
    by (simp add: mod_mod_cancel [of 10 100 n, symmetric])
  ultimately show ?thesis by (simp add: frac_fen_def)
qed

lemma decimal_value_fenToYuanString [simp]:
  assumes "in_i64 fen"
  shows "decimal_value (fenToYuanString fen) = fen"
proof -
  have nd: "\<not> is_digit CHR ''.''" by (simp add: is_digit_def)
  have parts: "int (n div 100) * 100 + int (n mod 100) = int n" for n
    by (metis of_nat_add of_nat_mult of_nat_numeral div_mult_mod_eq)
  from nd parts [of "nat fen"] parts [of "nat (- fen)"] show ?thesis
    by (simp add: decimal_value_def split_sign_printed [OF assms] takeWhile_digits_append frac_fen_two)
qed

text \<open>An amount written as text and cast by the server is stored unchanged.\<close>

lemma castDecimal_fenToYuanString [simp]:
  "\<bar>fen\<bar> < 10 ^ 18 \<Longrightarrow> castDecimal e (fenToYuanString fen) = fen"
  by (subst castDecimal_def) (simp add: in_i64I)

section \<open>Frames and atomicity\<close>

lemma execSqlSync_tx_eq [eff_simps]:
  "execSqlSync_tx e st w = Some (Inr x, w') \<longleftrightarrow>
     \<not> sql_fault e (w_sql w) \<and>
     (\<exists>d. st (w_sql w) (w_tx w) = Some (d, x) \<and> w' = w\<lparr>w_tx := d, w_sql := Suc (w_sql w)\<rparr>)"
  by (auto simp: execSqlSync_tx_def split: option.splits)

lemma execSqlSync_auto_eq [eff_simps]:
  "execSqlSync_auto e st w = Some (Inr x, w') \<longleftrightarrow>
     db_configured e \<and> \<not> sql_fault e (w_sql w) \<and>
     (\<exists>d. st (w_sql w) (w_db w) = Some (d, x) \<and> w' = w\<lparr>w_db := d, w_sql := Suc (w_sql w)\<rparr>)"
  by (auto simp: execSqlSync_auto_def split: option.splits)

lemma now_ns_eq [eff_simps]:
  "now_ns e w = Some (r, w') \<longleftrightarrow> r = Inr (clock_ns e (w_clk w)) \<and> w' = w\<lparr>w_clk := Suc (w_clk w)\<rparr>"
  by (auto simp: now_ns_def)

lemma nextId_eq [eff_simps]:
  "nextId e w = Some (r, w') \<longleftrightarrow>
     (\<exists>g k. IdGenerator_nextId (clock_ns e) (w_gen w, w_clk w) = Some (r, g, k) \<and>
        w' = w\<lparr>w_gen := g, w_clk := k\<rparr>)"
  by (auto simp: nextId_def split: option.splits)

text \<open>Nothing but \<open>commit\<close> and statements outside the transaction touches the committed tables.\<close>

abbreviation uncommitted :: "db \<Rightarrow> world \<Rightarrow> bool" where
  "uncommitted d w \<equiv> w_db w = d \<and> \<not> w_finished w"

lemma uncommitted_execSqlSync_tx [preserves_intro]: "preserves (uncommitted d) (execSqlSync_tx e st)"
  by (rule preservesI) (auto simp: execSqlSync_tx_def split: if_splits option.splits)

lemma uncommitted_now_ns [preserves_intro]: "preserves (uncommitted d) (now_ns e)"
  by (rule preservesI) (auto simp: eff_simps)

lemma uncommitted_nextId [preserves_intro]: "preserves (uncommitted d) (nextId e)"
  by (rule preservesI) (auto simp: eff_simps)

lemma commit_eq [eff_simps]:
  "TransactionGuard_commit e w = Some (Inr (), w') \<longleftrightarrow>
     \<not> w_finished w \<and> \<not> sql_fault e (w_sql w) \<and>
     w' = w\<lparr>w_db := w_tx w, w_finished := True, w_sql := Suc (w_sql w)\<rparr>"
  by (auto simp: TransactionGuard_commit_def)

lemma commit_Inl: "TransactionGuard_commit e w = Some (Inl x, w') \<Longrightarrow> w_db w' = w_db w \<and> w_finished w' = w_finished w"
  by (auto simp: TransactionGuard_commit_def split: if_splits)

lemma w_db_dtor [simp]: "w_db (TransactionGuard_dtor w) = w_db w"
  by (simp add: TransactionGuard_dtor_def)

lemma with_guard_cases:
  assumes "with_guard e body w = Some (r, w')"
  obtains (refused) x where "r = Inl x" "w_db w' = w_db w" "w_gen w' = w_gen w" "w_clk w' = w_clk w"
      "w_tx w' = w_tx w \<or> w_tx w' = w_db w"
    | (entered) w1 w2 where
        "w1 = w\<lparr>w_tx := w_db w, w_sql := Suc (w_sql w), w_finished := False\<rparr>"
        "body w1 = Some (r, w2)" "w' = TransactionGuard_dtor w2"
  using assms
  by (auto simp: with_guard_def bnd_def on_exit_def beginTransaction_def TransactionGuard_ctor_def
      split: option.splits sum.splits prod.splits if_splits begin_result.splits)

text \<open>
  A body that never commits leaves no trace; a body of the form "work, commit, return" either
  leaves no trace or publishes exactly the transaction's view at the commit.
\<close>

lemma with_guard_uncommitted:
  assumes "with_guard e body w = Some (r, w')" and "preserves (uncommitted (w_db w)) body"
  shows "w_db w' = w_db w"
  using assms(1)
proof (cases rule: with_guard_cases)
  case (entered w1 w2)
  then have "uncommitted (w_db w) w1" by simp
  with entered preservesD [OF assms(2) entered(2)] show ?thesis by simp
qed

text \<open>
  The shape of every business transaction: statements, and at the end a commit followed by the
  return of a result that marks success. Such a body changes the committed tables only when it
  returns such a result.
\<close>

definition atomic_body :: "db \<Rightarrow> ('a \<Rightarrow> bool) \<Rightarrow> 'a act \<Rightarrow> bool" where
  "atomic_body d Q m \<longleftrightarrow>
     (\<forall>w r w'. uncommitted d w \<longrightarrow> m w = Some (r, w') \<longrightarrow> w_db w' = d \<or> (\<exists>x. r = Inr x \<and> Q x))"

lemma atomic_bodyI: "preserves (uncommitted d) m \<Longrightarrow> atomic_body d Q m"
  by (auto simp: atomic_body_def dest: preservesD)

lemma atomic_body_bnd [preserves_intro]:
  assumes "preserves (uncommitted d) m" and "\<And>x. atomic_body d Q (f x)"
  shows "atomic_body d Q (bnd m f)"
  unfolding atomic_body_def
proof (intro allI impI)
  fix w r w'
  assume un: "uncommitted d w" and run: "bnd m f w = Some (r, w')"
  show "w_db w' = d \<or> (\<exists>x. r = Inr x \<and> Q x)"
  proof (cases r)
    case (Inl x)
    with run consider "m w = Some (Inl x, w')" | y u where "m w = Some (Inr y, u)" "f y u = Some (Inl x, w')"
      by (auto simp: eff_simps)
    then show ?thesis
    proof cases
      case 1
      from preservesD [OF assms(1) this un] show ?thesis by simp
    next
      case 2
      from preservesD [OF assms(1) 2(1) un] 2(2) assms(2) [of y] show ?thesis
        by (auto simp: atomic_body_def)
    qed
  next
    case (Inr x)
    with run obtain y u where yu: "m w = Some (Inr y, u)" "f y u = Some (Inr x, w')"
      by (auto simp: eff_simps)
    from preservesD [OF assms(1) yu(1) un] yu(2) assms(2) [of y] Inr show ?thesis
      by (fastforce simp: atomic_body_def)
  qed
qed

lemma atomic_body_commit [preserves_intro]:
  "Q x \<Longrightarrow> atomic_body d Q (bnd (TransactionGuard_commit e) (\<lambda>_. ret x))"
  by (auto simp: atomic_body_def bnd_def TransactionGuard_commit_def ret_def split: if_splits)

lemma atomic_body_if [preserves_intro]:
  "(b \<Longrightarrow> atomic_body d Q m) \<Longrightarrow> (\<not> b \<Longrightarrow> atomic_body d Q n) \<Longrightarrow> atomic_body d Q (if b then m else n)"
  by simp

lemma atomic_body_case_option [preserves_intro]:
  "atomic_body d Q m \<Longrightarrow> (\<And>x. atomic_body d Q (f x)) \<Longrightarrow>
   atomic_body d Q (case v of None \<Rightarrow> m | Some x \<Rightarrow> f x)"
  by (cases v) simp_all

lemma atomic_body_ret [preserves_intro]: "atomic_body d Q (ret x)"
  by (intro atomic_bodyI preserves_intro)

lemma atomic_body_throw [preserves_intro]: "atomic_body d Q (throw x)"
  by (intro atomic_bodyI preserves_intro)

lemma with_guard_atomic:
  assumes "with_guard e body w = Some (r, w')" and "atomic_body (w_db w) Q body"
  shows "w_db w' = w_db w \<or> (\<exists>x. r = Inr x \<and> Q x)"
  using assms(1)
proof (cases rule: with_guard_cases)
  case (entered w1 w2)
  then have "uncommitted (w_db w) w1" by simp
  with assms(2) entered(2) have "w_db w2 = w_db w \<or> (\<exists>x. r = Inr x \<and> Q x)"
    unfolding atomic_body_def by blast
  with entered(3) show ?thesis by simp
qed simp

text \<open>A property of the tables that every statement keeps is kept by the program.\<close>

definition all_tables :: "(db \<Rightarrow> bool) \<Rightarrow> world \<Rightarrow> bool" where
  "all_tables P w \<longleftrightarrow> P (w_db w) \<and> P (w_tx w)"

definition stmt_keeps :: "(db \<Rightarrow> bool) \<Rightarrow> 'a stmt \<Rightarrow> bool" where
  "stmt_keeps P st \<longleftrightarrow> (\<forall>n d d' x. P d \<longrightarrow> st n d = Some (d', x) \<longrightarrow> P d')"

lemma stmt_keepsI: "(\<And>n d d' x. P d \<Longrightarrow> st n d = Some (d', x) \<Longrightarrow> P d') \<Longrightarrow> stmt_keeps P st"
  by (auto simp: stmt_keeps_def)

lemma stmt_keepsD: "stmt_keeps P st \<Longrightarrow> st n d = Some (d', x) \<Longrightarrow> P d \<Longrightarrow> P d'"
  by (auto simp: stmt_keeps_def)

lemma stmt_keeps_query [preserves_intro]: "stmt_keeps P (query f)"
  by (auto simp: stmt_keeps_def query_def)

lemma all_tables_execSqlSync_tx [preserves_intro]:
  "stmt_keeps P st \<Longrightarrow> preserves (all_tables P) (execSqlSync_tx e st)"
  by (rule preservesI) (auto simp: execSqlSync_tx_def all_tables_def split: if_splits option.splits dest: stmt_keepsD)

lemma all_tables_execSqlSync_auto [preserves_intro]:
  "stmt_keeps P st \<Longrightarrow> preserves (all_tables P) (execSqlSync_auto e st)"
  by (rule preservesI) (auto simp: execSqlSync_auto_def all_tables_def split: if_splits option.splits dest: stmt_keepsD)

lemma all_tables_now_ns [preserves_intro]: "preserves (all_tables P) (now_ns e)"
  by (rule preservesI) (auto simp: eff_simps all_tables_def)

lemma all_tables_nextId [preserves_intro]: "preserves (all_tables P) (nextId e)"
  by (rule preservesI) (auto simp: eff_simps all_tables_def)

lemma all_tables_commit [preserves_intro]: "preserves (all_tables P) (TransactionGuard_commit e)"
  by (rule preservesI) (auto simp: TransactionGuard_commit_def all_tables_def split: if_splits)

lemma all_tables_with_guard [preserves_intro]:
  assumes "preserves (all_tables P) body"
  shows "preserves (all_tables P) (with_guard e body)"
proof (rule preservesI)
  fix w r w'
  assume inv: "all_tables P w" and "with_guard e body w = Some (r, w')"
  from this(2) show "all_tables P w'"
  proof (cases rule: with_guard_cases)
    case refused
    with inv show ?thesis by (auto simp: all_tables_def)
  next
    case (entered w1 w2)
    from inv entered(1) have "all_tables P w1" by (simp add: all_tables_def)
    with preservesD [OF assms entered(2)] have "all_tables P w2" .
    with entered(3) show ?thesis by (simp add: all_tables_def TransactionGuard_dtor_def)
  qed
qed

text \<open>Between transactions only the committed tables matter: a transaction starts from them.\<close>

definition committed :: "(db \<Rightarrow> bool) \<Rightarrow> world \<Rightarrow> bool" where
  "committed P w \<longleftrightarrow> P (w_db w)"

lemma committed_with_guard [preserves_intro]:
  assumes "preserves (all_tables P) body"
  shows "preserves (committed P) (with_guard e body)"
proof (rule preservesI)
  fix w r w'
  assume inv: "committed P w" and "with_guard e body w = Some (r, w')"
  from this(2) show "committed P w'"
  proof (cases rule: with_guard_cases)
    case refused
    with inv show ?thesis by (simp add: committed_def)
  next
    case (entered w1 w2)
    from inv entered(1) have "all_tables P w1" by (simp add: all_tables_def committed_def)
    with preservesD [OF assms entered(2)] have "all_tables P w2" .
    with entered(3) show ?thesis by (simp add: all_tables_def committed_def)
  qed
qed

lemma committed_execSqlSync_auto [preserves_intro]:
  "stmt_keeps P st \<Longrightarrow> preserves (committed P) (execSqlSync_auto e st)"
  by (rule preservesI)
     (auto simp: execSqlSync_auto_def committed_def split: if_splits option.splits dest: stmt_keepsD)

lemma committed_now_ns [preserves_intro]: "preserves (committed P) (now_ns e)"
  by (rule preservesI) (auto simp: eff_simps committed_def)

lemma committed_nextId [preserves_intro]: "preserves (committed P) (nextId e)"
  by (rule preservesI) (auto simp: eff_simps committed_def)

text \<open>What the primitives throw.\<close>

lemma raises_only_execSqlSync_tx [preserves_intro]: "E DrogonDbException \<Longrightarrow> raises_only E (execSqlSync_tx e st)"
  by (auto simp: raises_only_def execSqlSync_tx_def split: if_splits option.splits)

lemma raises_only_execSqlSync_auto [preserves_intro]: "E DrogonDbException \<Longrightarrow> raises_only E (execSqlSync_auto e st)"
  by (auto simp: raises_only_def execSqlSync_auto_def split: if_splits option.splits)

lemma raises_only_now_ns [preserves_intro]: "raises_only E (now_ns e)"
  by (auto simp: raises_only_def eff_simps)

lemma raises_only_nextId [preserves_intro]:
  assumes "E StdException"
  shows "raises_only E (nextId e)"
  using assms
  by (intro raises_onlyI)
     (auto simp: eff_simps IdGenerator_nextId_def finish_id_def Let_def split: if_splits option.splits)

lemma raises_only_commit [preserves_intro]:
  "E DrogonDbException \<Longrightarrow> E StdException \<Longrightarrow> raises_only E (TransactionGuard_commit e)"
  by (auto simp: raises_only_def TransactionGuard_commit_def split: if_splits)

lemma raises_only_with_guard [preserves_intro]:
  assumes "E DrogonDbException" and "E StdException" and "raises_only E body"
  shows "raises_only E (with_guard e body)"
proof -
  have "raises_only E (beginTransaction e)" "raises_only E (TransactionGuard_ctor tx)" for tx
    using assms by (auto simp: raises_only_def beginTransaction_def TransactionGuard_ctor_def
        split: if_splits begin_result.splits)
  with assms(3) show ?thesis unfolding with_guard_def by (intro preserves_intro)
qed

text \<open>Without faults the guard only wraps its scope.\<close>

lemma with_guard_run:
  assumes "healthy_from e (w_sql w)"
  shows "with_guard e body w = map_option (\<lambda>(r, u). (r, TransactionGuard_dtor u))
    (body (w\<lparr>w_tx := w_db w, w_sql := Suc (w_sql w), w_finished := False\<rparr>))"
  using assms
  by (simp add: healthy_fromD [OF assms] with_guard_def bnd_def beginTransaction_def TransactionGuard_ctor_def on_exit_def split: option.split)

text \<open>Every call of the database and of the clock ends; drawing an identifier ends when the clock passes.\<close>

lemma ends_execSqlSync_tx [preserves_intro]: "ends (execSqlSync_tx e st)"
  by (auto simp: ends_def execSqlSync_tx_def split: option.split)

lemma ends_now_ns [preserves_intro]: "ends (now_ns e)"
  by (simp add: ends_def now_ns_def)

lemma ends_nextId [preserves_intro]: "clock_passes (clock_ns e) \<Longrightarrow> ends (nextId e)"
  using nextId_total [of "clock_ns e"] by (fastforce simp: ends_def nextId_def split: option.split)

lemma ends_commit [preserves_intro]: "ends (TransactionGuard_commit e)"
  by (simp add: ends_def TransactionGuard_commit_def)

lemma ends_with_guard [preserves_intro]: "ends body \<Longrightarrow> ends (with_guard e body)"
proof -
  have "ends (beginTransaction e)" "ends (TransactionGuard_ctor tx)" for tx
    by (auto simp: ends_def beginTransaction_def TransactionGuard_ctor_def split: begin_result.split)
  then show "ends body \<Longrightarrow> ends (with_guard e body)" unfolding with_guard_def by (intro preserves_intro)
qed

end
