(* ===== verification/MqClient.thy ===== *)
theory MqClient
  imports Database
begin

text \<open>
  \<^verbatim>\<open>src/utils/MqClient.h\<close>, \<^verbatim>\<open>src/utils/MqClient.cc\<close>: the publisher. The client library rabbitmq-c and the
  broker are parameters: the outcome of every call, numbered in the order in which the client makes
  them. The state is the connection handle, the number of calls and what the broker has stored. The
  client holds its mutex during \<open>publish\<close>, so one publication runs at a time. Logging is left out.
\<close>

section \<open>The library and the broker\<close>

datatype amqp_frame = MethodFrame nat | OtherFrame

record amqp =
  socket_new_ok :: "nat \<Rightarrow> bool" \<comment> \<open>\<open>amqp_tcp_socket_new\<close> returns a socket\<close>
  socket_open_ok :: "nat \<Rightarrow> bool" \<comment> \<open>\<open>amqp_socket_open\<close> returns \<open>AMQP_STATUS_OK\<close>\<close>
  rpc_normal :: "nat \<Rightarrow> bool" \<comment> \<open>the reply to the remote call is \<open>AMQP_RESPONSE_NORMAL\<close>\<close>
  publish_sent :: "nat \<Rightarrow> bool" \<comment> \<open>\<open>amqp_basic_publish\<close> returns \<open>AMQP_STATUS_OK\<close>\<close>
  broker_takes :: "nat \<Rightarrow> bool" \<comment> \<open>the broker takes over the message that call sends\<close>
  routable :: "nat \<Rightarrow> string \<Rightarrow> string \<Rightarrow> bool" \<comment> \<open>at that call a queue is bound for exchange and routing key\<close>
  wait_frame :: "nat \<Rightarrow> amqp_frame option" \<comment> \<open>the frame that arrives; \<open>None\<close>: timeout or failure\<close>

definition AMQP_BASIC_ACK_METHOD :: nat where "AMQP_BASIC_ACK_METHOD = 0x003C0050"

type_synonym publication = "string \<times> string \<times> string"

text \<open>
  The promise of publisher confirms: a positive acknowledgement that follows a publication on the
  channel is sent only once the broker has taken the message over. The program publishes without the
  mandatory flag: a message taken over while no queue is bound for it is acknowledged and dropped.
\<close>

definition confirms_taken :: "amqp \<Rightarrow> bool" where
  "confirms_taken a \<longleftrightarrow>
     (\<forall>n. publish_sent a n \<longrightarrow> wait_frame a (Suc n) = Some (MethodFrame AMQP_BASIC_ACK_METHOD) \<longrightarrow> broker_takes a n)"

text \<open>A queue is bound for the exchange and the routing key of a publication, at every call.\<close>

definition queue_bound :: "amqp \<Rightarrow> publication \<Rightarrow> bool" where
  "queue_bound a p \<longleftrightarrow> (\<forall>n. routable a n (fst p) (fst (snd p)))"

record mq =
  mq_conn :: bool \<comment> \<open>\<open>conn_\<close> is not null\<close>
  mq_calls :: nat \<comment> \<open>calls of the library so far\<close>
  mq_stored :: "publication list" \<comment> \<open>exchange, routing key and body of the messages the broker stored\<close>

type_synonym 'a mqact = "(mq, exn, 'a) eff"

text \<open>A call of the library whose outcome the environment decides.\<close>

definition amqp_call :: "(nat \<Rightarrow> 'a) \<Rightarrow> 'a mqact" where
  "amqp_call f s = Some (Inr (f (mq_calls s)), s\<lparr>mq_calls := Suc (mq_calls s)\<rparr>)"

section \<open>The client\<close>

record MqConfig =
  mqc_host :: string
  mqc_port :: int
  mqc_user :: string
  mqc_password :: string
  mqc_vhost :: string

definition MqConfig_default :: MqConfig where
  "MqConfig_default = \<lparr>mqc_host = ''127.0.0.1'', mqc_port = 5672, mqc_user = ''guest'', mqc_password = ''guest'', mqc_vhost = ''/''\<rparr>"

definition kConfirmTimeoutSeconds :: int where "kConfirmTimeoutSeconds = 3"

definition MqClient_close :: "unit mqact" where
  "MqClient_close = modify (\<lambda>s. if mq_conn s then s\<lparr>mq_conn := False\<rparr> else s)"

text \<open>\<open>close(); return false;\<close>\<close>

definition close_false :: "bool mqact" where
  "close_false = bnd MqClient_close (\<lambda>_. ret False)"

text \<open>\<open>rpcOk\<close> after the remote call \<open>call\<close> whose outcome it reads.\<close>

definition rpcOk :: "amqp \<Rightarrow> bool mqact" where
  "rpcOk a = amqp_call (rpc_normal a)"

definition declareExchange :: "amqp \<Rightarrow> bool mqact" where
  "declareExchange a = rpcOk a"

definition ensureConnected :: "amqp \<Rightarrow> bool mqact" where
  "ensureConnected a =
     bnd (gets mq_conn) (\<lambda>conn.
       if conn then ret True
       else bnd (modify (\<lambda>s. s\<lparr>mq_conn := True\<rparr>)) (\<lambda>_.
         bnd (amqp_call (socket_new_ok a)) (\<lambda>socket.
           if \<not> socket then close_false
           else bnd (amqp_call (socket_open_ok a)) (\<lambda>opened.
             if \<not> opened then close_false
             else bnd (rpcOk a) (\<lambda>login.
               if \<not> login then close_false
               else bnd (rpcOk a) (\<lambda>channel.
                 if \<not> channel then close_false
                 else bnd (declareExchange a) (\<lambda>declared.
                   if \<not> declared then close_false
                   else bnd (rpcOk a) (\<lambda>confirm.
                     if \<not> confirm then close_false else ret True))))))))"

definition waitConfirm :: "amqp \<Rightarrow> bool mqact" where
  "waitConfirm a =
     bnd (amqp_call (wait_frame a)) (\<lambda>frame.
       ret (case frame of None \<Rightarrow> False | Some OtherFrame \<Rightarrow> False | Some (MethodFrame i) \<Rightarrow> i = AMQP_BASIC_ACK_METHOD))"

text \<open>The bytes of a C string end at the first zero byte.\<close>

definition c_str :: "string \<Rightarrow> string" where
  "c_str s = takeWhile (\<lambda>c. c \<noteq> CHR 0x00) s"

definition basic_publish :: "amqp \<Rightarrow> publication \<Rightarrow> bool mqact" where
  "basic_publish a p s =
     Some (Inr (publish_sent a (mq_calls s)),
       s\<lparr>mq_calls := Suc (mq_calls s),
         mq_stored := (if broker_takes a (mq_calls s) \<and> routable a (mq_calls s) (fst p) (fst (snd p))
                       then mq_stored s @ [p] else mq_stored s)\<rparr>)"

definition publish_connected :: "amqp \<Rightarrow> string \<Rightarrow> string \<Rightarrow> string \<Rightarrow> bool mqact" where
  "publish_connected a exchange routingKey payload =
     bnd (basic_publish a (c_str exchange, c_str routingKey, c_str payload)) (\<lambda>sent.
       if \<not> sent then close_false
       else bnd (waitConfirm a) (\<lambda>confirmed. if \<not> confirmed then close_false else ret True))"

definition MqClient_publish :: "amqp \<Rightarrow> string \<Rightarrow> string \<Rightarrow> string \<Rightarrow> bool mqact" where
  "MqClient_publish a exchange routingKey payload =
     bnd (ensureConnected a) (\<lambda>connected.
       if connected then publish_connected a exchange routingKey payload
       else bnd MqClient_close (\<lambda>_.
         bnd (ensureConnected a) (\<lambda>again.
           if \<not> again then ret False else publish_connected a exchange routingKey payload)))"

lemmas mq_defs = amqp_call_def MqClient_close_def close_false_def rpcOk_def declareExchange_def ensureConnected_def
  waitConfirm_def basic_publish_def publish_connected_def MqClient_publish_def

declare mq_defs [eval_simps] c_str_def [eval_simps] AMQP_BASIC_ACK_METHOD_def [eval_simps]

section \<open>Lemmas\<close>

text \<open>Steps of the client never throw and always return.\<close>

definition total_act :: "('s, 'e, 'a) eff \<Rightarrow> bool" where
  "total_act m \<longleftrightarrow> (\<forall>s. \<exists>x t. m s = Some (Inr x, t))"

lemma total_actE: "total_act m \<Longrightarrow> (\<And>x t. m s = Some (Inr x, t) \<Longrightarrow> thesis) \<Longrightarrow> thesis"
  unfolding total_act_def by blast

lemma total_ret [preserves_intro]: "total_act (ret x)"
  by (simp add: total_act_def ret_def)

lemma total_gets [preserves_intro]: "total_act (gets f)"
  by (simp add: total_act_def gets_def)

lemma total_modify [preserves_intro]: "total_act (modify f)"
  by (simp add: total_act_def modify_def)

lemma total_amqp_call [preserves_intro]: "total_act (amqp_call f)"
  by (simp add: total_act_def amqp_call_def)

lemma total_basic_publish [preserves_intro]: "total_act (basic_publish a p)"
  by (simp add: total_act_def basic_publish_def)

lemma total_bnd [preserves_intro]: "total_act m \<Longrightarrow> (\<And>x. total_act (f x)) \<Longrightarrow> total_act (bnd m f)"
  unfolding total_act_def by (metis bnd_run_Inr)

lemma total_if [preserves_intro]:
  "(b \<Longrightarrow> total_act m) \<Longrightarrow> (\<not> b \<Longrightarrow> total_act n) \<Longrightarrow> total_act (if b then m else n)"
  by simp

lemma total_publish: "total_act (MqClient_publish a exchange routingKey payload)"
  unfolding MqClient_publish_def publish_connected_def ensureConnected_def waitConfirm_def rpcOk_def declareExchange_def
    close_false_def MqClient_close_def
  by (intro preserves_intro)

text \<open>The broker's store only grows.\<close>

definition stored_extends :: "publication list \<Rightarrow> mq \<Rightarrow> bool" where
  "stored_extends ps s \<longleftrightarrow> (\<exists>qs. mq_stored s = ps @ qs)"

lemma stored_extends_amqp_call [preserves_intro]: "preserves (stored_extends ps) (amqp_call f)"
  by (rule preservesI) (auto simp: amqp_call_def stored_extends_def)

lemma stored_extends_basic_publish [preserves_intro]: "preserves (stored_extends ps) (basic_publish a p)"
  by (rule preservesI) (auto simp: basic_publish_def stored_extends_def split: if_splits)

lemma stored_extends_close [preserves_intro]: "preserves (stored_extends ps) MqClient_close"
  unfolding MqClient_close_def by (rule preserves_modify) (simp add: stored_extends_def)

lemma stored_extends_conn [preserves_intro]: "preserves (stored_extends ps) (modify (\<lambda>s. s\<lparr>mq_conn := c\<rparr>))"
  by (rule preserves_modify) (simp add: stored_extends_def)

lemma stored_extends_publish:
  assumes "MqClient_publish a exchange routingKey payload s = Some (r, t)"
  shows "\<exists>qs. mq_stored t = mq_stored s @ qs"
proof -
  have "preserves (stored_extends (mq_stored s)) (MqClient_publish a exchange routingKey payload)"
    unfolding MqClient_publish_def publish_connected_def ensureConnected_def waitConfirm_def rpcOk_def declareExchange_def
      close_false_def
    by (intro preserves_intro)
  from preservesD [OF this assms] show ?thesis by (simp add: stored_extends_def)
qed

lemma ensureConnected_conn:
  "ensureConnected a s = Some (Inr b, t) \<Longrightarrow> mq_conn t = b"
  by (auto simp: ensureConnected_def eff_simps amqp_call_def rpcOk_def declareExchange_def close_false_def MqClient_close_def
      split: if_splits)

lemma publish_connected_true:
  assumes "publish_connected a exchange routingKey payload s = Some (Inr b, t)"
  shows "if b then mq_conn t = mq_conn s \<and> publish_sent a (mq_calls s) \<and>
        wait_frame a (Suc (mq_calls s)) = Some (MethodFrame AMQP_BASIC_ACK_METHOD) \<and> mq_calls t = Suc (Suc (mq_calls s))
      else \<not> mq_conn t"
  using assms
  by (auto simp: publish_connected_def basic_publish_def waitConfirm_def amqp_call_def close_false_def MqClient_close_def eff_simps bnd_def
      split: if_splits option.splits amqp_frame.splits)

lemma publish_connected_stored:
  assumes "publish_connected a exchange routingKey payload s = Some (Inr True, t)" and "confirms_taken a"
    and "queue_bound a (c_str exchange, c_str routingKey, c_str payload)"
  shows "(c_str exchange, c_str routingKey, c_str payload) \<in> set (mq_stored t)"
proof -
  from publish_connected_true [OF assms(1)] assms(2) have "broker_takes a (mq_calls s)"
    by (auto simp: confirms_taken_def)
  with assms(1,3) show ?thesis
    by (auto simp: publish_connected_def basic_publish_def waitConfirm_def amqp_call_def close_false_def MqClient_close_def eff_simps
        queue_bound_def split: if_splits)
qed

lemma publish_cases:
  assumes "MqClient_publish a exchange routingKey payload s = Some (Inr b, t)"
  obtains (unconnected) "\<not> b" "\<not> mq_conn t"
    | (sent) u where "mq_conn u" "publish_connected a exchange routingKey payload u = Some (Inr b, t)"
  using assms ensureConnected_conn [of a]
  by (auto simp: MqClient_publish_def eff_simps split: if_splits)

text \<open>A publication reported as confirmed was sent, and the acknowledgement is the frame read right after it.\<close>

lemma publish_confirmed:
  assumes "MqClient_publish a exchange routingKey payload s = Some (Inr True, t)"
  shows "publish_sent a (mq_calls t - 2) \<and> wait_frame a (mq_calls t - 1) = Some (MethodFrame AMQP_BASIC_ACK_METHOD)"
  using assms
proof (cases rule: publish_cases)
  case (sent u)
  from publish_connected_true [OF sent(2)] show ?thesis by simp
qed simp

end
