(* ===== verification/ThreadPool.thy ===== *)
theory ThreadPool
  imports Env "HOL-Library.Multiset"
begin

text \<open>
  \<^verbatim>\<open>src/utils/ThreadPool.h\<close>, \<^verbatim>\<open>src/utils/ThreadPool.cc\<close>: a queue of tasks shared by a fixed number of
  worker threads. The critical sections under the mutex are the atomic steps; threads interleave
  between them in any order. A ghost history records which tasks were accepted, started and
  finished, in order; nothing reads it.
\<close>

section \<open>State and steps\<close>

datatype 'task worker = Waiting | Running 'task | Exited

record 'task ThreadPool =
  pl_tasks :: "'task list" \<comment> \<open>\<open>tasks_\<close>\<close>
  pl_stopped :: bool \<comment> \<open>\<open>stopped_\<close>\<close>
  pl_threads :: "'task worker list" \<comment> \<open>\<open>threads_\<close>, by where each thread is in \<open>workerLoop\<close>\<close>
  pl_accepted :: "'task list" \<comment> \<open>history\<close>
  pl_started :: "'task list" \<comment> \<open>history\<close>
  pl_finished :: "'task list" \<comment> \<open>history\<close>

definition ThreadPool_new :: "nat \<Rightarrow> 'task ThreadPool" where
  "ThreadPool_new threadCount =
     \<lparr>pl_tasks = [], pl_stopped = False, pl_threads = replicate threadCount Waiting, pl_accepted = [], pl_started = [], pl_finished = []\<rparr>"

definition globalThreadPool :: "'task ThreadPool" where
  "globalThreadPool = ThreadPool_new 8"

definition ThreadPool_threadCount :: "'task ThreadPool \<Rightarrow> nat" where
  "ThreadPool_threadCount p = length (pl_threads p)"

text \<open>An empty \<open>std::function\<close> is \<open>None\<close>.\<close>

definition ThreadPool_submit :: "'task option \<Rightarrow> 'task ThreadPool \<Rightarrow> bool \<times> 'task ThreadPool" where
  "ThreadPool_submit task p =
     (case task of
        None \<Rightarrow> (False, p)
      | Some t \<Rightarrow> if pl_stopped p then (False, p) else (True, p\<lparr>pl_tasks := pl_tasks p @ [t], pl_accepted := pl_accepted p @ [t]\<rparr>))"

text \<open>The destructor sets the flag; it returns when every thread has left its loop.\<close>

definition ThreadPool_stop :: "'task ThreadPool \<Rightarrow> 'task ThreadPool" where
  "ThreadPool_stop p = p\<lparr>pl_stopped := True\<rparr>"

definition ThreadPool_joined :: "'task ThreadPool \<Rightarrow> bool" where
  "ThreadPool_joined p \<longleftrightarrow> list_all (\<lambda>t. t = Exited) (pl_threads p)"

text \<open>
  One pass of \<open>workerLoop\<close> in thread \<open>i\<close>, from the wait to the release of the lock: the thread leaves
  when the pool is stopped and the queue empty, otherwise it takes the first task; \<open>None\<close>: it waits.
\<close>

definition workerLoop_wait :: "nat \<Rightarrow> 'task ThreadPool \<Rightarrow> 'task ThreadPool option" where
  "workerLoop_wait i p =
     (if length (pl_threads p) \<le> i \<or> pl_threads p ! i \<noteq> Waiting then None
      else if \<not> (pl_stopped p \<or> pl_tasks p \<noteq> []) then None
      else if pl_stopped p \<and> pl_tasks p = [] then Some (p\<lparr>pl_threads := (pl_threads p)[i := Exited]\<rparr>)
      else Some (p\<lparr>pl_tasks := tl (pl_tasks p), pl_threads := (pl_threads p)[i := Running (hd (pl_tasks p))],
                   pl_started := pl_started p @ [hd (pl_tasks p)]\<rparr>))"

text \<open>The task ends, by returning or by an exception; both lead back to the wait.\<close>

definition workerLoop_done :: "nat \<Rightarrow> 'task ThreadPool \<Rightarrow> 'task ThreadPool option" where
  "workerLoop_done i p =
     (if length (pl_threads p) \<le> i then None
      else case pl_threads p ! i of
        Running t \<Rightarrow> Some (p\<lparr>pl_threads := (pl_threads p)[i := Waiting], pl_finished := pl_finished p @ [t]\<rparr>)
      | _ \<Rightarrow> None)"

text \<open>The body of a task inside the catch clauses of \<open>workerLoop\<close>.\<close>

definition worker_run :: "('s, exn, unit) eff \<Rightarrow> ('s, exn, unit) eff" where
  "worker_run task = try_catch task (\<lambda>_. ret ())"

inductive pool_step :: "'task ThreadPool \<Rightarrow> 'task ThreadPool \<Rightarrow> bool" where
  submits: "ThreadPool_submit task p = (ok, p') \<Longrightarrow> pool_step p p'"
| waits: "workerLoop_wait i p = Some p' \<Longrightarrow> pool_step p p'"
| ends: "workerLoop_done i p = Some p' \<Longrightarrow> pool_step p p'"
| stops: "pool_step p (ThreadPool_stop p)"

inductive pool_reachable :: "nat \<Rightarrow> 'task ThreadPool \<Rightarrow> bool" for n where
  init: "pool_reachable n (ThreadPool_new n)"
| step: "pool_reachable n p \<Longrightarrow> pool_step p p' \<Longrightarrow> pool_reachable n p'"

inductive_cases pool_stepE [elim]: "pool_step p p'"

lemmas pool_op_defs = ThreadPool_submit_def workerLoop_wait_def workerLoop_done_def ThreadPool_stop_def

declare pool_op_defs [eval_simps] ThreadPool_new_def [eval_simps] ThreadPool_joined_def [eval_simps] worker_run_def [eval_simps]

section \<open>Invariant\<close>

fun running_of :: "'task worker \<Rightarrow> 'task list" where
  "running_of (Running t) = [t]"
| "running_of w = []"

definition running_tasks :: "'task ThreadPool \<Rightarrow> 'task list" where
  "running_tasks p = concat (map running_of (pl_threads p))"

text \<open>
  Tasks are started in the order in which they were accepted, each once; a started task is running
  or finished; a thread leaves only a pl_stopped pool with an empty queue.
\<close>

definition pool_ok :: "'task ThreadPool \<Rightarrow> bool" where
  "pool_ok p \<longleftrightarrow> pl_started p @ pl_tasks p = pl_accepted p \<and>
     mset (pl_started p) = mset (running_tasks p) + mset (pl_finished p) \<and>
     (Exited \<in> set (pl_threads p) \<longrightarrow> pl_stopped p \<and> pl_tasks p = [])"

lemma concat_update:
  assumes "i < length xs"
  shows "mset (concat (map f (xs[i := y]))) + mset (f (xs ! i)) = mset (concat (map f xs)) + mset (f y)"
  using assms
proof (induction xs arbitrary: i)
  case (Cons x xs)
  then show ?case by (cases i) (auto simp: ac_simps)
qed simp

lemma running_tasks_update:
  "i < length (pl_threads p) \<Longrightarrow> mset (running_tasks (p\<lparr>pl_threads := (pl_threads p)[i := w]\<rparr>)) + mset (running_of (pl_threads p ! i)) =
     mset (running_tasks p) + mset (running_of w)"
  by (simp add: running_tasks_def concat_update)

lemma running_tasks_frame [simp]:
  "running_tasks (p\<lparr>pl_tasks := x\<rparr>) = running_tasks p" "running_tasks (p\<lparr>pl_stopped := b\<rparr>) = running_tasks p"
  "running_tasks (p\<lparr>pl_accepted := x\<rparr>) = running_tasks p" "running_tasks (p\<lparr>pl_started := x\<rparr>) = running_tasks p"
  "running_tasks (p\<lparr>pl_finished := x\<rparr>) = running_tasks p"
  by (simp_all add: running_tasks_def)

lemma pool_ok_new: "pool_ok (ThreadPool_new n)"
  by (auto simp: pool_ok_def ThreadPool_new_def running_tasks_def)

lemma pool_ok_submit: "pool_ok p \<Longrightarrow> ThreadPool_submit task p = (ok, p') \<Longrightarrow> pool_ok p'"
  by (auto simp: pool_ok_def ThreadPool_submit_def running_tasks_def split: option.splits if_splits)

lemma pool_ok_stop: "pool_ok p \<Longrightarrow> pool_ok (ThreadPool_stop p)"
  by (simp add: pool_ok_def ThreadPool_stop_def)

lemma pool_ok_wait:
  assumes "pool_ok p" and "workerLoop_wait i p = Some p'"
  shows "pool_ok p'"
proof -
  from assms(2) have i: "i < length (pl_threads p)" "pl_threads p ! i = Waiting" by (auto simp: workerLoop_wait_def split: if_splits)
  show ?thesis
  proof (cases "pl_stopped p \<and> pl_tasks p = []")
    case True
    with assms(2) i have p': "p' = p\<lparr>pl_threads := (pl_threads p)[i := Exited]\<rparr>" by (simp add: workerLoop_wait_def split: if_splits)
    from running_tasks_update [OF i(1), of Exited] i(2) have "mset (running_tasks p') = mset (running_tasks p)"
      by (simp add: p')
    with assms(1) True show ?thesis by (auto simp: pool_ok_def p')
  next
    case False
    with assms(2) i obtain t ts where ts: "pl_tasks p = t # ts" and
      p': "p' = p\<lparr>pl_tasks := ts, pl_threads := (pl_threads p)[i := Running t], pl_started := pl_started p @ [t]\<rparr>"
      by (cases "pl_tasks p") (auto simp: workerLoop_wait_def split: if_splits)
    from running_tasks_update [OF i(1), of "Running t"] i(2) have "mset (running_tasks p') = mset (running_tasks p) + {#t#}"
      by (simp add: p' running_tasks_def)
    moreover have "Exited \<notin> set (pl_threads p')"
      using assms(1) ts by (auto simp: pool_ok_def p' dest: set_update_subset_insert [THEN subsetD])
    ultimately show ?thesis using assms(1) ts by (simp add: pool_ok_def) (simp add: p')
  qed
qed

lemma pool_ok_done:
  assumes "pool_ok p" and "workerLoop_done i p = Some p'"
  shows "pool_ok p'"
proof -
  from assms(2) obtain t where i: "i < length (pl_threads p)" "pl_threads p ! i = Running t" and
    p': "p' = p\<lparr>pl_threads := (pl_threads p)[i := Waiting], pl_finished := pl_finished p @ [t]\<rparr>"
    by (auto simp: workerLoop_done_def split: if_splits worker.splits)
  from running_tasks_update [OF i(1), of Waiting] i(2) have "mset (running_tasks p') + {#t#} = mset (running_tasks p)"
    by (simp add: p' running_tasks_def)
  with assms(1) have "mset (pl_started p) = mset (running_tasks p') + mset (pl_finished p')" by (simp add: pool_ok_def p')
  moreover have "Exited \<in> set (pl_threads p') \<Longrightarrow> Exited \<in> set (pl_threads p)"
    by (auto simp: p' dest: set_update_subset_insert [THEN subsetD])
  ultimately show ?thesis using assms(1) by (auto simp: pool_ok_def p')
qed

lemma pool_ok_step: "pool_step p p' \<Longrightarrow> pool_ok p \<Longrightarrow> pool_ok p'"
  by (erule pool_stepE) (auto intro: pool_ok_submit pool_ok_wait pool_ok_done pool_ok_stop)

lemma pool_ok_reachable: "pool_reachable n p \<Longrightarrow> pool_ok p"
  by (induction rule: pool_reachable.induct) (auto intro: pool_ok_new pool_ok_step)

lemma length_threads_step: "pool_step p p' \<Longrightarrow> length (pl_threads p') = length (pl_threads p)"
  by (erule pool_stepE) (auto simp: pool_op_defs split: option.splits if_splits worker.splits)

lemma length_threads: "pool_reachable n p \<Longrightarrow> length (pl_threads p) = n"
  by (induction rule: pool_reachable.induct) (auto simp: ThreadPool_new_def length_threads_step)

section \<open>Shutdown\<close>

fun worker_work :: "'task worker \<Rightarrow> nat" where
  "worker_work Waiting = 1"
| "worker_work (Running t) = 2"
| "worker_work Exited = 0"

text \<open>The steps the workers have left once no task is accepted any more.\<close>

definition pool_work :: "'task ThreadPool \<Rightarrow> nat" where
  "pool_work p = 2 * length (pl_tasks p) + sum_list (map worker_work (pl_threads p))"

lemma sum_list_work_update:
  assumes "i < length xs"
  shows "sum_list (map worker_work (xs[i := y])) + worker_work (xs ! i) = sum_list (map worker_work xs) + worker_work y"
  using assms
proof (induction xs arbitrary: i)
  case (Cons x xs)
  show ?case
  proof (cases i)
    case (Suc j)
    with Cons.prems Cons.IH [of j] show ?thesis by simp
  qed simp
qed simp

lemma work_wait:
  assumes "workerLoop_wait i p = Some p'"
  shows "pool_work p' < pool_work p"
proof -
  from assms have i: "i < length (pl_threads p)" "pl_threads p ! i = Waiting" by (auto simp: workerLoop_wait_def split: if_splits)
  note upd = sum_list_work_update [OF i(1)]
  show ?thesis
  proof (cases "pl_stopped p \<and> pl_tasks p = []")
    case True
    with assms i upd [of Exited] show ?thesis by (auto simp: workerLoop_wait_def pool_work_def split: if_splits)
  next
    case False
    with assms i upd [of "Running (hd (pl_tasks p))"] show ?thesis
      by (cases "pl_tasks p") (auto simp: workerLoop_wait_def pool_work_def split: if_splits)
  qed
qed

lemma work_done: "workerLoop_done i p = Some p' \<Longrightarrow> pool_work p' < pool_work p"
  using sum_list_work_update [of i "pl_threads p" Waiting]
  by (auto simp: workerLoop_done_def pool_work_def split: if_splits worker.splits)

lemma stopped_progress:
  assumes "pl_stopped p" and "\<not> ThreadPool_joined p"
  shows "\<exists>i p'. workerLoop_wait i p = Some p' \<or> workerLoop_done i p = Some p'"
proof -
  from assms(2) obtain t where "t \<in> set (pl_threads p)" "t \<noteq> Exited" by (auto simp: ThreadPool_joined_def list_all_iff)
  then obtain i where i: "i < length (pl_threads p)" "pl_threads p ! i \<noteq> Exited" by (metis in_set_conv_nth)
  show ?thesis
  proof (cases "pl_threads p ! i")
    case Waiting
    with i assms(1) have "\<exists>p'. workerLoop_wait i p = Some p'" by (auto simp: workerLoop_wait_def)
    then show ?thesis by blast
  next
    case (Running t)
    with i have "\<exists>p'. workerLoop_done i p = Some p'" by (auto simp: workerLoop_done_def)
    then show ?thesis by blast
  qed (use i in simp)
qed

section \<open>An abstract task queue\<close>

text \<open>
  What clients rely on, as a labelled transition system: whether tasks are accepted, the waiting
  tasks, the tasks in progress, the tasks done and the number of idle workers. Every step has a
  label and a guard; a submission is answered, and the answer says what became of the task.
\<close>

datatype 'task pool_event = Submit "'task option" bool | Take 'task | Finish 'task | Leave | Close

record 'task task_queue =
  qu_open :: bool
  qu_waiting :: "'task list"
  qu_running :: "'task multiset"
  qu_done :: "'task list"
  qu_idle :: nat

inductive queue_step :: "'t pool_event \<Rightarrow> 't task_queue \<Rightarrow> 't task_queue \<Rightarrow> bool" where
  accepts: "qu_open s \<Longrightarrow> queue_step (Submit (Some t) True) s (s\<lparr>qu_waiting := qu_waiting s @ [t]\<rparr>)"
| refuses: "\<not> qu_open s \<Longrightarrow> queue_step (Submit (Some t) False) s s"
| refuses_empty: "queue_step (Submit None False) s s"
| takes: "qu_idle s = Suc k \<Longrightarrow> qu_waiting s = t # q \<Longrightarrow>
    queue_step (Take t) s (s\<lparr>qu_waiting := q, qu_running := qu_running s + {#t#}, qu_idle := k\<rparr>)"
| finishes: "qu_running s = m + {#t#} \<Longrightarrow>
    queue_step (Finish t) s (s\<lparr>qu_running := m, qu_done := qu_done s @ [t], qu_idle := Suc (qu_idle s)\<rparr>)"
| leaves: "qu_idle s = Suc k \<Longrightarrow> \<not> qu_open s \<Longrightarrow> qu_waiting s = [] \<Longrightarrow> queue_step Leave s (s\<lparr>qu_idle := k\<rparr>)"
| closes: "queue_step Close s (s\<lparr>qu_open := False\<rparr>)"

definition queue_new :: "nat \<Rightarrow> 't task_queue" where
  "queue_new n = \<lparr>qu_open = True, qu_waiting = [], qu_running = {#}, qu_done = [], qu_idle = n\<rparr>"

inductive queue_trace :: "nat \<Rightarrow> 't pool_event list \<Rightarrow> 't task_queue \<Rightarrow> bool" for n where
  start: "queue_trace n [] (queue_new n)"
| more: "queue_trace n es s \<Longrightarrow> queue_step e s s' \<Longrightarrow> queue_trace n (es @ [e]) s'"

text \<open>The steps of the pool with the label of what they do, read off the code's own state.\<close>

inductive pool_act :: "'t pool_event \<Rightarrow> 't ThreadPool \<Rightarrow> 't ThreadPool \<Rightarrow> bool" where
  submits: "ThreadPool_submit task p = (ok, p') \<Longrightarrow> pool_act (Submit task ok) p p'"
| takes: "workerLoop_wait i p = Some p' \<Longrightarrow> pl_threads p' ! i = Running t \<Longrightarrow> pool_act (Take t) p p'"
| leaves: "workerLoop_wait i p = Some p' \<Longrightarrow> pl_threads p' ! i = Exited \<Longrightarrow> pool_act Leave p p'"
| ends: "workerLoop_done i p = Some p' \<Longrightarrow> pl_threads p ! i = Running t \<Longrightarrow> pool_act (Finish t) p p'"
| stops: "pool_act Close p (ThreadPool_stop p)"

inductive pool_trace :: "nat \<Rightarrow> 't pool_event list \<Rightarrow> 't ThreadPool \<Rightarrow> bool" for n where
  start: "pool_trace n [] (ThreadPool_new n)"
| more: "pool_trace n es p \<Longrightarrow> pool_act e p p' \<Longrightarrow> pool_trace n (es @ [e]) p'"

definition idle_workers :: "'task ThreadPool \<Rightarrow> nat" where
  "idle_workers p = count_list (pl_threads p) Waiting"

definition pool_abs :: "'task ThreadPool \<Rightarrow> 'task task_queue" where
  "pool_abs p = \<lparr>qu_open = \<not> pl_stopped p, qu_waiting = pl_tasks p, qu_running = mset (running_tasks p),
                 qu_done = pl_finished p, qu_idle = idle_workers p\<rparr>"

lemma count_list_update:
  assumes "i < length xs"
  shows "count_list (xs[i := y]) a + (if xs ! i = a then 1 else 0) = count_list xs a + (if y = a then 1 else 0)"
  using assms
proof (induction xs arbitrary: i)
  case (Cons x xs)
  show ?case
  proof (cases i)
    case (Suc j)
    with Cons.prems Cons.IH [of j] show ?thesis by (auto split: if_splits)
  qed simp
qed simp

lemma idle_worker_index: "idle_workers p = Suc k \<Longrightarrow> \<exists>i < length (pl_threads p). pl_threads p ! i = Waiting"
  unfolding idle_workers_def by (metis count_notin in_set_conv_nth nat.distinct(1))

text \<open>What taking, finishing and leaving do to the abstract state.\<close>

lemma abs_take:
  assumes "i < length (pl_threads p)" and "pl_threads p ! i = Waiting" and "pl_tasks p = t # q"
  shows "pool_abs (p\<lparr>pl_tasks := q, pl_threads := (pl_threads p)[i := Running t], pl_started := st\<rparr>) =
    (pool_abs p)\<lparr>qu_waiting := q, qu_running := mset (running_tasks p) + {#t#}, qu_idle := idle_workers p - 1\<rparr>"
  using running_tasks_update [OF assms(1), of "Running t"] count_list_update [OF assms(1), of "Running t" Waiting] assms
  by (simp add: pool_abs_def idle_workers_def) (simp add: running_tasks_def)

lemma abs_leave:
  assumes "i < length (pl_threads p)" and "pl_threads p ! i = Waiting"
  shows "pool_abs (p\<lparr>pl_threads := (pl_threads p)[i := Exited]\<rparr>) = (pool_abs p)\<lparr>qu_idle := idle_workers p - 1\<rparr>"
  using running_tasks_update [OF assms(1), of Exited] count_list_update [OF assms(1), of Exited Waiting] assms
  by (simp add: pool_abs_def idle_workers_def)

lemma abs_finish:
  assumes "i < length (pl_threads p)" and "pl_threads p ! i = Running t"
  shows "pool_abs (p\<lparr>pl_threads := (pl_threads p)[i := Waiting], pl_finished := pl_finished p @ [t]\<rparr>) =
    (pool_abs p)\<lparr>qu_running := mset (running_tasks p) - {#t#}, qu_done := pl_finished p @ [t], qu_idle := Suc (idle_workers p)\<rparr>"
  using running_tasks_update [OF assms(1), of Waiting] count_list_update [OF assms(1), of Waiting Waiting] assms
  by (simp add: pool_abs_def idle_workers_def) (metis add_mset_remove_trivial)

lemma in_mset_running: "t \<in># mset (running_tasks p) \<longleftrightarrow> Running t \<in> set (pl_threads p)"
proof -
  have "t \<in> set (running_of w) \<longleftrightarrow> w = Running t" for w by (cases w) auto
  then show ?thesis by (auto simp: running_tasks_def)
qed

lemma running_task_index: "t \<in># mset (running_tasks p) \<Longrightarrow> \<exists>i < length (pl_threads p). pl_threads p ! i = Running t"
  by (metis in_mset_running in_set_conv_nth)

lemma idle_positive: "i < length (pl_threads p) \<Longrightarrow> pl_threads p ! i = Waiting \<Longrightarrow> idle_workers p = Suc (idle_workers p - 1)"
  unfolding idle_workers_def by (metis Suc_pred' count_list_0_iff neq0_conv nth_mem)

lemma running_in: "i < length (pl_threads p) \<Longrightarrow> pl_threads p ! i = Running t \<Longrightarrow> t \<in># mset (running_tasks p)"
  by (metis in_mset_running nth_mem)

text \<open>The pool and the queue simulate each other, label by label.\<close>

lemma workerLoop_wait_takes:
  assumes "workerLoop_wait i p = Some p'" and "pl_threads p' ! i = Running t"
  shows "i < length (pl_threads p) \<and> pl_threads p ! i = Waiting \<and> (\<exists>q. pl_tasks p = t # q \<and>
    p' = p\<lparr>pl_tasks := q, pl_threads := (pl_threads p)[i := Running t], pl_started := pl_started p @ [t]\<rparr>)"
  using assms by (cases "pl_tasks p") (auto simp: workerLoop_wait_def split: if_splits)

lemma workerLoop_wait_leaves:
  assumes "workerLoop_wait i p = Some p'" and "pl_threads p' ! i = Exited"
  shows "i < length (pl_threads p) \<and> pl_threads p ! i = Waiting \<and> pl_stopped p \<and> pl_tasks p = [] \<and>
    p' = p\<lparr>pl_threads := (pl_threads p)[i := Exited]\<rparr>"
  using assms by (auto simp: workerLoop_wait_def split: if_splits)

lemma workerLoop_done_ends:
  assumes "workerLoop_done i p = Some p'" and "pl_threads p ! i = Running t"
  shows "i < length (pl_threads p) \<and> p' = p\<lparr>pl_threads := (pl_threads p)[i := Waiting], pl_finished := pl_finished p @ [t]\<rparr>"
  using assms by (auto simp: workerLoop_done_def split: if_splits)

lemma queue_step_submit:
  "ThreadPool_submit task p = (ok, p') \<Longrightarrow> queue_step (Submit task ok) (pool_abs p) (pool_abs p')"
  using queue_step.accepts [of "pool_abs p"] queue_step.refuses [of "pool_abs p"] queue_step.refuses_empty [of "pool_abs p"]
  by (cases task; cases "pl_stopped p") (auto simp: ThreadPool_submit_def pool_abs_def idle_workers_def)

lemma pool_act_queue:
  assumes "pool_act e p p'"
  shows "queue_step e (pool_abs p) (pool_abs p')"
  using assms
proof cases
  case (submits task ok)
  then show ?thesis by (simp add: queue_step_submit)
next
  case (takes i t)
  obtain q where i: "i < length (pl_threads p)" "pl_threads p ! i = Waiting" "pl_tasks p = t # q" and
    p': "p' = p\<lparr>pl_tasks := q, pl_threads := (pl_threads p)[i := Running t], pl_started := pl_started p @ [t]\<rparr>"
    using workerLoop_wait_takes [OF takes(2,3)] by blast
  show ?thesis
    using queue_step.takes [of "pool_abs p" "idle_workers p - 1" t q] idle_positive [OF i(1,2)] i(3)
    unfolding takes(1) p' abs_take [OF i] by (simp add: pool_abs_def)
next
  case (leaves i)
  have i: "i < length (pl_threads p)" "pl_threads p ! i = Waiting" and p: "pl_stopped p" "pl_tasks p = []" and
    p': "p' = p\<lparr>pl_threads := (pl_threads p)[i := Exited]\<rparr>"
    using workerLoop_wait_leaves [OF leaves(2,3)] by simp_all
  show ?thesis
    using queue_step.leaves [of "pool_abs p" "idle_workers p - 1"] idle_positive [OF i] p
    unfolding leaves(1) p' abs_leave [OF i] by (simp add: pool_abs_def)
next
  case (ends i t)
  have i: "i < length (pl_threads p)" "pl_threads p ! i = Running t" and
    p': "p' = p\<lparr>pl_threads := (pl_threads p)[i := Waiting], pl_finished := pl_finished p @ [t]\<rparr>"
    using workerLoop_done_ends [OF ends(2,3)] ends(3) by simp_all
  show ?thesis
    using queue_step.finishes [of "pool_abs p" "mset (running_tasks p) - {#t#}" t] running_in [OF i]
    unfolding ends(1) p' abs_finish [OF i] by (simp add: pool_abs_def)
next
  case stops
  then show ?thesis using queue_step.closes [of "pool_abs p"] by (simp add: ThreadPool_stop_def pool_abs_def idle_workers_def)
qed

lemma queue_step_pool:
  assumes "queue_step e (pool_abs p) s"
  shows "\<exists>p'. pool_act e p p' \<and> pool_abs p' = s"
  using assms
proof cases
  case (accepts t)
  then have "ThreadPool_submit (Some t) p = (True, p\<lparr>pl_tasks := pl_tasks p @ [t], pl_accepted := pl_accepted p @ [t]\<rparr>)"
    by (simp add: ThreadPool_submit_def pool_abs_def)
  with accepts show ?thesis
    by (intro exI conjI) (auto intro!: pool_act.submits simp: pool_abs_def idle_workers_def)
next
  case (refuses t)
  then have "ThreadPool_submit (Some t) p = (False, p)" by (simp add: ThreadPool_submit_def pool_abs_def)
  with refuses show ?thesis by (auto dest: pool_act.submits)
next
  case refuses_empty
  have "ThreadPool_submit None p = (False, p)" by (simp add: ThreadPool_submit_def)
  with refuses_empty show ?thesis by (auto dest: pool_act.submits)
next
  case (takes k t q)
  then obtain i where i: "i < length (pl_threads p)" "pl_threads p ! i = Waiting" and t: "pl_tasks p = t # q"
    using idle_worker_index [of p k] by (auto simp: pool_abs_def)
  let ?p' = "p\<lparr>pl_tasks := q, pl_threads := (pl_threads p)[i := Running t], pl_started := pl_started p @ [t]\<rparr>"
  have "workerLoop_wait i p = Some ?p'" using i t by (simp add: workerLoop_wait_def)
  then have "pool_act (Take t) p ?p'" by (rule pool_act.takes) (simp add: i(1))
  moreover have "pool_abs ?p' = s" unfolding abs_take [OF i t] takes(2) using takes(3) by (simp add: pool_abs_def)
  ultimately show ?thesis using takes(1) by blast
next
  case (finishes m t)
  then obtain i where i: "i < length (pl_threads p)" "pl_threads p ! i = Running t"
    using running_task_index [of t p] by (auto simp: pool_abs_def)
  let ?p' = "p\<lparr>pl_threads := (pl_threads p)[i := Waiting], pl_finished := pl_finished p @ [t]\<rparr>"
  have "workerLoop_done i p = Some ?p'" using i by (simp add: workerLoop_done_def)
  then have "pool_act (Finish t) p ?p'" using i(2) by (rule pool_act.ends)
  moreover have "pool_abs ?p' = s" unfolding abs_finish [OF i] finishes(2) using finishes(3) by (simp add: pool_abs_def)
  ultimately show ?thesis using finishes(1) by blast
next
  case (leaves k)
  then obtain i where i: "i < length (pl_threads p)" "pl_threads p ! i = Waiting"
    using idle_worker_index [of p k] by (auto simp: pool_abs_def)
  let ?p' = "p\<lparr>pl_threads := (pl_threads p)[i := Exited]\<rparr>"
  have "workerLoop_wait i p = Some ?p'" using i leaves(4,5) by (simp add: workerLoop_wait_def pool_abs_def)
  then have "pool_act Leave p ?p'" by (rule pool_act.leaves) (simp add: i(1))
  moreover have "pool_abs ?p' = s" unfolding abs_leave [OF i] leaves(2) using leaves(3) by (simp add: pool_abs_def)
  ultimately show ?thesis using leaves(1) by blast
next
  case closes
  then show ?thesis using pool_act.stops [of p]
    by (intro exI [of _ "ThreadPool_stop p"]) (simp add: pool_abs_def ThreadPool_stop_def idle_workers_def)
qed

lemma queue_new_abs: "pool_abs (ThreadPool_new n :: 'a ThreadPool) = queue_new n"
proof -
  have "count_list (replicate n (Waiting :: 'a worker)) Waiting = n" by (induction n) simp_all
  moreover have "concat (map running_of (replicate n (Waiting :: 'a worker))) = []" by simp
  ultimately show ?thesis by (simp add: pool_abs_def ThreadPool_new_def queue_new_def idle_workers_def running_tasks_def)
qed

lemma pool_trace_queue: "pool_trace n es p \<Longrightarrow> queue_trace n es (pool_abs p)"
  by (induction rule: pool_trace.induct) (auto simp: queue_new_abs intro: queue_trace.intros pool_act_queue)

lemma queue_trace_pool: "queue_trace n es s \<Longrightarrow> \<exists>p. pool_trace n es p \<and> pool_abs p = s"
proof (induction rule: queue_trace.induct)
  case start
  show ?case by (intro exI conjI) (rule pool_trace.start, rule queue_new_abs)
next
  case (more es s e s')
  then obtain p where p: "pool_trace n es p" "pool_abs p = s" by blast
  from queue_step_pool [OF more.hyps(2) [folded p(2)]] obtain p' where "pool_act e p p'" "pool_abs p' = s'" by auto
  with pool_trace.more [OF p(1)] show ?case by metis
qed

text \<open>The labels name every step: unlabelled and labelled steps reach the same states.\<close>

lemma pool_step_act: "pool_step p p' \<Longrightarrow> \<exists>e. pool_act e p p'"
proof (erule pool_stepE)
  fix i assume w: "workerLoop_wait i p = Some p'"
  then have "pl_threads p' ! i = Exited \<or> (\<exists>t. pl_threads p' ! i = Running t)"
    by (auto simp: workerLoop_wait_def split: if_splits)
  then show ?thesis using pool_act.takes [OF w] pool_act.leaves [OF w] by blast
next
  fix i assume w: "workerLoop_done i p = Some p'"
  then have "\<exists>t. pl_threads p ! i = Running t" by (auto simp: workerLoop_done_def split: if_splits worker.splits)
  then show ?thesis using pool_act.ends [OF w] by blast
qed (auto intro: pool_act.submits pool_act.stops)

lemma pool_act_step: "pool_act e p p' \<Longrightarrow> pool_step p p'"
  by (induction rule: pool_act.induct) (auto intro: pool_step.intros)

lemma pool_reachable_trace: "pool_reachable n p \<longleftrightarrow> (\<exists>es. pool_trace n es p)"
proof
  show "pool_reachable n p \<Longrightarrow> \<exists>es. pool_trace n es p"
    by (induction rule: pool_reachable.induct) (blast intro: pool_trace.start pool_trace.more dest: pool_step_act)+
  have "pool_trace n es p \<Longrightarrow> pool_reachable n p" for es
    by (induction rule: pool_trace.induct) (blast intro: pool_reachable.init pool_reachable.step pool_act_step)+
  then show "\<exists>es. pool_trace n es p \<Longrightarrow> pool_reachable n p" by blast
qed

lemma length_running_of: "length (concat (map running_of ws)) \<le> length ws"
proof (induction ws)
  case (Cons w ws)
  then show ?case by (cases w) simp_all
qed simp

section \<open>Properties\<close>

text \<open>
  Tasks are run once and in order. In every reachable state of the pool the started tasks
  followed by the waiting ones are exactly the accepted tasks in the order of acceptance, and each
  started task is either running or finished; no task is lost, repeated or overtaken at the queue.
\<close>

theorem pool_runs_once:
  assumes "pool_reachable n p"
  shows "pl_started p @ pl_tasks p = pl_accepted p \<and> mset (pl_started p) = mset (running_tasks p) + mset (pl_finished p) \<and>
    length (running_tasks p) \<le> n"
proof -
  have "length (running_tasks p) \<le> n" using length_threads [OF assms] length_running_of [of "pl_threads p"]
    by (simp add: running_tasks_def)
  with pool_ok_reachable [OF assms] show ?thesis by (simp add: pool_ok_def)
qed


text \<open>
  When all threads of a pool that has any have left, the queue is empty and every accepted task has
  been run to its end; the comment at the destructor (\<^verbatim>\<open>ThreadPool.cc:27\<close>) says instead that tasks not
  yet started are discarded.
\<close>

lemma pool_drains:
  assumes "pool_reachable n p" and "0 < n" and "ThreadPool_joined p"
  shows "pl_stopped p \<and> pl_tasks p = [] \<and> mset (pl_finished p) = mset (pl_accepted p)"
proof -
  have ok: "pool_ok p" by (rule pool_ok_reachable [OF assms(1)])
  have "Exited \<in> set (pl_threads p)"
    using assms(2,3) length_threads [OF assms(1)] by (cases "pl_threads p") (simp_all add: ThreadPool_joined_def)
  moreover from assms(3) have "running_tasks p = []"
    by (fastforce simp: running_tasks_def ThreadPool_joined_def list_all_iff)
  ultimately have p: "pl_stopped p" "pl_tasks p = []" "pl_started p @ pl_tasks p = pl_accepted p" "mset (pl_started p) = mset (pl_finished p)"
    using ok unfolding pool_ok_def by auto
  then show ?thesis by (metis append_Nil2)
qed

text \<open>
  Shutdown ends. Once the pool is stopped, as long as a thread has not left its loop some thread
  can take a step, and every step of a thread lowers a natural number; so, if the tasks themselves
  end, the destructor returns.
\<close>

theorem pool_shutdown_ends:
  assumes "pl_stopped p"
  shows "(ThreadPool_joined p \<or> (\<exists>i p'. workerLoop_wait i p = Some p' \<or> workerLoop_done i p = Some p')) \<and>
    (\<forall>i p'. workerLoop_wait i p = Some p' \<or> workerLoop_done i p = Some p' \<longrightarrow> pool_work p' < pool_work p)"
  using stopped_progress [OF assms] work_wait work_done by blast

section \<open>Witnesses\<close>

text \<open>One worker, one task, then the stop.\<close>

definition demo_pool :: "nat ThreadPool" where
  "demo_pool = ThreadPool_stop (snd (ThreadPool_submit (Some 7) (ThreadPool_new 1)))"

lemma demo_pool_reachable: "pool_reachable 1 demo_pool"
  unfolding demo_pool_def
  by (rule pool_reachable.step [OF pool_reachable.step [OF pool_reachable.init pool_step.submits [OF surjective_pairing]] pool_step.stops])

lemma demo_pool_end:
  "pool_reachable 1 \<lparr>pl_tasks = [], pl_stopped = True, pl_threads = [Exited], pl_accepted = [7::nat], pl_started = [7], pl_finished = [7]\<rparr>"
proof -
  let ?p1 = "\<lparr>pl_tasks = [], pl_stopped = True, pl_threads = [Running 7], pl_accepted = [7::nat], pl_started = [7], pl_finished = []\<rparr>"
  let ?p2 = "\<lparr>pl_tasks = [], pl_stopped = True, pl_threads = [Waiting], pl_accepted = [7::nat], pl_started = [7], pl_finished = [7]\<rparr>"
  have "workerLoop_wait 0 demo_pool = Some ?p1" "workerLoop_done 0 ?p1 = Some ?p2"
    by (simp_all add: demo_pool_def eval_simps)
  then have "pool_reachable 1 ?p2"
    by (meson demo_pool_reachable pool_reachable.step pool_step.waits pool_step.ends)
  moreover have "workerLoop_wait 0 ?p2 = Some \<lparr>pl_tasks = [], pl_stopped = True, pl_threads = [Exited], pl_accepted = [7::nat], pl_started = [7], pl_finished = [7]\<rparr>"
    by (simp add: eval_simps)
  ultimately show ?thesis by (meson pool_reachable.step pool_step.waits)
qed

theorem pool_runs_once_witness: "pool_reachable 1 demo_pool \<and> pl_started demo_pool @ pl_tasks demo_pool = [7]"
  using pool_runs_once [OF demo_pool_reachable] demo_pool_reachable by (simp add: demo_pool_def eval_simps)

text \<open>One task is accepted, taken and ended; after the stop a second one is refused and the worker leaves.\<close>

lemma demo_queue_trace:
  "queue_trace 1 [Submit (Some 7) True, Take 7, Close, Submit (Some 8) False, Finish 7, Leave]
     \<lparr>qu_open = False, qu_waiting = [], qu_running = {#}, qu_done = [7::nat], qu_idle = 0\<rparr>"
proof -
  let ?s = "\<lambda>opn ws rs ds k. \<lparr>qu_open = opn, qu_waiting = ws, qu_running = rs, qu_done = ds, qu_idle = k\<rparr> :: nat task_queue"
  have 0: "queue_trace 1 [] (?s True [] {#} [] 1)" using queue_trace.start [of 1] by (simp add: queue_new_def)
  have 1: "queue_step (Submit (Some 7) True) (?s True [] {#} [] 1) (?s True [7] {#} [] 1)"
    using queue_step.accepts [of "?s True [] {#} [] 1" 7] by simp
  have 2: "queue_step (Take 7) (?s True [7] {#} [] 1) (?s True [] {#7#} [] 0)"
    using queue_step.takes [of "?s True [7] {#} [] 1" 0 7 "[]"] by simp
  have 3: "queue_step Close (?s True [] {#7#} [] 0) (?s False [] {#7#} [] 0)"
    using queue_step.closes [of "?s True [] {#7#} [] 0"] by simp
  have 4: "queue_step (Submit (Some 8) False) (?s False [] {#7#} [] 0) (?s False [] {#7#} [] 0)"
    by (rule queue_step.refuses) simp
  have 5: "queue_step (Finish 7) (?s False [] {#7#} [] 0) (?s False [] {#} [7] 1)"
    using queue_step.finishes [of "?s False [] {#7#} [] 0" "{#}" 7] by simp
  have 6: "queue_step Leave (?s False [] {#} [7] 1) (?s False [] {#} [7] 0)"
    using queue_step.leaves [of "?s False [] {#} [7] 1" 0] by simp
  note m = queue_trace.more
  show ?thesis using m [OF m [OF m [OF m [OF m [OF m [OF 0 1] 2] 3] 4] 5] 6] by simp
qed


lemma pool_drains_witness:
  "mset (pl_finished \<lparr>pl_tasks = [], pl_stopped = True, pl_threads = [Exited], pl_accepted = [7::nat], pl_started = [7], pl_finished = [7]\<rparr>) = {#7#}"
  using pool_drains [OF demo_pool_end] by (simp add: eval_simps)

theorem pool_shutdown_ends_witness:
  "\<exists>i p'. workerLoop_wait i demo_pool = Some p' \<or> workerLoop_done i demo_pool = Some p'"
  using pool_shutdown_ends [of demo_pool] by (simp add: demo_pool_def eval_simps)

end
