(* ===== verification/Node.thy ===== *)
theory Node
  imports MqClient ThreadPool
begin

text \<open>
  The state of one process beyond the database: the publisher's connection and what the broker
  stored, the flags of the timer tasks, and the consumer's side (its connection, the deliveries it
  answered, the requests it sent to the merchant and the time it slept). Computations on the
  database or on the publisher are lifted to the whole state.
\<close>

datatype amqp_command =
    ExchangeDeclare string string \<comment> \<open>name and type\<close>
  | QueueDeclare string "(string \<times> string) list" \<comment> \<open>name and arguments\<close>
  | QueueBind string string string \<comment> \<open>queue, exchange and routing key\<close>
  | BasicConsume string \<comment> \<open>queue, with manual acknowledgement\<close>

record http_request =
  hr_base :: string \<comment> \<open>the address the client connects to\<close>
  hr_path :: string
  hr_requestId :: string \<comment> \<open>header \<open>X-Request-Id\<close>\<close>
  hr_body :: string

record consumer_conn =
  cc_conn :: bool \<comment> \<open>\<open>conn_\<close> of the consumer is not null\<close>
  cc_open :: nat \<comment> \<open>connections created and not destroyed\<close>
  cc_calls :: nat \<comment> \<open>calls of the library so far\<close>
  cc_declared :: "amqp_command list" \<comment> \<open>topology commands the broker accepted\<close>
  cc_answers :: "(nat \<times> bool) list" \<comment> \<open>delivery tag, and whether it was acknowledged\<close>

record node =
  nd_world :: world
  nd_mq :: mq
  nd_mqClient :: bool \<comment> \<open>\<open>MessageRelayTask::mqClient_\<close> is not null\<close>
  nd_relaying :: bool \<comment> \<open>\<open>MessageRelayTask::running_\<close>\<close>
  nd_reconciling :: bool \<comment> \<open>\<open>ReconcileTask::running_\<close>\<close>
  nd_consumer :: consumer_conn
  nd_notifyBaseUrl :: string \<comment> \<open>\<open>NotifyConsumer::notifyBaseUrl_\<close>\<close>
  nd_requests :: "http_request list" \<comment> \<open>POST requests sent to the merchant\<close>
  nd_slept :: int \<comment> \<open>seconds the consumer slept\<close>

type_synonym 'a node_act = "(node, exn, 'a) eff"

definition on_db :: "'a act \<Rightarrow> 'a node_act" where
  "on_db m s = map_option (\<lambda>(r, w). (r, s\<lparr>nd_world := w\<rparr>)) (m (nd_world s))"

definition on_mq :: "'a mqact \<Rightarrow> 'a node_act" where
  "on_mq m s = map_option (\<lambda>(r, q). (r, s\<lparr>nd_mq := q\<rparr>)) (m (nd_mq s))"

text \<open>Database operations evaluate inside the larger state.\<close>

definition relift_db :: "node \<Rightarrow> ((exn + 'a) \<times> world) option \<Rightarrow> ((exn + 'a) \<times> node) option" where
  "relift_db s r = map_option (\<lambda>(r, w). (r, s\<lparr>nd_world := w\<rparr>)) r"

definition relift_mq :: "node \<Rightarrow> ((exn + 'a) \<times> mq) option \<Rightarrow> ((exn + 'a) \<times> node) option" where
  "relift_mq s r = map_option (\<lambda>(r, q). (r, s\<lparr>nd_mq := q\<rparr>)) r"

lemma eval_on_db [eval_simps]:
  "on_db m s = relift_db s (m (nd_world s))" "relift_db s None = None" "relift_db s (Some (r, w)) = Some (r, s\<lparr>nd_world := w\<rparr>)"
  by (simp_all add: on_db_def relift_db_def)

lemma eval_on_mq [eval_simps]:
  "on_mq m s = relift_mq s (m (nd_mq s))" "relift_mq s None = None" "relift_mq s (Some (r, q)) = Some (r, s\<lparr>nd_mq := q\<rparr>)"
  by (simp_all add: on_mq_def relift_mq_def)

section \<open>Lifting\<close>

lemma on_db_eq [eff_simps]:
  "on_db m s = Some (r, t) \<longleftrightarrow> (\<exists>w. m (nd_world s) = Some (r, w) \<and> t = s\<lparr>nd_world := w\<rparr>)"
  by (auto simp: on_db_def)

lemma on_mq_eq [eff_simps]:
  "on_mq m s = Some (r, t) \<longleftrightarrow> (\<exists>q. m (nd_mq s) = Some (r, q) \<and> t = s\<lparr>nd_mq := q\<rparr>)"
  by (auto simp: on_mq_def)

definition in_world :: "(world \<Rightarrow> bool) \<Rightarrow> node \<Rightarrow> bool" where
  "in_world P s \<longleftrightarrow> P (nd_world s)"

lemma in_world_on_db [preserves_intro]: "preserves P m \<Longrightarrow> preserves (in_world P) (on_db m)"
  by (rule preservesI) (auto simp: eff_simps in_world_def dest: preservesD)

lemma in_world_on_mq [preserves_intro]: "preserves (in_world P) (on_mq m)"
  by (rule preservesI) (auto simp: eff_simps in_world_def)

lemma raises_on_db [preserves_intro]: "raises_only E m \<Longrightarrow> raises_only E (on_db m)"
  by (rule raises_onlyI) (auto simp: eff_simps dest: raises_onlyD)

lemma total_on_mq [preserves_intro]: "total_act m \<Longrightarrow> total_act (on_mq m)"
  unfolding total_act_def on_mq_def by (metis case_prod_conv option.map(2))

lemma total_on_db [preserves_intro]: "total_act m \<Longrightarrow> total_act (on_db m)"
  unfolding total_act_def on_db_def by (metis case_prod_conv option.map(2))

section \<open>Timer tasks\<close>

text \<open>
  The pattern that the two timer tasks share: a tick skips when the flag is set; else it sets the
  flag, and the worker runs the body and resets the flag when the body returns.
\<close>

locale timer_task =
  fixes flag :: "node \<Rightarrow> bool" and set_flag :: "bool \<Rightarrow> node \<Rightarrow> node" and body :: "unit node_act" and tick :: "unit node_act"
  assumes flag_set: "flag (set_flag b s) = b"
    and tick_busy: "flag s \<Longrightarrow> tick s = Some (Inr (), s)"
    and tick_idle: "\<not> flag s \<Longrightarrow> tick s = worker_run (bnd body (\<lambda>_. modify (set_flag False))) (set_flag True s)"
    and body_flag: "body s = Some (r, t) \<Longrightarrow> flag t = flag s"
begin

lemma released:
  assumes "\<not> flag s" and "body (set_flag True s) = Some (Inr (), t)"
  shows "tick s = Some (Inr (), set_flag False t) \<and> \<not> flag (set_flag False t)"
  using assms by (simp add: tick_idle worker_run_def try_catch_def bnd_def modify_def flag_set)

text \<open>A body that throws leaves the flag set, and the task is dead.\<close>

lemma stuck:
  assumes "\<not> flag s" and "body (set_flag True s) = Some (Inl x, t)"
  shows "tick s = Some (Inr (), t) \<and> (\<forall>n. run_ops (\<lambda>_. tick) (replicate n ()) t = Some (replicate n (Inr ()), t))"
proof
  show "tick s = Some (Inr (), t)"
    using assms by (simp add: tick_idle worker_run_def try_catch_def bnd_def ret_def)
  from body_flag [OF assms(2)] have "flag t" by (simp add: flag_set)
  then have "tick t = Some (Inr (), t)" by (rule tick_busy)
  then have "run_ops (\<lambda>_. tick) (replicate n ()) t = Some (replicate n (Inr ()), t)" for n
    by (induction n) simp_all
  then show "\<forall>n. run_ops (\<lambda>_. tick) (replicate n ()) t = Some (replicate n (Inr ()), t)" ..
qed

end

text \<open>Work on the database and on the publisher leaves the flags alone.\<close>

lemma flags_lifted [preserves_intro]:
  "preserves (\<lambda>s. nd_relaying s = b) (on_db m)" "preserves (\<lambda>s. nd_relaying s = b) (on_mq n)"
  "preserves (\<lambda>s. nd_reconciling s = b) (on_db m)" "preserves (\<lambda>s. nd_reconciling s = b) (on_mq n)"
  by (rule preservesI, auto simp: eff_simps)+

end
