(* ===== verification/DaoContracts.thy ===== *)
theory DaoContracts
  imports Database
begin

text \<open>
  What the data access objects promise to the services, as interfaces: a store whose level is lowered
  only by a conditional UPDATE (\<open>stock >= ?\<close>, \<open>balance >= ?\<close>), a table that deduplicates inserts by
  a unique key (\<open>ON DUPLICATE KEY UPDATE\<close> without effect), and a row that a conditional UPDATE
  moves out of its initial status at most once. The lemmas of a locale are what the services rely
  on; the data access theories interpret the locales on the statements of the code.
\<close>

section \<open>Conditional decrements\<close>

text \<open>Decrements in the order in which the server executes them, and the amounts it accepted.\<close>

fun run_decs :: "(int \<Rightarrow> 'd \<Rightarrow> 'd \<times> nat) \<Rightarrow> int list \<Rightarrow> 'd \<Rightarrow> 'd \<times> int list" where
  "run_decs dec [] d = (d, [])"
| "run_decs dec (q # qs) d =
     (case dec q d of (d1, k) \<Rightarrow>
        (case run_decs dec qs d1 of (d2, acc) \<Rightarrow> (d2, if k = 0 then acc else q # acc)))"

locale conditional_store =
  fixes dec :: "int \<Rightarrow> 'd \<Rightarrow> 'd \<times> nat"
    and level :: "'d \<Rightarrow> int option"
    and inv :: "'d \<Rightarrow> bool"
    and fits :: "int \<Rightarrow> bool"
  assumes dec_hit: "inv d \<Longrightarrow> fits q \<Longrightarrow> level d = Some s \<Longrightarrow> q \<le> s \<Longrightarrow>
      snd (dec q d) = 1 \<and> level (fst (dec q d)) = Some (s - q) \<and> inv (fst (dec q d))"
    and dec_miss: "inv d \<Longrightarrow> fits q \<Longrightarrow> (\<And>s. level d = Some s \<Longrightarrow> s < q) \<Longrightarrow> dec q d = (d, 0)"
begin

lemma dec_cases:
  assumes "inv d" and "fits q" and "dec q d = (d', k)"
  obtains (hit) s where "k = 1" "level d = Some s" "q \<le> s" "level d' = Some (s - q)" "inv d'"
    | (miss) "k = 0" "d' = d" "level d = None \<or> (\<exists>s. level d = Some s \<and> s < q)"
proof (cases "\<exists>s. level d = Some s \<and> q \<le> s")
  case True
  then obtain s where s: "level d = Some s" "q \<le> s" by blast
  with dec_hit [OF assms(1,2) s] assms(3) show ?thesis by (intro hit) auto
next
  case False
  then have lt: "\<And>s. level d = Some s \<Longrightarrow> s < q" by force
  from dec_miss [OF assms(1,2)] lt have "dec q d = (d, 0)" by blast
  moreover from lt have "level d = None \<or> (\<exists>s. level d = Some s \<and> s < q)" by (cases "level d") auto
  ultimately show ?thesis using assms(3) by (intro miss) auto
qed

text \<open>The level and the accepted amounts add up to the initial level, whatever was requested.\<close>

lemma conservation:
  "inv d \<Longrightarrow> level d = Some s \<Longrightarrow> run_decs dec qs d = (d', acc) \<Longrightarrow> \<forall>q \<in> set qs. fits q \<Longrightarrow>
   level d' = Some (s - sum_list acc) \<and> inv d'"
proof (induction qs arbitrary: d s acc)
  case Nil
  then show ?case by simp
next
  case (Cons q qs)
  obtain d1 k where d1: "dec q d = (d1, k)" by fastforce
  obtain acc1 where run: "run_decs dec qs d1 = (d', acc1)" and acc: "acc = (if k = 0 then acc1 else q # acc1)"
    using Cons.prems(3) d1 by (auto split: prod.splits)
  from Cons.prems have "fits q" and "\<forall>q \<in> set qs. fits q" by auto
  from Cons.prems(1) \<open>fits q\<close> d1 show ?case
  proof (cases rule: dec_cases)
    case (hit s')
    with Cons.prems(2) have "s' = s" by simp
    with \<open>\<forall>q \<in> set qs. fits q\<close> Cons.IH [OF hit(5,4) run] hit(1) acc show ?thesis by simp
  next
    case miss
    with \<open>\<forall>q \<in> set qs. fits q\<close> Cons.IH [OF _ _ run, of s] Cons.prems acc show ?thesis by simp
  qed
qed

text \<open>No sequence of non-negative requests takes out more than there was.\<close>

lemma never_oversold:
  assumes "inv d" and "level d = Some s" and "0 \<le> s" and "run_decs dec qs d = (d', acc)"
    and "\<forall>q \<in> set qs. 0 \<le> q" and "\<forall>q \<in> set qs. fits q"
  shows "sum_list acc \<le> s"
  using assms
proof (induction qs arbitrary: d s acc)
  case Nil
  then show ?case by simp
next
  case (Cons q qs)
  obtain d1 k where d1: "dec q d = (d1, k)" by fastforce
  obtain acc1 where run: "run_decs dec qs d1 = (d', acc1)" and acc: "acc = (if k = 0 then acc1 else q # acc1)"
    using Cons.prems(4) d1 by (auto split: prod.splits)
  from Cons.prems have "fits q" and "\<forall>q \<in> set qs. fits q" by auto
  from Cons.prems(1) \<open>fits q\<close> d1 show ?case
  proof (cases rule: dec_cases)
    case (hit s')
    with Cons.prems(2) have "s' = s" by simp
    with \<open>\<forall>q \<in> set qs. fits q\<close> Cons.IH [OF hit(5,4) _ run] hit(1,3) acc Cons.prems(5) show ?thesis by simp
  next
    case miss
    with Cons.IH [OF _ _ _ run, of s] Cons.prems acc show ?thesis by simp
  qed
qed

text \<open>Of \<open>n\<close> requests for one unit exactly as many succeed as there were units, if not all.\<close>

lemma unit_requests:
  assumes "inv d" and "level d = Some s" and "0 \<le> s" and "run_decs dec (replicate n 1) d = (d', acc)"
    and "fits 1"
  shows "length acc = min n (nat s)"
  using assms
proof (induction n arbitrary: d s acc)
  case 0
  then show ?case by simp
next
  case (Suc n)
  obtain d1 k where d1: "dec 1 d = (d1, k)" by fastforce
  obtain acc1 where run: "run_decs dec (replicate n 1) d1 = (d', acc1)"
    and acc: "acc = (if k = 0 then acc1 else 1 # acc1)"
    using Suc.prems(4) d1 by (auto split: prod.splits)
  from Suc.prems(1,5) d1 show ?case
  proof (cases rule: dec_cases)
    case (hit s')
    with Suc.prems(2) have "s' = s" by simp
    with Suc.IH [OF hit(5,4) _ run] hit(1,3) acc Suc.prems(3,5) show ?thesis by (simp add: nat_diff_distrib)
  next
    case miss
    with Suc.prems(2,3) have "s = 0" by auto
    with miss Suc.IH [OF _ _ _ run, of s] Suc.prems acc show ?thesis by simp
  qed
qed

end

section \<open>Inserts deduplicated by a unique key\<close>

fun run_ins :: "('r \<Rightarrow> 'd \<Rightarrow> 'd \<times> nat) \<Rightarrow> 'r list \<Rightarrow> 'd \<Rightarrow> 'd \<times> 'r list" where
  "run_ins ins [] d = (d, [])"
| "run_ins ins (r # rs) d =
     (case ins r d of (d1, k) \<Rightarrow>
        (case run_ins ins rs d1 of (d2, acc) \<Rightarrow> (d2, if k = 1 then r # acc else acc)))"

locale dedup_store =
  fixes ins :: "'r \<Rightarrow> 'd \<Rightarrow> 'd \<times> nat"
    and lookup :: "'k \<Rightarrow> 'd \<Rightarrow> 'r option"
    and key :: "'r \<Rightarrow> 'k"
  assumes ins_dup: "lookup (key r) d \<noteq> None \<Longrightarrow> ins r d = (d, 0)"
    and ins_outcome: "snd (ins r d) = 1 \<or> ins r d = (d, 0)"
    and ins_fresh: "snd (ins r d) = 1 \<Longrightarrow>
      lookup k (fst (ins r d)) = (if k = key r then Some r else lookup k d)"
begin

text \<open>The row of a key is the one that came first; nothing that follows replaces it.\<close>

lemma lookup_ins: "lookup k d = Some r0 \<Longrightarrow> lookup k (fst (ins r d)) = Some r0"
proof (cases "snd (ins r d) = 1")
  case True
  assume "lookup k d = Some r0"
  with ins_dup [of r d] True have "k \<noteq> key r" by auto
  with ins_fresh [OF True, of k] \<open>lookup k d = Some r0\<close> show ?thesis by simp
next
  case False
  assume "lookup k d = Some r0"
  with False ins_outcome [of r d] show ?thesis by auto
qed

lemma first_wins: "lookup k d = Some r0 \<Longrightarrow> run_ins ins rs d = (d', acc) \<Longrightarrow>
   lookup k d' = Some r0 \<and> (\<forall>r \<in> set acc. key r \<noteq> k)"
proof (induction rs arbitrary: d acc)
  case Nil
  then show ?case by simp
next
  case (Cons r rs)
  obtain d1 m where ins: "ins r d = (d1, m)" by fastforce
  obtain acc1 where run: "run_ins ins rs d1 = (d', acc1)" and acc: "acc = (if m = 1 then r # acc1 else acc1)"
    using Cons.prems(2) ins by (auto split: prod.splits)
  from lookup_ins [OF Cons.prems(1), of r] ins have "lookup k d1 = Some r0" by simp
  note IH = Cons.IH [OF this run]
  have "m = 1 \<Longrightarrow> key r \<noteq> k" using ins_dup [of r d] ins Cons.prems(1) by auto
  with IH acc show ?case by auto
qed

text \<open>Over any sequence of inserts each key is accepted at most once.\<close>

lemma accepted_once: "run_ins ins rs d = (d', acc) \<Longrightarrow> distinct (map key acc)"
proof (induction rs arbitrary: d acc)
  case Nil
  then show ?case by simp
next
  case (Cons r rs)
  obtain d1 m where ins: "ins r d = (d1, m)" by fastforce
  obtain acc1 where run: "run_ins ins rs d1 = (d', acc1)" and acc: "acc = (if m = 1 then r # acc1 else acc1)"
    using Cons.prems ins by (auto split: prod.splits)
  show ?case
  proof (cases "m = 1")
    case True
    with ins_fresh [of r d "key r"] ins have "lookup (key r) d1 = Some r" by simp
    from first_wins [OF this run] Cons.IH [OF run] acc True show ?thesis by auto
  next
    case False
    with acc Cons.IH [OF run] show ?thesis by simp
  qed
qed

end

section \<open>Status transitions that happen once\<close>

fun repeat_upd :: "('d \<Rightarrow> 'd \<times> nat) \<Rightarrow> nat \<Rightarrow> 'd \<Rightarrow> 'd \<times> nat" where
  "repeat_upd upd 0 d = (d, 0)"
| "repeat_upd upd (Suc n) d =
     (case upd d of (d1, k) \<Rightarrow> (case repeat_upd upd n d1 of (d2, m) \<Rightarrow> (d2, k + m)))"

locale one_shot =
  fixes upd :: "'d \<Rightarrow> 'd \<times> nat"
    and pending :: "'d \<Rightarrow> bool"
    and inv :: "'d \<Rightarrow> bool"
  assumes upd_hit: "inv d \<Longrightarrow> pending d \<Longrightarrow>
      snd (upd d) = 1 \<and> \<not> pending (fst (upd d)) \<and> inv (fst (upd d))"
    and upd_miss: "inv d \<Longrightarrow> \<not> pending d \<Longrightarrow> upd d = (d, 0)"
begin

lemma repeat_done: "inv d \<Longrightarrow> \<not> pending d \<Longrightarrow> repeat_upd upd n d = (d, 0)"
  by (induction n) (simp_all add: upd_miss)

text \<open>However often it is tried, the transition is made once and later tries change nothing.\<close>

lemma at_most_once:
  assumes "inv d" and "pending d"
  shows "repeat_upd upd (Suc n) d = (fst (upd d), 1)"
  using upd_hit [OF assms] repeat_done [of "fst (upd d)" n] by (simp split: prod.splits) auto

end

end
