(* ===== verification/LocalMessageDao.thy ===== *)
theory LocalMessageDao
  imports DaoContracts
begin

text \<open>
  \<^verbatim>\<open>src/dao/LocalMessageDao.cc\<close>: the outbox. Inserting a message belongs to the business transaction;
  scanning it and recording the outcome of a delivery are single statements on the default client.
\<close>

section \<open>Statements\<close>

definition message_row_for :: "env \<Rightarrow> LocalMessage \<Rightarrow> nat \<Rightarrow> message_row" where
  "message_row_for e m n =
     \<lparr>tl_message_id = msg_messageId m, tl_biz_type = msg_bizType m, tl_biz_id = msg_bizId m,
      tl_exchange = msg_exchange m, tl_routing_key = msg_routingKey m, tl_payload = msg_payload m,
      tl_status = 0, tl_retry_count = 0, tl_next_retry_time = db_now e n\<rparr>"

definition sql_insertMessage :: "env \<Rightarrow> LocalMessage \<Rightarrow> unit stmt" where
  "sql_insertMessage e m n d =
     (if list_ex (\<lambda>r. sql_eq e (tl_message_id r) (msg_messageId m)) (t_local_message d) then None
      else Some (d\<lparr>t_local_message := t_local_message d @ [message_row_for e m n]\<rparr>, ()))"

definition LocalMessageDao_insert :: "env \<Rightarrow> LocalMessage \<Rightarrow> unit act" where
  "LocalMessageDao_insert e m = execSqlSync_tx e (sql_insertMessage e m)"

definition message_of_row :: "message_row \<Rightarrow> LocalMessage" where
  "message_of_row r =
     \<lparr>msg_messageId = tl_message_id r, msg_bizType = tl_biz_type r, msg_bizId = tl_biz_id r,
      msg_exchange = tl_exchange r, msg_routingKey = tl_routing_key r, msg_payload = tl_payload r,
      msg_retryCount = tl_retry_count r\<rparr>"

text \<open>The due messages in the order of their primary key, at most \<open>limit\<close> of them.\<close>

definition due_messages :: "int \<Rightarrow> db \<Rightarrow> message_row list" where
  "due_messages now d = filter (\<lambda>r. tl_status r = 0 \<and> tl_next_retry_time r \<le> now) (t_local_message d)"

definition sql_scanPending :: "env \<Rightarrow> nat \<Rightarrow> LocalMessage list stmt" where
  "sql_scanPending e limit n d = Some (d, map message_of_row (take limit (due_messages (db_now e n) d)))"

definition LocalMessageDao_scanPending :: "env \<Rightarrow> nat \<Rightarrow> LocalMessage list act" where
  "LocalMessageDao_scanPending e limit = execSqlSync_auto e (sql_scanPending e limit)"

definition sql_markAcked :: "env \<Rightarrow> string \<Rightarrow> unit stmt" where
  "sql_markAcked e messageId n d =
     Some (d\<lparr>t_local_message := fst (update_where
        (\<lambda>r. sql_eq e (tl_message_id r) messageId \<and> tl_status r = 0)
        (\<lambda>r. r\<lparr>tl_status := 2\<rparr>) (t_local_message d))\<rparr>, ())"

definition LocalMessageDao_markAcked :: "env \<Rightarrow> string \<Rightarrow> unit act" where
  "LocalMessageDao_markAcked e messageId = execSqlSync_auto e (sql_markAcked e messageId)"

definition sql_markMessageFailed :: "env \<Rightarrow> string \<Rightarrow> int \<Rightarrow> int \<Rightarrow> unit stmt" where
  "sql_markMessageFailed e messageId retryCount backoffSeconds n d =
     Some (d\<lparr>t_local_message := fst (update_where
        (\<lambda>r. sql_eq e (tl_message_id r) messageId)
        (\<lambda>r. r\<lparr>tl_retry_count := retryCount, tl_next_retry_time := db_now e n + backoffSeconds\<rparr>)
        (t_local_message d))\<rparr>, ())"

definition LocalMessageDao_markFailed :: "env \<Rightarrow> string \<Rightarrow> int \<Rightarrow> int \<Rightarrow> unit act" where
  "LocalMessageDao_markFailed e messageId retryCount backoffSeconds =
     execSqlSync_auto e (sql_markMessageFailed e messageId retryCount backoffSeconds)"

definition sql_markGiveUp :: "env \<Rightarrow> string \<Rightarrow> unit stmt" where
  "sql_markGiveUp e messageId n d =
     Some (d\<lparr>t_local_message := fst (update_where
        (\<lambda>r. sql_eq e (tl_message_id r) messageId)
        (\<lambda>r. r\<lparr>tl_status := 3\<rparr>) (t_local_message d))\<rparr>, ())"

definition LocalMessageDao_markGiveUp :: "env \<Rightarrow> string \<Rightarrow> unit act" where
  "LocalMessageDao_markGiveUp e messageId = execSqlSync_auto e (sql_markGiveUp e messageId)"

lemmas message_dao_defs = sql_insertMessage_def LocalMessageDao_insert_def
  sql_scanPending_def LocalMessageDao_scanPending_def sql_markAcked_def LocalMessageDao_markAcked_def
  sql_markMessageFailed_def LocalMessageDao_markFailed_def sql_markGiveUp_def LocalMessageDao_markGiveUp_def

declare message_dao_defs [eval_simps] message_row_for_def [eval_simps] message_of_row_def [eval_simps]
  due_messages_def [eval_simps]

section \<open>Lemmas\<close>

definition message_row_of :: "env \<Rightarrow> string \<Rightarrow> db \<Rightarrow> message_row option" where
  "message_row_of e messageId d =
     first_where (\<lambda>r. ckey e (tl_message_id r) = ckey e messageId) (t_local_message d)"

text \<open>An update of the message with an identifier, seen by a later lookup.\<close>

lemma fst_update_where: "fst (update_where P f rows) = map (\<lambda>r. if P r then f r else r) rows"
  by (simp add: update_where_def)

lemma message_row_of_update:
  assumes "\<And>r. tl_message_id (f r) = tl_message_id r"
  shows "message_row_of e mid (d\<lparr>t_local_message := fst (update_where
           (\<lambda>r. sql_eq e (tl_message_id r) messageId) f (t_local_message d))\<rparr>) =
     map_option (\<lambda>r. if ckey e mid = ckey e messageId then f r else r) (message_row_of e mid d)"
  using assms by (simp add: message_row_of_def fst_update_where sql_eq_def first_where_map_keyed)

lemma message_row_of_markAcked:
  "message_row_of e mid (d\<lparr>t_local_message := fst (update_where
           (\<lambda>r. sql_eq e (tl_message_id r) messageId \<and> tl_status r = 0) (\<lambda>r. r\<lparr>tl_status := 2\<rparr>) (t_local_message d))\<rparr>) =
     map_option (\<lambda>r. if ckey e mid = ckey e messageId \<and> tl_status r = 0 then r\<lparr>tl_status := 2\<rparr> else r)
       (message_row_of e mid d)"
proof -
  let ?f = "\<lambda>r. if tl_status r = 0 then r\<lparr>tl_status := 2\<rparr> else r"
  have "fst (update_where (\<lambda>r. sql_eq e (tl_message_id r) messageId \<and> tl_status r = 0)
            (\<lambda>r. r\<lparr>tl_status := 2\<rparr>) (t_local_message d)) =
        fst (update_where (\<lambda>r. sql_eq e (tl_message_id r) messageId) ?f (t_local_message d))"
    by (simp add: update_where_def)
  then show ?thesis
    using message_row_of_update [of ?f e mid messageId d]
    by (cases "message_row_of e mid d") auto
qed

lemma schema_ok_insertMessage [preserves_intro]: "stmt_keeps (schema_ok e) (sql_insertMessage e m)"
  by (rule stmt_keepsI)
     (auto simp: sql_insertMessage_def list_ex_iff sql_eq_def schema_ok_def message_ok_def message_row_for_def
       split: if_splits, blast)

lemma schema_ok_scanPending [preserves_intro]: "stmt_keeps (schema_ok e) (sql_scanPending e limit)"
  by (rule stmt_keepsI) (auto simp: sql_scanPending_def)

lemma schema_ok_markAcked [preserves_intro]: "stmt_keeps (schema_ok e) (sql_markAcked e messageId)"
  by (rule stmt_keepsI) (auto simp: sql_markAcked_def schema_ok_def message_ok_def map_update_where)

lemma schema_ok_markMessageFailed [preserves_intro]:
  "stmt_keeps (schema_ok e) (sql_markMessageFailed e messageId k b)"
  by (rule stmt_keepsI) (auto simp: sql_markMessageFailed_def schema_ok_def message_ok_def map_update_where)

lemma schema_ok_markGiveUp [preserves_intro]: "stmt_keeps (schema_ok e) (sql_markGiveUp e messageId)"
  by (rule stmt_keepsI) (auto simp: sql_markGiveUp_def schema_ok_def message_ok_def map_update_where)

end
