(* ===== verification/Fixture.thy ===== *)
theory Fixture
  imports Database
begin

text \<open>
  A concrete environment and database: one product with two units in stock, one account, a clock
  that advances a millisecond per reading, a server without faults. The properties are applied to
  it where they have hypotheses, which shows that the hypotheses can hold.
\<close>

text \<open>The fixed-width decimal fields of a date and time.\<close>

definition text_field :: "nat \<Rightarrow> nat \<Rightarrow> string \<Rightarrow> int" where
  "text_field i k s = int (digits_value 0 (take k (drop i s)))"

definition march_year :: "int \<Rightarrow> int \<Rightarrow> int" where
  "march_year y m = (if m \<le> 2 then y - 1 else y)"

definition march_month :: "int \<Rightarrow> int" where
  "march_month m = (if m \<le> 2 then m + 9 else m - 3)"

definition days_from_civil :: "int \<Rightarrow> int \<Rightarrow> int \<Rightarrow> int" where
  "days_from_civil y m d =
     march_year y m div 400 * 146097 +
     (march_year y m mod 400 * 365 + march_year y m mod 400 div 4 - march_year y m mod 400 div 100 +
      ((153 * march_month m + 2) div 5 + d - 1)) - 719468"

definition demo_date_parse :: "string \<Rightarrow> int option" where
  "demo_date_parse s =
     (if length s = 10 then Some (days_from_civil (text_field 0 4 s) (text_field 5 2 s) (text_field 8 2 s)) else None)"

definition demo_dt_parse :: "string \<Rightarrow> int option" where
  "demo_dt_parse s =
     (if length s = 19 then
        Some (days_from_civil (text_field 0 4 s) (text_field 5 2 s) (text_field 8 2 s) * 86400 +
              text_field 11 2 s * 3600 + text_field 14 2 s * 60 + text_field 17 2 s)
      else None)"

definition demo_env :: env where
  "demo_env =
     \<lparr>clock_ns = (\<lambda>k. 1767225600000000000 + int k * 1000000), db_configured = True,
      begin_tx = (\<lambda>_. BeginOk), sql_fault = (\<lambda>_. False), db_now = (\<lambda>n. 1767254400 + int n),
      auto_id = (\<lambda>n. int n + 1), ckey = (\<lambda>s. s), cast_oor = (\<lambda>_. 0), dt_parse = demo_dt_parse,
      dt_format = datetime_text, date_parse = demo_date_parse, json_compact = (\<lambda>_. ''{}''),
      json_http = (\<lambda>_. ''{}''), json_styled = (\<lambda>_. ''{}''), json_parse = (\<lambda>_. Some JNull),
      hmac_sha256 = (\<lambda>_ _. replicate 32 (CHR ''w'')), sha256 = (\<lambda>_. replicate 32 (CHR ''w'')),
      custom_config = JObject [(''mock_channel'', JObject [(''secret'', JString ''k'')])],
      read_file = (\<lambda>_. None)\<rparr>"

definition demo_db :: db where
  "demo_db =
     \<lparr>t_product = [\<lparr>tp_id = 1, tp_product_no = ''P1'', tp_name = ''pen'', tp_price = 250, tp_stock = 2,
                     tp_version = 0, tp_status = 1\<rparr>],
      t_order = [], t_idempotent = [],
      t_account = [\<lparr>ta_account_no = ''A7'', ta_user_id = 7, ta_balance = 1000, ta_frozen_amount = 0,
                     ta_version = 0, ta_status = 0\<rparr>],
      t_account_flow = [], t_payment = [], t_local_message = [], t_notify_record = [],
      t_reconcile_batch = [], t_reconcile_diff = []\<rparr>"

definition demo_world :: world where
  "demo_world =
     \<lparr>w_db = demo_db, w_tx = demo_db, w_finished = True, w_gen = idgen_init, w_clk = 0, w_sql = 0\<rparr>"

definition demo_req :: "string \<Rightarrow> int64 \<Rightarrow> CreateOrderReq" where
  "demo_req requestId quantity =
     \<lparr>cor_requestId = requestId, cor_requestHash = ''h'', cor_userId = 7, cor_productId = 1, cor_quantity = quantity\<rparr>"

text \<open>The same environment with a clock that stands still.\<close>

definition still_env :: env where
  "still_env = demo_env\<lparr>clock_ns := (\<lambda>_. 1767225600000000000)\<rparr>"

lemmas demo_defs = demo_req_def still_env_def demo_env_def demo_db_def demo_world_def idgen_init_def

declare text_field_def [eval_simps] march_year_def [eval_simps] march_month_def [eval_simps]
  days_from_civil_def [eval_simps] demo_date_parse_def [eval_simps] demo_dt_parse_def [eval_simps]

lemma demo_req_simps [simp]:
  "cor_requestId (demo_req r q) = r" "cor_quantity (demo_req r q) = q" "cor_userId (demo_req r q) = 7"
  "cor_productId (demo_req r q) = 1"
  by (simp_all add: demo_req_def)

lemma demo_env_healthy [simp]: "healthy_from demo_env n"
  by (simp add: healthy_from_def demo_env_def)

lemma demo_db_schema [simp]: "schema_ok e demo_db"
  by (simp add: demo_db_def eval_simps)

end
