(* ===== verification/MessageRelayTask.thy ===== *)
theory MessageRelayTask
  imports Node LocalMessageDao Fixture
begin

text \<open>
  \<^verbatim>\<open>src/tasks/MessageRelayTask.h\<close>, \<^verbatim>\<open>src/tasks/MessageRelayTask.cc\<close>: the outbox relay. The timer callback
  queues one job at a time; the job scans the outbox, publishes each due message and records the
  outcome. The counters, which the code only logs, are the list of outcomes here.
\<close>

section \<open>The task\<close>

definition kBatchLimit :: nat where "kBatchLimit = 200"
definition kMaxRetries :: int where "kMaxRetries = 8"
definition kBaseBackoffSeconds :: int where "kBaseBackoffSeconds = 5"

text \<open>\<open>None\<close>: jsoncpp throws.\<close>

definition loadMqConfig :: "env \<Rightarrow> MqConfig option" where
  "loadMqConfig e =
     (case isMember (custom_config e) ''rabbitmq'' of
        None \<Rightarrow> None
      | Some False \<Rightarrow> Some MqConfig_default
      | Some True \<Rightarrow>
          (case jget (custom_config e) ''rabbitmq'' of
             None \<Rightarrow> None
           | Some r \<Rightarrow>
               (case memberOr r ''host'' (mqc_host MqConfig_default) of None \<Rightarrow> None | Some host \<Rightarrow>
               (case isMember r ''port'' of None \<Rightarrow> None | Some has \<Rightarrow>
               (case (if has then (case jget r ''port'' of None \<Rightarrow> None | Some v \<Rightarrow> asInt v) else Some (mqc_port MqConfig_default)) of None \<Rightarrow> None | Some port \<Rightarrow>
               (case memberOr r ''user'' (mqc_user MqConfig_default) of None \<Rightarrow> None | Some user \<Rightarrow>
               (case memberOr r ''password'' (mqc_password MqConfig_default) of None \<Rightarrow> None | Some password \<Rightarrow>
               (case memberOr r ''vhost'' (mqc_vhost MqConfig_default) of None \<Rightarrow> None | Some vhost \<Rightarrow>
                 Some \<lparr>mqc_host = host, mqc_port = port, mqc_user = user, mqc_password = password, mqc_vhost = vhost\<rparr>))))))))"

text \<open>The client is created on the first round; creating it reads the configuration and opens nothing.\<close>

definition create_client :: "env \<Rightarrow> unit node_act" where
  "create_client e =
     bnd (gets nd_mqClient) (\<lambda>client.
       if client then ret ()
       else bnd (or_throw StdException (loadMqConfig e)) (\<lambda>config. modify (\<lambda>s. s\<lparr>nd_mqClient := True\<rparr>)))"

datatype relay_outcome = Sent | Retried | GivenUp

text \<open>The delay before retry \<open>next\<close>: \<open>5 * (1 << (next - 1))\<close> seconds.\<close>

definition backoffSeconds :: "int \<Rightarrow> int" where
  "backoffSeconds retry = kBaseBackoffSeconds * push_bit (nat (retry - 1)) 1"

text \<open>A negative shift count would be undefined; the retry count of a row starts at zero.\<close>

definition relay_failed :: "env \<Rightarrow> LocalMessage \<Rightarrow> relay_outcome node_act" where
  "relay_failed e msg =
     (let retry = msg_retryCount msg + 1 in
      if kMaxRetries \<le> retry
      then bnd (on_db (LocalMessageDao_markGiveUp e (msg_messageId msg))) (\<lambda>_. ret GivenUp)
      else if retry < 1 then undefined_behaviour
      else bnd (on_db (LocalMessageDao_markFailed e (msg_messageId msg) retry (backoffSeconds retry))) (\<lambda>_. ret Retried))"

definition relay_one :: "env \<Rightarrow> amqp \<Rightarrow> LocalMessage \<Rightarrow> relay_outcome node_act" where
  "relay_one e a msg =
     try_catch
       (bnd (on_mq (MqClient_publish a (msg_exchange msg) (msg_routingKey msg) (msg_payload msg))) (\<lambda>confirmed.
          if confirmed then bnd (on_db (LocalMessageDao_markAcked e (msg_messageId msg))) (\<lambda>_. ret Sent)
          else relay_failed e msg))
       (\<lambda>_. ret Retried)"

fun relay_each :: "env \<Rightarrow> amqp \<Rightarrow> LocalMessage list \<Rightarrow> relay_outcome list node_act" where
  "relay_each e a [] = ret []"
| "relay_each e a (msg # msgs) =
     bnd (relay_one e a msg) (\<lambda>r. bnd (relay_each e a msgs) (\<lambda>rs. ret (r # rs)))"

definition MessageRelayTask_relay :: "env \<Rightarrow> amqp \<Rightarrow> relay_outcome list node_act" where
  "MessageRelayTask_relay e a =
     bnd (create_client e) (\<lambda>_.
       bnd (on_db (LocalMessageDao_scanPending e kBatchLimit)) (\<lambda>messages. relay_each e a messages))"

text \<open>
  The timer callback: \<open>compare_exchange_strong\<close> on the flag; the result says whether a job was
  handed to the pool. The job resets the flag only when the round returns.
\<close>

definition MessageRelayTask_runOnce :: "bool node_act" where
  "MessageRelayTask_runOnce =
     bnd (gets nd_relaying) (\<lambda>running.
       if running then ret False else bnd (modify (\<lambda>s. s\<lparr>nd_relaying := True\<rparr>)) (\<lambda>_. ret True))"

definition relay_job :: "env \<Rightarrow> amqp \<Rightarrow> unit node_act" where
  "relay_job e a = bnd (MessageRelayTask_relay e a) (\<lambda>_. modify (\<lambda>s. s\<lparr>nd_relaying := False\<rparr>))"

text \<open>A tick of the timer whose job, if any, the pool then runs.\<close>

definition relay_tick :: "env \<Rightarrow> amqp \<Rightarrow> unit node_act" where
  "relay_tick e a = bnd MessageRelayTask_runOnce (\<lambda>submitted. if submitted then worker_run (relay_job e a) else ret ())"

lemmas relay_defs = create_client_def relay_failed_def relay_one_def MessageRelayTask_relay_def
  MessageRelayTask_runOnce_def relay_job_def relay_tick_def

declare relay_defs [eval_simps] kBatchLimit_def [eval_simps] kMaxRetries_def [eval_simps] kBaseBackoffSeconds_def [eval_simps]
  loadMqConfig_def [eval_simps] MqConfig_default_def [eval_simps] backoffSeconds_def [eval_simps] relay_each.simps [eval_simps]

section \<open>What a round keeps\<close>

lemma relay_each_preserves: "(\<And>m. preserves P (relay_one e a m)) \<Longrightarrow> preserves P (relay_each e a msgs)"
  by (induction msgs) (auto intro!: preserves_intro)

lemma in_world_flags [preserves_intro]:
  "preserves (in_world P) (modify (\<lambda>s. s\<lparr>nd_mqClient := b\<rparr>))" "preserves (in_world P) (modify (\<lambda>s. s\<lparr>nd_relaying := b\<rparr>))"
  by (rule preserves_modify, simp add: in_world_def)+

lemma relay_tick_keeps:
  assumes "\<And>i. stmt_keeps P (sql_markAcked e i)" and "\<And>i k b. stmt_keeps P (sql_markMessageFailed e i k b)"
    and "\<And>i. stmt_keeps P (sql_markGiveUp e i)"
  shows "preserves (in_world (committed P)) (relay_tick e a)"
proof -
  have scan: "stmt_keeps P (sql_scanPending e k)" for k by (auto simp: stmt_keeps_def sql_scanPending_def)
  show ?thesis
    unfolding relay_tick_def relay_job_def MessageRelayTask_relay_def MessageRelayTask_runOnce_def create_client_def worker_run_def
      relay_one_def relay_failed_def Let_def LocalMessageDao_scanPending_def LocalMessageDao_markAcked_def
      LocalMessageDao_markFailed_def LocalMessageDao_markGiveUp_def
    by (intro preserves_intro relay_each_preserves [unfolded relay_one_def relay_failed_def Let_def LocalMessageDao_markAcked_def
      LocalMessageDao_markFailed_def LocalMessageDao_markGiveUp_def] assms scan)
qed

section \<open>An acknowledged message was stored\<close>

definition publication_of :: "message_row \<Rightarrow> publication" where
  "publication_of r = (c_str (tl_exchange r), c_str (tl_routing_key r), c_str (tl_payload r))"

text \<open>Every message marked as acknowledged for which a queue is bound is in the broker's store.\<close>

definition outbox_ok :: "amqp \<Rightarrow> node \<Rightarrow> bool" where
  "outbox_ok a s \<longleftrightarrow> (\<forall>r \<in> set (t_local_message (w_db (nd_world s))). tl_status r = 2 \<longrightarrow> queue_bound a (publication_of r) \<longrightarrow>
     publication_of r \<in> set (mq_stored (nd_mq s)))"

text \<open>A scanned message still agrees with its row.\<close>

definition scanned_ok :: "env \<Rightarrow> LocalMessage \<Rightarrow> db \<Rightarrow> bool" where
  "scanned_ok e m d \<longleftrightarrow> (\<forall>r \<in> set (t_local_message d). ckey e (tl_message_id r) = ckey e (msg_messageId m) \<longrightarrow>
     publication_of r = (c_str (msg_exchange m), c_str (msg_routingKey m), c_str (msg_payload m)) )"

lemma publication_of_simps [simp]:
  "publication_of (r\<lparr>tl_status := x\<rparr>) = publication_of r" "publication_of (r\<lparr>tl_retry_count := y\<rparr>) = publication_of r"
  "publication_of (r\<lparr>tl_next_retry_time := z\<rparr>) = publication_of r"
  by (simp_all add: publication_of_def)

lemma scanned_ok_scan:
  assumes "message_ok e (t_local_message d)" and "m \<in> set (map message_of_row (take k (due_messages now d)))"
  shows "scanned_ok e m d"
proof -
  from assms(2) obtain r where r: "r \<in> set (t_local_message d)" "m = message_of_row r"
    by (auto simp: due_messages_def dest!: in_set_takeD)
  have "r' = r" if "r' \<in> set (t_local_message d)" "ckey e (tl_message_id r') = ckey e (tl_message_id r)" for r'
    using assms(1) r(1) that by (auto simp: message_ok_def distinct_map dest: inj_onD)
  with r show ?thesis by (auto simp: scanned_ok_def message_of_row_def publication_of_def)
qed

lemma auto_cases:
  assumes "execSqlSync_auto e st w = Some (r, w')"
  obtains "r = Inl DrogonDbException" "w_db w' = w_db w" "w_sql w' = Suc (w_sql w)"
    | x where "r = Inr x" "st (w_sql w) (w_db w) = Some (w_db w', x)" "w_sql w' = Suc (w_sql w)"
  using assms by (auto simp: execSqlSync_auto_def split: if_splits option.splits)

text \<open>What one message can change: the broker's store by a publication, and the message's own row.\<close>

lemma relay_one_cases:
  assumes "relay_one e a m s = Some (r, t)"
  obtains o1 b q where "r = Inr o1"
    "MqClient_publish a (msg_exchange m) (msg_routingKey m) (msg_payload m) (nd_mq s) = Some (Inr b, q)" "nd_mq t = q"
    "w_db (nd_world t) = w_db (nd_world s) \<or>
     (\<exists>n. b \<and> sql_markAcked e (msg_messageId m) n (w_db (nd_world s)) = Some (w_db (nd_world t), ())) \<or>
     (\<exists>n. \<not> b \<and> kMaxRetries \<le> msg_retryCount m + 1 \<and> sql_markGiveUp e (msg_messageId m) n (w_db (nd_world s)) = Some (w_db (nd_world t), ())) \<or>
     (\<exists>n. \<not> b \<and> msg_retryCount m + 1 < kMaxRetries \<and> sql_markMessageFailed e (msg_messageId m) (msg_retryCount m + 1) (backoffSeconds (msg_retryCount m + 1)) n
        (w_db (nd_world s)) = Some (w_db (nd_world t), ()))"
proof -
  obtain b q where pub: "MqClient_publish a (msg_exchange m) (msg_routingKey m) (msg_payload m) (nd_mq s) = Some (Inr b, q)"
    by (rule total_actE [OF total_publish])
  let ?s = "s\<lparr>nd_mq := q\<rparr>"
  from assms pub have run: "try_catch (if b then bnd (on_db (LocalMessageDao_markAcked e (msg_messageId m))) (\<lambda>_. ret Sent) else relay_failed e m)
      (\<lambda>_. ret Retried) ?s = Some (r, t)"
    by (simp add: relay_one_def try_catch_def on_mq_def bnd_def)
  show ?thesis
  proof (cases b)
    case True
    with run pub show ?thesis
      by (auto simp: try_catch_eq eff_simps LocalMessageDao_markAcked_def elim!: auto_cases intro!: that)
  next
    case False
    with run pub show ?thesis
      by (auto simp: try_catch_eq eff_simps relay_failed_def Let_def LocalMessageDao_markGiveUp_def LocalMessageDao_markFailed_def
         elim!: auto_cases intro!: that split: if_splits)
  qed
qed

lemma publish_stored:
  assumes "MqClient_publish a ex rk body q = Some (Inr True, q')" and "confirms_taken a" and "queue_bound a (c_str ex, c_str rk, c_str body)"
  shows "(c_str ex, c_str rk, c_str body) \<in> set (mq_stored q')"
  using assms(1)
proof (cases rule: publish_cases)
  case (sent u)
  with publish_connected_stored [OF _ assms(2,3)] show ?thesis by blast
qed simp

text \<open>The outcome statements rewrite rows of the outbox and leave identifiers and contents alone.\<close>

lemma outbox_rows:
  "sql_markAcked e i n d = Some (d', ()) \<Longrightarrow>
     t_local_message d' = map (\<lambda>r. if ckey e (tl_message_id r) = ckey e i \<and> tl_status r = 0 then r\<lparr>tl_status := 2\<rparr> else r) (t_local_message d)"
  "sql_markGiveUp e i n d = Some (d', ()) \<Longrightarrow>
     t_local_message d' = map (\<lambda>r. if ckey e (tl_message_id r) = ckey e i then r\<lparr>tl_status := 3\<rparr> else r) (t_local_message d)"
  "sql_markMessageFailed e i k b n d = Some (d', ()) \<Longrightarrow>
     t_local_message d' = map (\<lambda>r. if ckey e (tl_message_id r) = ckey e i
       then r\<lparr>tl_retry_count := k, tl_next_retry_time := db_now e n + b\<rparr> else r) (t_local_message d)"
  by (auto simp: sql_markAcked_def sql_markGiveUp_def sql_markMessageFailed_def update_where_def sql_eq_def)

lemma scanned_ok_rewrite:
  assumes "t_local_message d' = map f (t_local_message d)" and "\<And>r. tl_message_id (f r) = tl_message_id r"
    and "\<And>r. publication_of (f r) = publication_of r" and "scanned_ok e m d"
  shows "scanned_ok e m d'"
  using assms by (auto simp: scanned_ok_def)

lemma relay_one_scanned:
  assumes "relay_one e a m s = Some (r, t)" and "scanned_ok e m' (w_db (nd_world s))"
  shows "scanned_ok e m' (w_db (nd_world t))"
  using assms(1)
proof (cases rule: relay_one_cases)
  case (1 o1 b q)
  from 1(4) show ?thesis
    using assms(2) by (elim disjE exE conjE) (auto dest!: outbox_rows intro: scanned_ok_rewrite)
qed

lemma relay_one_outbox:
  assumes run: "relay_one e a m s = Some (r, t)" and conf: "confirms_taken a" and inv: "outbox_ok a s"
    and sc: "scanned_ok e m (w_db (nd_world s))"
  shows "outbox_ok a t"
  using run
proof (cases rule: relay_one_cases)
  case (1 o1 b q)
  from stored_extends_publish [OF 1(2)] 1(3) have grow: "set (mq_stored (nd_mq s)) \<subseteq> set (mq_stored (nd_mq t))" by auto
  have new: "(c_str (msg_exchange m), c_str (msg_routingKey m), c_str (msg_payload m)) \<in> set (mq_stored (nd_mq t))"
    if b "queue_bound a (c_str (msg_exchange m), c_str (msg_routingKey m), c_str (msg_payload m))"
    using publish_stored [OF _ conf that(2)] 1(2,3) that(1) by auto
  from inv grow have old: "\<forall>r \<in> set (t_local_message (w_db (nd_world s))). tl_status r = 2 \<longrightarrow> queue_bound a (publication_of r) \<longrightarrow>
      publication_of r \<in> set (mq_stored (nd_mq t))"
    by (auto simp: outbox_ok_def)
  from 1(4) show ?thesis
  proof (elim disjE exE conjE, goal_cases)
    case 1
    with old show ?case by (simp add: outbox_ok_def)
  next
    case (2 n)
    then show ?case using old new sc by (auto simp: outbox_ok_def scanned_ok_def dest!: outbox_rows)
  next
    case (3 n)
    then show ?case using old by (auto simp: outbox_ok_def dest!: outbox_rows)
  next
    case (4 n)
    then show ?case using old by (auto simp: outbox_ok_def dest!: outbox_rows)
  qed
qed

lemma relay_each_outbox:
  assumes "relay_each e a msgs s = Some (r, t)" and "confirms_taken a" and "outbox_ok a s"
    and "\<forall>m \<in> set msgs. scanned_ok e m (w_db (nd_world s))"
  shows "outbox_ok a t"
  using assms
proof (induction msgs arbitrary: s r)
  case Nil
  then show ?case by (simp add: eff_simps)
next
  case (Cons m msgs)
  from Cons.prems(1) obtain r1 u where one: "relay_one e a m s = Some (r1, u)"
    by (auto simp: bnd_def split: option.splits)
  from Cons.prems have "outbox_ok a u" by (intro relay_one_outbox [OF one]) simp_all
  moreover from Cons.prems(4) relay_one_scanned [OF one] have "\<forall>m \<in> set msgs. scanned_ok e m (w_db (nd_world u))" by simp
  moreover from one obtain o1 where "r1 = Inr o1" by (rule relay_one_cases)
  with Cons.prems(1) one obtain r2 where "relay_each e a msgs u = Some (r2, t)"
    by (auto simp: bnd_def ret_def split: option.splits sum.splits)
  ultimately show ?case using Cons.IH Cons.prems(2) by blast
qed

lemma relay_outbox:
  assumes run: "MessageRelayTask_relay e a s = Some (r, t)" and "confirms_taken a" and "outbox_ok a s"
    and ok: "message_ok e (t_local_message (w_db (nd_world s)))"
  shows "outbox_ok a t"
proof -
  from run assms(3) consider "nd_world t = nd_world s" "nd_mq t = nd_mq s"
    | u where "create_client e s = Some (Inr (), u)" "nd_world u = nd_world s" "nd_mq u = nd_mq s"
        "bnd (on_db (LocalMessageDao_scanPending e kBatchLimit)) (\<lambda>messages. relay_each e a messages) u = Some (r, t)"
    by (auto simp: MessageRelayTask_relay_def create_client_def bnd_def gets_def ret_def or_throw_def throw_def modify_def
        split: if_splits option.splits)
  then show ?thesis
  proof cases
    case 1
    with assms(3) show ?thesis by (simp add: outbox_ok_def)
  next
    case 2
    from 2(4) obtain x u' where scan: "execSqlSync_auto e (sql_scanPending e kBatchLimit) (nd_world u) = Some (x, u')"
      and rest: "case x of Inl _ \<Rightarrow> t = u\<lparr>nd_world := u'\<rparr> | Inr msgs \<Rightarrow> relay_each e a msgs (u\<lparr>nd_world := u'\<rparr>) = Some (r, t)"
      by (auto simp: bnd_def on_db_def LocalMessageDao_scanPending_def split: option.splits sum.splits)
    have inv: "outbox_ok a (u\<lparr>nd_world := u'\<rparr>)" if "w_db u' = w_db (nd_world u)"
      using that 2(2,3) assms(3) by (simp add: outbox_ok_def)
    from scan show ?thesis
    proof (cases rule: auto_cases)
      case 1
      with rest inv show ?thesis by simp
    next
      case (2 msgs)
      then have db: "w_db u' = w_db (nd_world u)" and
        msgs: "msgs = map message_of_row (take kBatchLimit (due_messages (db_now e (w_sql (nd_world u))) (w_db (nd_world u))))"
        by (auto simp: sql_scanPending_def)
      from msgs db ok \<open>nd_world u = nd_world s\<close> have "\<forall>m \<in> set msgs. scanned_ok e m (w_db (nd_world (u\<lparr>nd_world := u'\<rparr>)))"
        using scanned_ok_scan by simp
      with relay_each_outbox [OF _ assms(2) inv [OF db]] rest 2(1) show ?thesis by simp
    qed
  qed
qed

lemma outbox_ok_flag [simp]: "outbox_ok a (s\<lparr>nd_relaying := b\<rparr>) = outbox_ok a s"
  by (simp add: outbox_ok_def)

lemma relay_tick_outbox:
  assumes "relay_tick e a s = Some (r, t)" and "confirms_taken a" and "outbox_ok a s" and "message_ok e (t_local_message (w_db (nd_world s)))"
  shows "outbox_ok a t"
proof (cases "nd_relaying s")
  case True
  with assms(1,3) show ?thesis by (simp add: relay_tick_def MessageRelayTask_runOnce_def bnd_def gets_def ret_def)
next
  case False
  with assms(1) obtain r1 u where u: "MessageRelayTask_relay e a (s\<lparr>nd_relaying := True\<rparr>) = Some (r1, u)" "t = u \<or> t = u\<lparr>nd_relaying := False\<rparr>"
    by (auto simp: relay_tick_def MessageRelayTask_runOnce_def bnd_def gets_def ret_def modify_def worker_run_def try_catch_def relay_job_def
        split: option.splits sum.splits)
  from relay_outbox [OF u(1) assms(2)] assms(3,4) have "outbox_ok a u" by simp
  with u(2) show ?thesis by auto
qed

section \<open>The life of a message\<close>

text \<open>The abstract states of a message: its status and the number of failed rounds.\<close>

definition row_state :: "message_row \<Rightarrow> int \<times> int" where
  "row_state r = (tl_status r, tl_retry_count r)"

definition retry_step :: "bool \<Rightarrow> int \<times> int \<Rightarrow> int \<times> int" where
  "retry_step confirmed s =
     (case s of (st, k) \<Rightarrow>
        if st \<noteq> 0 then (st, k) else if confirmed then (2, k) else if 7 \<le> k then (3, k) else (0, k + 1))"

lemma retry_steps_failing: "(retry_step False ^^ n) (0, 0) = (if n < 8 then (0, int n) else (3, 7))"
proof (induction n)
  case (Suc n)
  then show ?case by (cases "n < 7") (auto simp: retry_step_def not_less)
qed simp

lemma backoffSeconds_eq: "1 \<le> k \<Longrightarrow> backoffSeconds k = 5 * 2 ^ nat (k - 1)"
  by (simp add: backoffSeconds_def kBaseBackoffSeconds_def push_bit_eq_mult)

lemma backoffSeconds_range:
  assumes "1 \<le> k" and "k < kMaxRetries"
  shows "5 \<le> backoffSeconds k \<and> backoffSeconds k \<le> 320"
proof -
  from assms have "k = 1 \<or> k = 2 \<or> k = 3 \<or> k = 4 \<or> k = 5 \<or> k = 6 \<or> k = 7" by (auto simp: kMaxRetries_def)
  then show ?thesis by (auto simp: backoffSeconds_def kBaseBackoffSeconds_def push_bit_eq_mult)
qed

lemma outbox_dao_runs:
  assumes "healthy_from e n" and "n \<le> w_sql w"
  shows
    "LocalMessageDao_markAcked e i w = Some (Inr (), w\<lparr>w_db := fst (the (sql_markAcked e i (w_sql w) (w_db w))), w_sql := Suc (w_sql w)\<rparr>)"
    "LocalMessageDao_markGiveUp e i w = Some (Inr (), w\<lparr>w_db := fst (the (sql_markGiveUp e i (w_sql w) (w_db w))), w_sql := Suc (w_sql w)\<rparr>)"
    "LocalMessageDao_markFailed e i k b w =
       Some (Inr (), w\<lparr>w_db := fst (the (sql_markMessageFailed e i k b (w_sql w) (w_db w))), w_sql := Suc (w_sql w)\<rparr>)"
  using healthy_fromD [OF assms] assms(1)
  by (simp_all add: LocalMessageDao_markAcked_def LocalMessageDao_markGiveUp_def LocalMessageDao_markFailed_def execSqlSync_auto_def
      sql_markAcked_def sql_markGiveUp_def sql_markMessageFailed_def)

text \<open>The message after a round in which the broker confirmed it or not.\<close>

definition relayed_row :: "env \<Rightarrow> bool \<Rightarrow> nat \<Rightarrow> message_row \<Rightarrow> message_row" where
  "relayed_row e confirmed n r =
     (if confirmed then r\<lparr>tl_status := 2\<rparr>
      else if 7 \<le> tl_retry_count r then r\<lparr>tl_status := 3\<rparr>
      else r\<lparr>tl_retry_count := tl_retry_count r + 1, tl_next_retry_time := db_now e n + 5 * 2 ^ nat (tl_retry_count r)\<rparr>)"

lemma row_state_relayed: "tl_status r = 0 \<Longrightarrow> row_state (relayed_row e b n r) = retry_step b (row_state r)"
  by (simp add: row_state_def retry_step_def relayed_row_def)

lemma relay_one_row:
  assumes healthy: "healthy_from e (w_sql (nd_world s))" and row: "message_row_of e (msg_messageId m) (w_db (nd_world s)) = Some r"
    and m: "m = message_of_row r" and pending: "tl_status r = 0" "0 \<le> tl_retry_count r"
    and pub: "MqClient_publish a (tl_exchange r) (tl_routing_key r) (tl_payload r) (nd_mq s) = Some (Inr b, q)"
  shows "\<exists>o1 t. relay_one e a m s = Some (Inr o1, t) \<and> nd_mq t = q \<and>
    o1 = (if b then Sent else if 7 \<le> tl_retry_count r then GivenUp else Retried) \<and>
    w_sql (nd_world t) = Suc (w_sql (nd_world s)) \<and>
    (\<forall>i. message_row_of e i (w_db (nd_world t)) =
      map_option (\<lambda>x. if ckey e i = ckey e (tl_message_id r) then relayed_row e b (w_sql (nd_world s)) x else x)
        (message_row_of e i (w_db (nd_world s))))"
proof -
  note runs = outbox_dao_runs [OF healthy]
  have fields: "msg_exchange m = tl_exchange r" "msg_routingKey m = tl_routing_key r" "msg_payload m = tl_payload r"
    "msg_messageId m = tl_message_id r" "msg_retryCount m = tl_retry_count r"
    by (simp_all add: m message_of_row_def)
  have same: "message_row_of e i (w_db (nd_world s)) = Some x \<Longrightarrow> ckey e i = ckey e (tl_message_id r) \<Longrightarrow> x = r" for i x
    using row by (simp add: message_row_of_def fields)
  show ?thesis
  proof (cases b)
    case True
    then show ?thesis
      using pub pending same
      by (auto simp: relay_one_def try_catch_def bnd_def on_mq_def on_db_def fields runs ret_def sql_markAcked_def
          message_row_of_markAcked relayed_row_def intro!: map_option_cong dest: same)
  next
    case False
    then show ?thesis
      using pub pending same
      by (auto simp: relay_one_def relay_failed_def Let_def try_catch_def bnd_def on_mq_def on_db_def fields runs ret_def kMaxRetries_def
          sql_markGiveUp_def sql_markMessageFailed_def message_row_of_update relayed_row_def backoffSeconds_eq intro!: map_option_cong dest: same)
  qed
qed

section \<open>Rounds\<close>

text \<open>A failing message does not end the round: every scanned message has an outcome.\<close>

lemma auto_total: "db_configured e \<Longrightarrow> \<exists>r w'. execSqlSync_auto e st w = Some (r, w')"
  by (simp add: execSqlSync_auto_def split: option.split)

lemma relay_one_returns:
  assumes "db_configured e" and "0 \<le> msg_retryCount m"
  shows "\<exists>o1 t. relay_one e a m s = Some (Inr o1, t) \<and> nd_relaying t = nd_relaying s"
proof -
  obtain b q where pub: "MqClient_publish a (msg_exchange m) (msg_routingKey m) (msg_payload m) (nd_mq s) = Some (Inr b, q)"
    by (rule total_actE [OF total_publish])
  obtain r1 w1 r2 w2 r3 w3 where "LocalMessageDao_markAcked e (msg_messageId m) (nd_world s) = Some (r1, w1)"
    "LocalMessageDao_markGiveUp e (msg_messageId m) (nd_world s) = Some (r2, w2)"
    "LocalMessageDao_markFailed e (msg_messageId m) (msg_retryCount m + 1) (backoffSeconds (msg_retryCount m + 1)) (nd_world s) = Some (r3, w3)"
    using auto_total [OF assms(1)]
    by (metis LocalMessageDao_markAcked_def LocalMessageDao_markGiveUp_def LocalMessageDao_markFailed_def)
  with pub assms(2) show ?thesis
    by (auto simp: relay_one_def relay_failed_def Let_def try_catch_def bnd_def on_mq_def on_db_def ret_def split: sum.split)
qed

lemma relay_each_returns:
  assumes "db_configured e" and "\<forall>m \<in> set msgs. 0 \<le> msg_retryCount m"
  shows "\<exists>rs t. relay_each e a msgs s = Some (Inr rs, t) \<and> length rs = length msgs \<and> nd_relaying t = nd_relaying s"
  using assms(2)
proof (induction msgs arbitrary: s)
  case Nil
  then show ?case by (simp add: ret_def)
next
  case (Cons m msgs)
  from relay_one_returns [OF assms(1)] Cons.prems obtain o1 u where one: "relay_one e a m s = Some (Inr o1, u)" "nd_relaying u = nd_relaying s"
    by (metis list.set_intros(1))
  from Cons.IH [of u] Cons.prems obtain rs t where "relay_each e a msgs u = Some (Inr rs, t)" "length rs = length msgs" "nd_relaying t = nd_relaying u"
    by auto
  with one show ?case by (simp add: bnd_def ret_def)
qed

lemma relay_tick_returns:
  assumes "db_configured e" and "\<not> sql_fault e (w_sql (nd_world s))" and "nd_mqClient s" and "\<not> nd_relaying s"
    and "\<forall>r \<in> set (t_local_message (w_db (nd_world s))). 0 \<le> tl_retry_count r"
  shows "\<exists>t. relay_tick e a s = Some (Inr (), t) \<and> \<not> nd_relaying t"
proof -
  let ?msgs = "map message_of_row (take kBatchLimit (due_messages (db_now e (w_sql (nd_world s))) (w_db (nd_world s))))"
  let ?s = "s\<lparr>nd_relaying := True, nd_world := (nd_world s)\<lparr>w_sql := Suc (w_sql (nd_world s))\<rparr>\<rparr>"
  have "\<forall>m \<in> set ?msgs. 0 \<le> msg_retryCount m"
    using assms(5) by (auto simp: message_of_row_def due_messages_def dest!: in_set_takeD)
  from relay_each_returns [OF assms(1) this, of a ?s] obtain rs t where "relay_each e a ?msgs ?s = Some (Inr rs, t)" by blast
  then show ?thesis
    using assms(1-4)
    by (simp add: relay_tick_def MessageRelayTask_runOnce_def bnd_def gets_def modify_def ret_def worker_run_def try_catch_def relay_job_def
        MessageRelayTask_relay_def create_client_def on_db_def LocalMessageDao_scanPending_def execSqlSync_auto_def sql_scanPending_def)
qed

text \<open>The relay is a timer task.\<close>

lemma relay_keeps_flag [preserves_intro]: "preserves (\<lambda>s. nd_relaying s = b) (bnd (MessageRelayTask_relay e a) (\<lambda>_. ret ()))"
proof -
  have client: "preserves (\<lambda>s. nd_relaying s = b) (modify (\<lambda>s. s\<lparr>nd_mqClient := c\<rparr>))" for c
    by (rule preserves_modify) simp
  have "preserves (\<lambda>s. nd_relaying s = b) (relay_one e a m)" for m
    unfolding relay_one_def relay_failed_def Let_def by (intro preserves_intro)
  from relay_each_preserves [OF this] show ?thesis
    unfolding MessageRelayTask_relay_def create_client_def by (intro preserves_intro client)
qed

interpretation relaying: timer_task nd_relaying "\<lambda>b s. s\<lparr>nd_relaying := b\<rparr>"
    "bnd (MessageRelayTask_relay e a) (\<lambda>_. ret ())" "relay_tick e a" for e a
proof (unfold_locales, goal_cases)
  case (4 s r t)
  from preservesD [OF relay_keeps_flag 4] show ?case by simp
qed (simp_all add: relay_tick_def MessageRelayTask_runOnce_def relay_job_def bnd_assoc bnd_run ret_def [of _ s for s])

lemma relay_scan_fails:
  assumes "db_configured e" and "sql_fault e (w_sql (nd_world s))" and "nd_mqClient s"
  shows "bnd (MessageRelayTask_relay e a) (\<lambda>_. ret ()) s =
    Some (Inl DrogonDbException, s\<lparr>nd_world := (nd_world s)\<lparr>w_sql := Suc (w_sql (nd_world s))\<rparr>\<rparr>)"
  using assms
  by (simp add: bnd_def gets_def ret_def MessageRelayTask_relay_def create_client_def on_db_def LocalMessageDao_scanPending_def execSqlSync_auto_def)

section \<open>Properties\<close>

text \<open>
  C21: no message is marked as delivered without being stored, where a queue is bound for it. With a
  broker that confirms only what it took over, over any sequence of relay rounds and any faults of
  broker and database, every row of the outbox with the status for acknowledged has its exchange,
  routing key and payload in the broker's store, provided that at every publication a queue is bound
  for that exchange and routing key (the consumer binds it, the publisher does not: a message
  published while none is bound is lost, \<open>unbound_message_lost\<close>).
\<close>

theorem relay_at_least_once:
  assumes "confirms_taken a" and "schema_ok e (w_db (nd_world s))" and "outbox_ok a s"
    and "run_ops (\<lambda>_. relay_tick e a) ticks s = Some (rs, t)"
  shows "\<forall>r \<in> set (t_local_message (w_db (nd_world t))). tl_status r = 2 \<longrightarrow>
    (\<forall>n. routable a n (c_str (tl_exchange r)) (c_str (tl_routing_key r))) \<longrightarrow>
    (c_str (tl_exchange r), c_str (tl_routing_key r), c_str (tl_payload r)) \<in> set (mq_stored (nd_mq t))"
  using assms(2-4)
proof (induction ticks arbitrary: s rs)
  case Nil
  then show ?case by (simp add: outbox_ok_def queue_bound_def publication_of_def)
next
  case (Cons x ticks)
  then obtain r u rs' where tick: "relay_tick e a s = Some (r, u)" and rest: "run_ops (\<lambda>_. relay_tick e a) ticks u = Some (rs', t)"
    by (auto simp: run_ops_Cons_eq simp del: run_ops.simps)
  have "preserves (in_world (committed (schema_ok e))) (relay_tick e a)" by (intro relay_tick_keeps preserves_intro)
  from preservesD [OF this tick] Cons.prems(1) have "schema_ok e (w_db (nd_world u))" by (simp add: in_world_def committed_def)
  moreover from Cons.prems(1) have "message_ok e (t_local_message (w_db (nd_world s)))" by (simp add: schema_ok_def)
  with relay_tick_outbox [OF tick assms(1) Cons.prems(2)] have "outbox_ok a u" .
  ultimately show ?case using Cons.IH rest by blast
qed


text \<open>
  The delays. The delay before a retry is at least five seconds and at most 320 seconds, so the
  shift and the product stay far inside \<open>int\<close>.
\<close>

theorem relay_backoff_bounds:
  assumes "1 \<le> k" and "k < kMaxRetries"
  shows "5 \<le> backoffSeconds k \<and> backoffSeconds k \<le> 320 \<and> backoffSeconds k = 5 * 2 ^ nat (k - 1)"
  using backoffSeconds_range [OF assms] backoffSeconds_eq [OF assms(1)] by simp

text \<open>
  one message does not stop the others. Whatever faults occur at the broker or at the updates, a
  round whose scan succeeds handles every scanned message and ends with the flag reset.
\<close>

theorem relay_isolates:
  assumes "db_configured e" and "\<not> sql_fault e (w_sql (nd_world s))" and "nd_mqClient s" and "\<not> nd_relaying s"
    and "\<forall>r \<in> set (t_local_message (w_db (nd_world s))). 0 \<le> tl_retry_count r"
  shows "\<exists>t. relay_tick e a s = Some (Inr (), t) \<and> \<not> nd_relaying t"
  using assms by (rule relay_tick_returns)

text \<open>
  a failed scan stops the relay for good. When the statement that scans the outbox fails once,
  the exception leaves the job before the flag is reset; every later tick then does nothing, and no
  message is delivered any more until the process is restarted.
\<close>

theorem relay_stuck_after_fault:
  assumes "db_configured e" and "sql_fault e (w_sql (nd_world s))" and "nd_mqClient s" and "\<not> nd_relaying s"
  shows "\<exists>t. relay_tick e a s = Some (Inr (), t) \<and>
    (\<forall>n. run_ops (\<lambda>_. relay_tick e a) (replicate n ()) t = Some (replicate n (Inr ()), t))"
  using relaying.stuck [OF assms(4) relay_scan_fails] assms(1-3) by force

section \<open>Witnesses\<close>

text \<open>A broker that acknowledges every message or none, with or without queues bound.\<close>

definition demo_broker :: "bool \<Rightarrow> bool \<Rightarrow> amqp" where
  "demo_broker ack bound = \<lparr>socket_new_ok = (\<lambda>_. True), socket_open_ok = (\<lambda>_. True), rpc_normal = (\<lambda>_. True), publish_sent = (\<lambda>_. True),
     broker_takes = (\<lambda>_. ack), routable = (\<lambda>_ _ _. bound),
     wait_frame = (\<lambda>_. if ack then Some (MethodFrame AMQP_BASIC_ACK_METHOD) else None)\<rparr>"

definition demo_amqp :: "bool \<Rightarrow> amqp" where
  "demo_amqp ack = demo_broker ack True"

definition demo_message :: message_row where
  "demo_message = \<lparr>tl_message_id = ''m1'', tl_biz_type = ''ORDER_PAID'', tl_biz_id = ''1'', tl_exchange = ''x'', tl_routing_key = ''k'',
     tl_payload = ''p'', tl_status = 0, tl_retry_count = 7, tl_next_retry_time = 0\<rparr>"

definition relay_node :: node where
  "relay_node = \<lparr>nd_world = demo_world\<lparr>w_db := demo_db\<lparr>t_local_message := [demo_message]\<rparr>\<rparr>,
     nd_mq = \<lparr>mq_conn = False, mq_calls = 0, mq_stored = []\<rparr>, nd_mqClient = True, nd_relaying = False, nd_reconciling = False,
     nd_consumer = \<lparr>cc_conn = False, cc_open = 0, cc_calls = 0, cc_declared = [], cc_answers = []\<rparr>,
     nd_notifyBaseUrl = ''http://localhost:8080'', nd_requests = [], nd_slept = 0\<rparr>"

lemmas relay_demo_defs = demo_amqp_def demo_broker_def demo_message_def relay_node_def demo_defs

lemma demo_tick: "\<exists>t. relay_tick demo_env (demo_amqp True) relay_node = Some (Inr (), t) \<and>
    t_local_message (w_db (nd_world t)) = [demo_message\<lparr>tl_status := 2\<rparr>]"
  by (simp add: eval_simps relay_demo_defs cong: eval_cong)

theorem relay_at_least_once_witness:
  "\<exists>t. relay_tick demo_env (demo_amqp True) relay_node = Some (Inr (), t) \<and> (''x'', ''k'', ''p'') \<in> set (mq_stored (nd_mq t))"
proof -
  from demo_tick obtain t where t: "relay_tick demo_env (demo_amqp True) relay_node = Some (Inr (), t)"
    "t_local_message (w_db (nd_world t)) = [demo_message\<lparr>tl_status := 2\<rparr>]" by blast
  have "confirms_taken (demo_amqp True)" "schema_ok demo_env (w_db (nd_world relay_node))" "outbox_ok (demo_amqp True) relay_node"
    by (simp_all add: confirms_taken_def outbox_ok_def relay_demo_defs eval_simps)
  from relay_at_least_once [OF this, of "[()]" "[Inr ()]" t] t show ?thesis
    by (simp add: c_str_def demo_message_def demo_amqp_def demo_broker_def)
qed

text \<open>
  Without a bound queue the broker acknowledges and drops the message; the round marks its row as
  delivered all the same, and nothing publishes it again.
\<close>

lemma unbound_message_lost:
  "confirms_taken (demo_broker True False) \<and>
   (\<exists>t. relay_tick demo_env (demo_broker True False) relay_node = Some (Inr (), t) \<and>
     t_local_message (w_db (nd_world t)) = [demo_message\<lparr>tl_status := 2\<rparr>] \<and> mq_stored (nd_mq t) = [])"
  by (simp add: confirms_taken_def eval_simps relay_demo_defs cong: eval_cong)


theorem relay_backoff_bounds_witness: "backoffSeconds 7 = 320"
  using relay_backoff_bounds [of 7] by (simp add: kMaxRetries_def)

theorem relay_isolates_witness:
  "\<exists>t. relay_tick (demo_env\<lparr>sql_fault := (\<lambda>n. n = 1)\<rparr>) (demo_amqp True) relay_node = Some (Inr (), t) \<and> \<not> nd_relaying t"
  by (rule relay_isolates) (simp_all add: relay_demo_defs)

theorem relay_stuck_after_fault_witness:
  "\<exists>t. relay_tick (demo_env\<lparr>sql_fault := (\<lambda>n. n = 0)\<rparr>) (demo_amqp True) relay_node = Some (Inr (), t) \<and>
     run_ops (\<lambda>_. relay_tick (demo_env\<lparr>sql_fault := (\<lambda>n. n = 0)\<rparr>) (demo_amqp True)) (replicate 3 ()) t = Some (replicate 3 (Inr ()), t)"
proof -
  have "db_configured (demo_env\<lparr>sql_fault := (\<lambda>n. n = 0)\<rparr>)" "sql_fault (demo_env\<lparr>sql_fault := (\<lambda>n. n = 0)\<rparr>) (w_sql (nd_world relay_node))"
    "nd_mqClient relay_node" "\<not> nd_relaying relay_node"
    by (simp_all add: relay_demo_defs)
  from relay_stuck_after_fault [OF this, of "demo_amqp True"] show ?thesis by blast
qed

end
