(* ===== verification/NotifyDao.thy ===== *)
theory NotifyDao
  imports DaoContracts
begin

text \<open>
  \<^verbatim>\<open>src/dao/NotifyDao.h\<close>, \<^verbatim>\<open>src/dao/NotifyDao.cc\<close>: the record of notifications, deduplicated by the
  identifier of the consumed message. All statements run on the default client.
\<close>

section \<open>Statements\<close>

datatype NotifyInsertOutcome = kNotifyInserted | kNotifyDuplicate

record NotifyInsertResult =
  nir_outcome :: NotifyInsertOutcome
  nir_notifyNo :: string

definition notify_row_for :: "string \<Rightarrow> string \<Rightarrow> string \<Rightarrow> string \<Rightarrow> notify_row" where
  "notify_row_for notifyNo orderNo targetUrl messageId =
     \<lparr>tn_notify_no = notifyNo, tn_order_no = orderNo, tn_target_url = targetUrl, tn_response_body = None,
      tn_status = 0, tn_retry_count = 0, tn_message_id = messageId\<rparr>"

definition notify_ins :: "env \<Rightarrow> notify_row \<Rightarrow> db \<Rightarrow> db \<times> nat" where
  "notify_ins e row d =
     (if list_ex (\<lambda>r. sql_eq e (tn_notify_no r) (tn_notify_no row) \<or>
                      sql_eq e (tn_message_id r) (tn_message_id row)) (t_notify_record d)
      then (d, 0) else (d\<lparr>t_notify_record := t_notify_record d @ [row]\<rparr>, 1))"

definition sql_insertNotify :: "env \<Rightarrow> string \<Rightarrow> string \<Rightarrow> string \<Rightarrow> string \<Rightarrow> nat stmt" where
  "sql_insertNotify e notifyNo orderNo targetUrl messageId n d =
     Some (notify_ins e (notify_row_for notifyNo orderNo targetUrl messageId) d)"

definition NotifyDao_insertWithDedup :: "env \<Rightarrow> string \<Rightarrow> string \<Rightarrow> string \<Rightarrow> NotifyInsertResult act" where
  "NotifyDao_insertWithDedup e messageId orderNo targetUrl =
     bnd (nextId e) (\<lambda>notifyNo.
       bnd (execSqlSync_auto e (sql_insertNotify e notifyNo orderNo targetUrl messageId)) (\<lambda>affected.
         ret (if affected = 1 then \<lparr>nir_outcome = kNotifyInserted, nir_notifyNo = notifyNo\<rparr>
              else \<lparr>nir_outcome = kNotifyDuplicate, nir_notifyNo = ''''\<rparr>)))"

definition sql_notifySuccess :: "env \<Rightarrow> string \<Rightarrow> string \<Rightarrow> unit stmt" where
  "sql_notifySuccess e notifyNo responseBody n d =
     Some (d\<lparr>t_notify_record := fst (update_where (\<lambda>r. sql_eq e (tn_notify_no r) notifyNo)
        (\<lambda>r. r\<lparr>tn_status := 1, tn_response_body := Some responseBody\<rparr>) (t_notify_record d))\<rparr>, ())"

definition NotifyDao_markSuccess :: "env \<Rightarrow> string \<Rightarrow> string \<Rightarrow> unit act" where
  "NotifyDao_markSuccess e notifyNo responseBody = execSqlSync_auto e (sql_notifySuccess e notifyNo responseBody)"

definition sql_notifyFailed :: "env \<Rightarrow> string \<Rightarrow> int \<Rightarrow> string \<Rightarrow> unit stmt" where
  "sql_notifyFailed e notifyNo retryCount responseBody n d =
     Some (d\<lparr>t_notify_record := fst (update_where (\<lambda>r. sql_eq e (tn_notify_no r) notifyNo)
        (\<lambda>r. r\<lparr>tn_status := 2, tn_retry_count := retryCount, tn_response_body := Some responseBody\<rparr>)
        (t_notify_record d))\<rparr>, ())"

definition NotifyDao_markFailed :: "env \<Rightarrow> string \<Rightarrow> int \<Rightarrow> string \<Rightarrow> unit act" where
  "NotifyDao_markFailed e notifyNo retryCount responseBody =
     execSqlSync_auto e (sql_notifyFailed e notifyNo retryCount responseBody)"

lemmas notify_dao_defs = notify_row_for_def notify_ins_def sql_insertNotify_def NotifyDao_insertWithDedup_def
  sql_notifySuccess_def NotifyDao_markSuccess_def sql_notifyFailed_def NotifyDao_markFailed_def

declare notify_dao_defs [eval_simps]

section \<open>A message is recorded once\<close>

definition notify_lookup :: "env \<Rightarrow> string \<Rightarrow> db \<Rightarrow> notify_row option" where
  "notify_lookup e k d = first_where (\<lambda>r. ckey e (tn_message_id r) = k) (t_notify_record d)"

interpretation notifications: dedup_store "notify_ins e" "notify_lookup e" "\<lambda>r. ckey e (tn_message_id r)"
  for e
proof (unfold_locales, goal_cases)
  case (1 r d)
  then have "\<not> (\<forall>r' \<in> set (t_notify_record d). ckey e (tn_message_id r') \<noteq> ckey e (tn_message_id r))"
    by (simp add: notify_lookup_def first_where_None)
  then show ?case by (auto simp: notify_ins_def list_ex_iff sql_eq_def)
next
  case (2 r d)
  then show ?case by (simp add: notify_ins_def)
next
  case (3 r d k)
  then have "notify_ins e r d = (d\<lparr>t_notify_record := t_notify_record d @ [r]\<rparr>, 1)"
    and "\<forall>r' \<in> set (t_notify_record d). ckey e (tn_message_id r') \<noteq> ckey e (tn_message_id r)"
    by (auto simp: notify_ins_def list_ex_iff sql_eq_def split: if_splits)
  moreover from this(2) have "first_where (\<lambda>r'. ckey e (tn_message_id r') = ckey e (tn_message_id r)) (t_notify_record d) = None"
    by (simp add: first_where_None)
  ultimately show ?case
    by (auto simp: notify_lookup_def first_where_append first_where_single split: option.split)
qed

lemma schema_ok_insertNotify [preserves_intro]: "stmt_keeps (schema_ok e) (sql_insertNotify e no ord url mid)"
proof (rule stmt_keepsI)
  fix n d d' x
  assume "schema_ok e d" and "sql_insertNotify e no ord url mid n d = Some (d', x)"
  then show "schema_ok e d'"
    by (auto simp: sql_insertNotify_def notify_ins_def list_ex_iff schema_ok_def notify_ok_def sql_eq_def
        split: if_splits; blast)
qed

lemma schema_ok_notifySuccess [preserves_intro]: "stmt_keeps (schema_ok e) (sql_notifySuccess e no body)"
  by (rule stmt_keepsI) (auto simp: sql_notifySuccess_def schema_ok_def notify_ok_def map_update_where)

lemma schema_ok_notifyFailed [preserves_intro]: "stmt_keeps (schema_ok e) (sql_notifyFailed e no k body)"
  by (rule stmt_keepsI) (auto simp: sql_notifyFailed_def schema_ok_def notify_ok_def map_update_where)

end
