(* ===== verification/NotifyConsumer.thy ===== *)
theory NotifyConsumer
  imports MessageRelayTask NotifyDao
begin

text \<open>
  \<^verbatim>\<open>src/consumer/NotifyConsumer.h\<close>, \<^verbatim>\<open>src/consumer/NotifyConsumer.cc\<close>: the thread that consumes
  the queue of paid orders and notifies the merchant. The client library, the broker's deliveries and
  the merchant's answers are parameters, numbered in the order of the calls. Logging is left out.
\<close>

section \<open>Peers\<close>

datatype consumed =
    Delivered string nat \<comment> \<open>body and delivery tag\<close>
  | ConnectionLost \<comment> \<open>the reply is not \<open>AMQP_RESPONSE_NORMAL\<close>\<close>
  | Silence \<comment> \<open>nothing arrives: the call, which has no timeout, does not return\<close>

record http_reply =
  rp_ok :: bool \<comment> \<open>\<open>ReqResult::Ok\<close>\<close>
  rp_response :: "(int \<times> string) option" \<comment> \<open>status and body, unless the pointer is null\<close>

record peers =
  pe_amqp :: amqp
  consume_message :: "nat \<Rightarrow> consumed"
  merchant :: "nat \<Rightarrow> http_reply" \<comment> \<open>the answer to the k-th request\<close>

section \<open>The consumer\<close>

definition kExchange :: string where "kExchange = ''trade.exchange''"
definition kQueue :: string where "kQueue = ''trade.notify.queue''"
definition kRoutingKey :: string where "kRoutingKey = ''order.paid''"
definition kDeadExchange :: string where "kDeadExchange = ''trade.dead.exchange''"
definition kDeadQueue :: string where "kDeadQueue = ''trade.dead.queue''"
definition kDeadRoutingKey :: string where "kDeadRoutingKey = ''order.dead''"
definition kNotifyPath :: string where "kNotifyPath = ''/api/v1/mock/notify''"
definition kMaxInProcessRetries :: int where "kMaxInProcessRetries = 2"
definition kReconnectDelaySeconds :: int where "kReconnectDelaySeconds = 3"

definition readConfigString :: "env \<Rightarrow> string \<Rightarrow> string \<Rightarrow> string option" where
  "readConfigString e key fallback =
     (case isMember (custom_config e) ''rabbitmq'' of
        None \<Rightarrow> None
      | Some False \<Rightarrow> Some fallback
      | Some True \<Rightarrow> (case jget (custom_config e) ''rabbitmq'' of None \<Rightarrow> None | Some r \<Rightarrow> memberOr r key fallback))"

text \<open>Starting the thread; \<open>runLoop\<close> is the thread itself.\<close>

definition NotifyConsumer_start :: "env \<Rightarrow> unit node_act" where
  "NotifyConsumer_start e =
     bnd (gets nd_notifyBaseUrl) (\<lambda>base.
       bnd (or_throw StdException (readConfigString e ''notify_base_url'' base)) (\<lambda>url.
         modify (\<lambda>s. s\<lparr>nd_notifyBaseUrl := url\<rparr>)))"

definition on_consumer :: "(consumer_conn \<Rightarrow> consumer_conn) \<Rightarrow> unit node_act" where
  "on_consumer f = modify (\<lambda>s. s\<lparr>nd_consumer := f (nd_consumer s)\<rparr>)"

definition consumer_call :: "(nat \<Rightarrow> 'a) \<Rightarrow> 'a node_act" where
  "consumer_call f =
     bnd (gets (\<lambda>s. f (cc_calls (nd_consumer s)))) (\<lambda>x.
       bnd (on_consumer (\<lambda>c. c\<lparr>cc_calls := Suc (cc_calls c)\<rparr>)) (\<lambda>_. ret x))"

definition new_connection :: "unit node_act" where
  "new_connection = on_consumer (\<lambda>c. c\<lparr>cc_conn := True, cc_open := Suc (cc_open c)\<rparr>)"

text \<open>\<open>amqp_destroy_connection(conn_); conn_ = nullptr;\<close> and then \<open>return false\<close>.\<close>

definition destroy_connection :: "unit node_act" where
  "destroy_connection = on_consumer (\<lambda>c. c\<lparr>cc_conn := False, cc_open := cc_open c - 1\<rparr>)"

definition destroy_false :: "bool node_act" where
  "destroy_false = bnd destroy_connection (\<lambda>_. ret False)"

definition consumer_config :: "env \<Rightarrow> MqConfig option" where
  "consumer_config e =
     (case jget (custom_config e) ''rabbitmq'' of None \<Rightarrow> None | Some cfg \<Rightarrow>
     (case memberOr cfg ''host'' ''127.0.0.1'' of None \<Rightarrow> None | Some host \<Rightarrow>
     (case isMember cfg ''port'' of None \<Rightarrow> None | Some has \<Rightarrow>
     (case (if has then (case jget cfg ''port'' of None \<Rightarrow> None | Some v \<Rightarrow> asInt v) else Some 5673) of None \<Rightarrow> None | Some port \<Rightarrow>
     (case memberOr cfg ''user'' ''guest'' of None \<Rightarrow> None | Some user \<Rightarrow>
     (case memberOr cfg ''password'' ''guest'' of None \<Rightarrow> None | Some password \<Rightarrow>
     (case memberOr cfg ''vhost'' ''/'' of None \<Rightarrow> None | Some vhost \<Rightarrow>
       Some \<lparr>mqc_host = host, mqc_port = port, mqc_user = user, mqc_password = password, mqc_vhost = vhost\<rparr>)))))))"

text \<open>A declaration and its \<open>rpcOk\<close>; a failure returns false and leaves the connection as it is.\<close>

definition declare_one :: "peers \<Rightarrow> amqp_command \<Rightarrow> bool node_act" where
  "declare_one p cmd =
     bnd (consumer_call (rpc_normal (pe_amqp p))) (\<lambda>good.
       if \<not> good then ret False
       else bnd (on_consumer (\<lambda>c. c\<lparr>cc_declared := cc_declared c @ [cmd]\<rparr>)) (\<lambda>_. ret True))"

fun declare_all :: "peers \<Rightarrow> amqp_command list \<Rightarrow> bool node_act" where
  "declare_all p [] = ret True"
| "declare_all p (cmd # cmds) =
     bnd (declare_one p cmd) (\<lambda>good. if \<not> good then ret False else declare_all p cmds)"

definition topology :: "amqp_command list" where
  "topology =
     [ExchangeDeclare kExchange ''topic'',
      ExchangeDeclare kDeadExchange ''topic'',
      QueueDeclare kDeadQueue [],
      QueueBind kDeadQueue kDeadExchange kDeadRoutingKey,
      QueueDeclare kQueue [(''x-dead-letter-exchange'', kDeadExchange), (''x-dead-letter-routing-key'', kDeadRoutingKey)],
      QueueBind kQueue kExchange kRoutingKey,
      BasicConsume kQueue]"

definition connectAndSubscribe :: "env \<Rightarrow> peers \<Rightarrow> bool node_act" where
  "connectAndSubscribe e p =
     bnd new_connection (\<lambda>_.
       bnd (consumer_call (socket_new_ok (pe_amqp p))) (\<lambda>socket.
         if \<not> socket then destroy_false
         else bnd (or_throw StdException (consumer_config e)) (\<lambda>cfg.
           bnd (consumer_call (socket_open_ok (pe_amqp p))) (\<lambda>opened.
             if \<not> opened then destroy_false
             else bnd (consumer_call (rpc_normal (pe_amqp p))) (\<lambda>login.
               if \<not> login then destroy_false
               else bnd (consumer_call (rpc_normal (pe_amqp p))) (\<lambda>channel.
                 if \<not> channel then destroy_false else declare_all p topology))))))"

text \<open>One request to the merchant and the wait for its answer.\<close>

definition send_request :: "peers \<Rightarrow> http_request \<Rightarrow> http_reply node_act" where
  "send_request p req =
     bnd (gets (\<lambda>s. merchant p (length (nd_requests s)))) (\<lambda>reply.
       bnd (modify (\<lambda>s. s\<lparr>nd_requests := nd_requests s @ [req]\<rparr>)) (\<lambda>_. ret reply))"

definition sleep_for :: "int \<Rightarrow> unit node_act" where
  "sleep_for k = modify (\<lambda>s. s\<lparr>nd_slept := nd_slept s + k\<rparr>)"

definition accepted_body :: "http_reply \<Rightarrow> string option" where
  "accepted_body reply =
     (case rp_response reply of Some (status, body) \<Rightarrow> if rp_ok reply \<and> status = 200 then Some body else None | None \<Rightarrow> None)"

definition error_text :: "http_reply \<Rightarrow> string" where
  "error_text reply = (case rp_response reply of Some (status, body) \<Rightarrow> body | None \<Rightarrow> ''request failed'')"

definition notifyRequest :: "env \<Rightarrow> string \<Rightarrow> string \<Rightarrow> string \<Rightarrow> string \<Rightarrow> http_request" where
  "notifyRequest e base notifyNo orderNo amount =
     \<lparr>hr_base = base, hr_path = kNotifyPath, hr_requestId = notifyNo,
      hr_body = json_styled e (jset ''amount'' (JString amount) (jset ''orderNo'' (JString orderNo) JNull))\<rparr>"

function notify_attempts :: "env \<Rightarrow> peers \<Rightarrow> http_request \<Rightarrow> string \<Rightarrow> int \<Rightarrow> bool node_act" where
  "notify_attempts e p req notifyNo attempt =
     bnd (send_request p req) (\<lambda>reply.
       case accepted_body reply of
         Some body \<Rightarrow> bnd (on_db (NotifyDao_markSuccess e notifyNo body)) (\<lambda>_. ret True)
       | None \<Rightarrow>
           if kMaxInProcessRetries < attempt + 1
           then bnd (on_db (NotifyDao_markFailed e notifyNo (attempt + 1) (error_text reply))) (\<lambda>_. ret False)
           else bnd (sleep_for (attempt + 1)) (\<lambda>_. notify_attempts e p req notifyNo (attempt + 1)))"
  by pat_completeness auto

termination
  by (relation "measure (\<lambda>(e, p, req, notifyNo, attempt). nat (3 - attempt))") (auto simp: kMaxInProcessRetries_def)

declare notify_attempts.simps [simp del]

text \<open>The fields of a message; \<open>None\<close>: jsoncpp throws, \<open>Some None\<close>: a required field is missing.\<close>

definition message_fields :: "json \<Rightarrow> (string \<times> string \<times> string) option option" where
  "message_fields json =
     (case isMember json ''messageId'' of None \<Rightarrow> None
      | Some False \<Rightarrow> Some None
      | Some True \<Rightarrow>
     (case isMember json ''orderNo'' of None \<Rightarrow> None
      | Some False \<Rightarrow> Some None
      | Some True \<Rightarrow>
     (case memberOr json ''messageId'' '''' of None \<Rightarrow> None | Some messageId \<Rightarrow>
     (case memberOr json ''orderNo'' '''' of None \<Rightarrow> None | Some orderNo \<Rightarrow>
     (case memberOr json ''amount'' '''' of None \<Rightarrow> None | Some amount \<Rightarrow> Some (Some (messageId, orderNo, amount)))))))"

definition notify_merchant :: "env \<Rightarrow> peers \<Rightarrow> string \<Rightarrow> string \<Rightarrow> string \<Rightarrow> bool node_act" where
  "notify_merchant e p messageId orderNo amount =
     bnd (gets nd_notifyBaseUrl) (\<lambda>base.
       bnd (on_db (NotifyDao_insertWithDedup e messageId orderNo (base @ kNotifyPath))) (\<lambda>outcome.
         if nir_outcome outcome = kNotifyDuplicate then ret True
         else notify_attempts e p (notifyRequest e base (nir_notifyNo outcome) orderNo amount) (nir_notifyNo outcome) 0))"

definition NotifyConsumer_process :: "env \<Rightarrow> peers \<Rightarrow> string \<Rightarrow> bool node_act" where
  "NotifyConsumer_process e p body =
     (case json_parse e body of
        None \<Rightarrow> ret False
      | Some json \<Rightarrow>
          bnd (or_throw StdException (message_fields json)) (\<lambda>fields.
            case fields of
              None \<Rightarrow> ret False
            | Some (messageId, orderNo, amount) \<Rightarrow> notify_merchant e p messageId orderNo amount))"

definition handleMessage :: "env \<Rightarrow> peers \<Rightarrow> string \<Rightarrow> nat \<Rightarrow> unit node_act" where
  "handleMessage e p body deliveryTag =
     bnd (NotifyConsumer_process e p body) (\<lambda>good.
       on_consumer (\<lambda>c. c\<lparr>cc_answers := cc_answers c @ [(deliveryTag, good)]\<rparr>))"

partial_function (option) consumeLoop :: "env \<Rightarrow> peers \<Rightarrow> node \<Rightarrow> ((exn + unit) \<times> node) option" where
  "consumeLoop e p s =
     (case consumer_call (consume_message p) s of
        None \<Rightarrow> None
      | Some (Inl x, t) \<Rightarrow> Some (Inl x, t)
      | Some (Inr c, t) \<Rightarrow>
          (case c of
             Silence \<Rightarrow> None
           | ConnectionLost \<Rightarrow> destroy_connection t
           | Delivered body tag \<Rightarrow>
               Option.bind (handleMessage e p body tag t) (\<lambda>(r, u).
                 case r of Inl x \<Rightarrow> Some (Inl x, u) | Inr _ \<Rightarrow> consumeLoop e p u)))"

text \<open>One turn of \<open>runLoop\<close>, and the thread, which leaves its loop only with an exception.\<close>

definition runLoop_turn :: "env \<Rightarrow> peers \<Rightarrow> unit node_act" where
  "runLoop_turn e p =
     bnd (connectAndSubscribe e p) (\<lambda>subscribed.
       bnd (if subscribed then consumeLoop e p else ret ()) (\<lambda>_. sleep_for kReconnectDelaySeconds))"

partial_function (option) runLoop :: "env \<Rightarrow> peers \<Rightarrow> node \<Rightarrow> ((exn + unit) \<times> node) option" where
  "runLoop e p s =
     Option.bind (runLoop_turn e p s) (\<lambda>(r, t). case r of Inl x \<Rightarrow> Some (Inl x, t) | Inr _ \<Rightarrow> runLoop e p t)"

lemmas notify_defs = readConfigString_def NotifyConsumer_start_def on_consumer_def consumer_call_def new_connection_def
  destroy_connection_def destroy_false_def consumer_config_def declare_one_def topology_def connectAndSubscribe_def
  send_request_def sleep_for_def accepted_body_def error_text_def notifyRequest_def message_fields_def notify_merchant_def
  NotifyConsumer_process_def handleMessage_def runLoop_turn_def kMaxInProcessRetries_def kReconnectDelaySeconds_def

declare notify_defs [eval_simps] declare_all.simps [eval_simps] notify_attempts.simps [eval_simps]

section \<open>Connecting\<close>

lemma declare_all_cases:
  assumes "declare_all p cmds s = Some (r, t)"
  shows "\<exists>b. r = Inr b \<and> cc_open (nd_consumer t) = cc_open (nd_consumer s) \<and> cc_conn (nd_consumer t) = cc_conn (nd_consumer s) \<and>
    (b \<longrightarrow> cc_declared (nd_consumer t) = cc_declared (nd_consumer s) @ cmds) \<and>
    cc_calls (nd_consumer s) + (if cmds = [] then 0 else 1) \<le> cc_calls (nd_consumer t)"
  using assms
proof (induction cmds arbitrary: s)
  case Nil
  then show ?case by (auto simp: eff_simps)
next
  case (Cons cmd cmds)
  show ?case
  proof (cases "rpc_normal (pe_amqp p) (cc_calls (nd_consumer s))")
    case True
    let ?u = "s\<lparr>nd_consumer := nd_consumer s\<lparr>cc_calls := Suc (cc_calls (nd_consumer s)), cc_declared := cc_declared (nd_consumer s) @ [cmd]\<rparr>\<rparr>"
    from Cons.prems True have "declare_all p cmds ?u = Some (r, t)"
      by (simp add: declare_one_def consumer_call_def on_consumer_def bnd_def gets_def modify_def ret_def)
    from Cons.IH [OF this] obtain b where "r = Inr b" "cc_open (nd_consumer t) = cc_open (nd_consumer s)"
      "cc_conn (nd_consumer t) = cc_conn (nd_consumer s)" "b \<longrightarrow> cc_declared (nd_consumer t) = (cc_declared (nd_consumer s) @ [cmd]) @ cmds"
      "Suc (cc_calls (nd_consumer s)) \<le> cc_calls (nd_consumer t)" by force
    then show ?thesis by (intro exI [of _ b]) simp
  next
    case False
    with Cons.prems have "r = Inr False" "t = s\<lparr>nd_consumer := nd_consumer s\<lparr>cc_calls := Suc (cc_calls (nd_consumer s))\<rparr>\<rparr>"
      by (simp_all add: declare_one_def consumer_call_def on_consumer_def bnd_def gets_def modify_def ret_def)
    then show ?thesis by auto
  qed
qed

text \<open>
  A refused subscription destroys its connection only when it fails before the first declaration;
  from then on the handle stays open.
\<close>

lemma subscribe_handles:
  assumes "connectAndSubscribe e p s = Some (Inr b, t)"
  shows "cc_open (nd_consumer t) =
      cc_open (nd_consumer s) + (if cc_calls (nd_consumer s) + 4 < cc_calls (nd_consumer t) then 1 else 0) \<and>
    (b \<longrightarrow> cc_conn (nd_consumer t) \<and> cc_declared (nd_consumer t) = cc_declared (nd_consumer s) @ topology)"
  using assms
  by (auto simp: connectAndSubscribe_def destroy_false_def destroy_connection_def new_connection_def consumer_call_def on_consumer_def
      eff_simps topology_def simp del: declare_all.simps split: if_splits option.splits dest!: declare_all_cases)

section \<open>One message\<close>

text \<open>Between two states of the consumer: rows keep their message identifiers, the other tables do not change.\<close>

definition notify_extends :: "node \<Rightarrow> node \<Rightarrow> bool" where
  "notify_extends s t \<longleftrightarrow>
     (\<exists>f. w_db (nd_world t) = (w_db (nd_world s))\<lparr>t_notify_record := map f (t_notify_record (w_db (nd_world s)))\<rparr> \<and>
          (\<forall>r. tn_message_id (f r) = tn_message_id r))"

lemma notify_extends_refl: "w_db (nd_world t) = w_db (nd_world s) \<Longrightarrow> notify_extends s t"
  unfolding notify_extends_def by (intro exI [of _ "\<lambda>r. r"]) simp

lemma notify_mark_extends:
  assumes "on_db (NotifyDao_markSuccess e no b) s = Some (r, t) \<or> on_db (NotifyDao_markFailed e no k b) s = Some (r, t)"
  shows "notify_extends s t \<and> nd_requests t = nd_requests s \<and> nd_consumer t = nd_consumer s"
  using assms notify_extends_refl
  unfolding NotifyDao_markSuccess_def NotifyDao_markFailed_def
  by (elim disjE) (auto simp: on_db_def execSqlSync_auto_def sql_notifySuccess_def sql_notifyFailed_def update_where_def notify_extends_def
      split: if_splits option.splits)

lemma notify_attempts_bound:
  assumes "notify_attempts e p req no a s = Some (r, t)" and "a \<le> 2"
  shows "notify_extends s t \<and> nd_consumer t = nd_consumer s \<and> length (nd_requests t) \<le> length (nd_requests s) + nat (3 - a)"
  using assms
proof (induction e p req no a arbitrary: s rule: notify_attempts.induct)
  case (1 e p req no a)
  let ?s1 = "s\<lparr>nd_requests := nd_requests s @ [req]\<rparr>"
  let ?reply = "merchant p (length (nd_requests s))"
  have one: "1 \<le> nat (3 - a)" using 1(3) by simp
  have mark: "notify_extends s t" "nd_consumer t = nd_consumer s" "length (nd_requests t) \<le> length (nd_requests s) + nat (3 - a)"
    if "notify_extends ?s1 t \<and> nd_requests t = nd_requests ?s1 \<and> nd_consumer t = nd_consumer ?s1"
    using that one by (auto simp: notify_extends_def)
  have run: "send_request p req s = Some (Inr ?reply, ?s1)"
    by (simp add: send_request_def bnd_def gets_def modify_def ret_def)
  from 1(2) have step: "(case accepted_body ?reply of
         Some body \<Rightarrow> bnd (on_db (NotifyDao_markSuccess e no body)) (\<lambda>_. ret True)
       | None \<Rightarrow>
           if kMaxInProcessRetries < a + 1
           then bnd (on_db (NotifyDao_markFailed e no (a + 1) (error_text ?reply))) (\<lambda>_. ret False)
           else bnd (sleep_for (a + 1)) (\<lambda>_. notify_attempts e p req no (a + 1))) ?s1 = Some (r, t)"
    by (simp add: notify_attempts.simps [of e p req no a] bnd_def [of "send_request p req"] run)
  show ?case
  proof (cases "accepted_body ?reply")
    case (Some body)
    with step obtain x where "on_db (NotifyDao_markSuccess e no body) ?s1 = Some (x, t)"
      by (auto simp: bnd_def ret_def split: option.splits sum.splits)
    with mark notify_mark_extends show ?thesis by blast
  next
    case None
    show ?thesis
    proof (cases "kMaxInProcessRetries < a + 1")
      case True
      with None step obtain x where "on_db (NotifyDao_markFailed e no (a + 1) (error_text ?reply)) ?s1 = Some (x, t)"
        by (auto simp: bnd_def ret_def split: option.splits sum.splits)
      with mark notify_mark_extends show ?thesis by blast
    next
      case False
      let ?s2 = "?s1\<lparr>nd_slept := nd_slept s + (a + 1)\<rparr>"
      from False None step have "notify_attempts e p req no (a + 1) ?s2 = Some (r, t)"
        by (simp add: sleep_for_def bnd_def modify_def)
      moreover from False have "Suc (nat (3 - (a + 1))) = nat (3 - a)" "a + 1 \<le> 2"
        by (simp_all add: kMaxInProcessRetries_def)
      ultimately show ?thesis using 1(1) [OF None False] by (fastforce simp: notify_extends_def)
    qed
  qed
qed


lemma insertWithDedup_cases:
  assumes "NotifyDao_insertWithDedup e mid ord url w = Some (x, w')"
  obtains (failed) exn where "x = Inl exn" "w_db w' = w_db w"
    | (duplicate) no where "x = Inr \<lparr>nir_outcome = kNotifyDuplicate, nir_notifyNo = ''''\<rparr>" "w_db w' = w_db w"
        "\<exists>row \<in> set (t_notify_record (w_db w)). sql_eq e (tn_notify_no row) no \<or> sql_eq e (tn_message_id row) mid"
    | (inserted) no where "x = Inr \<lparr>nir_outcome = kNotifyInserted, nir_notifyNo = no\<rparr>"
        "w_db w' = (w_db w)\<lparr>t_notify_record := t_notify_record (w_db w) @ [notify_row_for no ord url mid]\<rparr>"
        "\<forall>row \<in> set (t_notify_record (w_db w)). \<not> sql_eq e (tn_notify_no row) no \<and> \<not> sql_eq e (tn_message_id row) mid"
proof (cases x)
  case (Inl exn)
  with assms have "w_db w' = w_db w"
    by (auto simp: NotifyDao_insertWithDedup_def eff_simps execSqlSync_auto_def split: if_splits option.splits)
  with Inl show thesis by (rule failed)
next
  case (Inr res)
  with assms obtain no n where no: "notify_ins e (notify_row_for no ord url mid) (w_db w) = (w_db w', n)"
    "res = (if n = 1 then \<lparr>nir_outcome = kNotifyInserted, nir_notifyNo = no\<rparr> else \<lparr>nir_outcome = kNotifyDuplicate, nir_notifyNo = ''''\<rparr>)"
    by (force simp: NotifyDao_insertWithDedup_def eff_simps sql_insertNotify_def)
  show thesis
  proof (cases "list_ex (\<lambda>r. sql_eq e (tn_notify_no r) no \<or> sql_eq e (tn_message_id r) mid) (t_notify_record (w_db w))")
    case True
    with no Inr show thesis by (intro duplicate [of no]) (simp_all add: notify_ins_def notify_row_for_def list_ex_iff)
  next
    case False
    with no Inr show thesis by (intro inserted [of no]) (auto simp: notify_ins_def notify_row_for_def list_ex_iff)
  qed
qed

text \<open>
  A message is either left alone (malformed, incomplete, a duplicate, or a fault before anything is
  recorded), or recorded by one new row, with at most three requests.
\<close>

definition left_alone :: "env \<Rightarrow> string \<Rightarrow> node \<Rightarrow> exn + bool \<Rightarrow> node \<Rightarrow> bool" where
  "left_alone e mid s r t \<longleftrightarrow>
     w_db (nd_world t) = w_db (nd_world s) \<and> nd_requests t = nd_requests s \<and> nd_consumer t = nd_consumer s \<and>
     (r = Inr True \<longrightarrow> (\<exists>no. \<exists>x \<in> set (t_notify_record (w_db (nd_world s))). sql_eq e (tn_notify_no x) no \<or> sql_eq e (tn_message_id x) mid))"

definition newly_recorded :: "env \<Rightarrow> string \<Rightarrow> node \<Rightarrow> node \<Rightarrow> bool" where
  "newly_recorded e mid s t \<longleftrightarrow>
     (\<forall>x \<in> set (t_notify_record (w_db (nd_world s))). \<not> sql_eq e (tn_message_id x) mid) \<and>
     (\<exists>f row. w_db (nd_world t) = (w_db (nd_world s))\<lparr>t_notify_record := map f (t_notify_record (w_db (nd_world s)) @ [row])\<rparr> \<and>
        tn_message_id row = mid \<and> (\<forall>r. tn_message_id (f r) = tn_message_id r)) \<and>
     length (nd_requests t) \<le> length (nd_requests s) + 3 \<and> nd_consumer t = nd_consumer s"

lemma notify_merchant_cases:
  assumes "notify_merchant e p mid ord amt s = Some (r, t)"
  shows "left_alone e mid s r t \<and> r \<noteq> Inr False \<or> newly_recorded e mid s t"
proof -
  let ?url = "nd_notifyBaseUrl s @ kNotifyPath"
  from assms obtain x w where ins: "NotifyDao_insertWithDedup e mid ord ?url (nd_world s) = Some (x, w)"
    by (auto simp: notify_merchant_def bnd_def gets_def on_db_def split: option.splits)
  from ins show ?thesis
  proof (cases rule: insertWithDedup_cases)
    case (failed exn)
    with ins assms have "t = s\<lparr>nd_world := w\<rparr>" "r = Inl exn"
      by (simp_all add: notify_merchant_def bnd_def gets_def on_db_def)
    with failed show ?thesis by (simp add: left_alone_def)
  next
    case (duplicate no)
    with ins assms have "t = s\<lparr>nd_world := w\<rparr>" "r = Inr True"
      by (simp_all add: notify_merchant_def bnd_def gets_def on_db_def ret_def)
    with duplicate show ?thesis by (auto simp: left_alone_def)
  next
    case (inserted no)
    let ?req = "notifyRequest e (nd_notifyBaseUrl s) no ord amt"
    from assms ins inserted have "notify_attempts e p ?req no 0 (s\<lparr>nd_world := w\<rparr>) = Some (r, t)"
      by (simp add: notify_merchant_def bnd_def gets_def on_db_def)
    from notify_attempts_bound [OF this] have "notify_extends (s\<lparr>nd_world := w\<rparr>) t" "nd_consumer t = nd_consumer s"
      "length (nd_requests t) \<le> length (nd_requests s) + 3" by simp_all
    moreover from this(1) inserted(2) obtain f where
      "w_db (nd_world t) = (w_db (nd_world s))\<lparr>t_notify_record := map f (t_notify_record (w_db (nd_world s)) @ [notify_row_for no ord ?url mid])\<rparr>"
      "\<forall>r. tn_message_id (f r) = tn_message_id r"
      by (auto simp: notify_extends_def)
    ultimately have "newly_recorded e mid s t" unfolding newly_recorded_def using inserted(3)
      by (intro conjI exI [of _ f] exI [of _ "notify_row_for no ord ?url mid"]) (simp_all add: notify_row_for_def)
    then show ?thesis ..
  qed
qed

lemma process_cases:
  assumes "NotifyConsumer_process e p body s = Some (r, t)"
  obtains (unread) "t = s" "r \<noteq> Inr True"
    | (read) j mid ord amt where "json_parse e body = Some j" "message_fields j = Some (Some (mid, ord, amt))"
        "left_alone e mid s r t \<and> r \<noteq> Inr False \<or> newly_recorded e mid s t"
proof (cases "\<exists>j q. json_parse e body = Some j \<and> message_fields j = Some (Some q)")
  case True
  then obtain j mid ord amt where j: "json_parse e body = Some j" "message_fields j = Some (Some (mid, ord, amt))" by auto
  with assms have "notify_merchant e p mid ord amt s = Some (r, t)"
    by (simp add: NotifyConsumer_process_def or_throw_def)
  from read [OF j notify_merchant_cases [OF this]] show thesis .
next
  case False
  with assms show thesis
    by (intro unread)
      (auto simp: NotifyConsumer_process_def or_throw_def ret_def throw_def bnd_def split: option.splits)
qed

section \<open>Sequences of deliveries\<close>

abbreviation deliver :: "env \<Rightarrow> peers \<Rightarrow> string \<times> nat \<Rightarrow> unit node_act" where
  "deliver e p \<equiv> \<lambda>(body, tag). handleMessage e p body tag"

lemma handleMessage_eq:
  assumes "handleMessage e p body tag s = Some (r, t)"
  obtains x u where "NotifyConsumer_process e p body s = Some (x, u)" "nd_world t = nd_world u" "nd_requests t = nd_requests u"
    "nd_consumer t = (case x of Inl _ \<Rightarrow> nd_consumer u | Inr b \<Rightarrow> (nd_consumer u)\<lparr>cc_answers := cc_answers (nd_consumer u) @ [(tag, b)]\<rparr>)"
    "r = (case x of Inl e \<Rightarrow> Inl e | Inr _ \<Rightarrow> Inr ())"
  using assms by (auto simp: handleMessage_def bnd_def on_consumer_def modify_def split: option.splits sum.splits)

text \<open>The identifiers of a message stay recorded, and a request is paid for by a row.\<close>

definition is_recorded :: "env \<Rightarrow> string \<Rightarrow> node \<Rightarrow> bool" where
  "is_recorded e mid s \<longleftrightarrow> (\<exists>x \<in> set (t_notify_record (w_db (nd_world s))). sql_eq e (tn_message_id x) mid)"

definition notify_paid :: "node \<Rightarrow> int" where
  "notify_paid s = 3 * int (length (t_notify_record (w_db (nd_world s)))) - int (length (nd_requests s))"

definition ids_distinct :: "env \<Rightarrow> node \<Rightarrow> bool" where
  "ids_distinct e s \<longleftrightarrow> distinct (map (\<lambda>r. ckey e (tn_message_id r)) (t_notify_record (w_db (nd_world s))))"

lemma process_recorded:
  assumes "NotifyConsumer_process e p body s = Some (r, t)"
  shows "is_recorded e mid s \<longrightarrow> is_recorded e mid t" and "notify_paid s \<le> notify_paid t"
    and "ids_distinct e s \<longrightarrow> ids_distinct e t"
  using assms
  by (cases rule: process_cases; force simp: is_recorded_def notify_paid_def left_alone_def newly_recorded_def ids_distinct_def comp_def sql_eq_def)+

lemma deliver_recorded:
  assumes "deliver e p d s = Some (r, t)"
  shows "is_recorded e mid s \<longrightarrow> is_recorded e mid t" and "notify_paid s \<le> notify_paid t"
    and "ids_distinct e s \<longrightarrow> ids_distinct e t"
proof -
  from assms obtain x u where u: "NotifyConsumer_process e p (fst d) s = Some (x, u)" "nd_world t = nd_world u" "nd_requests t = nd_requests u"
    by (auto simp: case_prod_beta elim: handleMessage_eq)
  from process_recorded [OF u(1)] u(2,3) show "is_recorded e mid s \<longrightarrow> is_recorded e mid t" "notify_paid s \<le> notify_paid t"
      "ids_distinct e s \<longrightarrow> ids_distinct e t"
    by (simp_all add: is_recorded_def notify_paid_def ids_distinct_def)
qed

interpretation deliveries_recorded: invariant_ops "deliver e p" "is_recorded e mid" for e p mid
  by unfold_locales (use deliver_recorded in blast)

interpretation deliveries_paid: invariant_ops "deliver e p" "\<lambda>s. k \<le> notify_paid s" for e p k
  by unfold_locales (use deliver_recorded(2) in fastforce)

interpretation deliveries_distinct: invariant_ops "deliver e p" "ids_distinct e" for e p
  by unfold_locales (use deliver_recorded(3) in blast)

section \<open>The attempts\<close>

definition attempts_made :: "peers \<Rightarrow> nat \<Rightarrow> nat" where
  "attempts_made p k =
     (if accepted_body (merchant p k) \<noteq> None then 1 else if accepted_body (merchant p (k + 1)) \<noteq> None then 2 else 3)"

definition final_reply :: "peers \<Rightarrow> nat \<Rightarrow> http_reply" where
  "final_reply p k = merchant p (k + attempts_made p k - 1)"

definition pauses :: "nat \<Rightarrow> int" where
  "pauses n = (if n = 1 then 0 else if n = 2 then 1 else 3)"

definition notify_final :: "http_reply \<Rightarrow> notify_row \<Rightarrow> notify_row" where
  "notify_final reply row =
     (case accepted_body reply of
        Some body \<Rightarrow> row\<lparr>tn_status := 1, tn_response_body := Some body\<rparr>
      | None \<Rightarrow> row\<lparr>tn_status := 2, tn_retry_count := 3, tn_response_body := Some (error_text reply)\<rparr>)"

lemma notify_mark_last:
  assumes "healthy_from e (w_sql w)" and "t_notify_record (w_db w) = rs @ [row]" and "tn_notify_no row = no"
    and "\<forall>r \<in> set rs. ckey e (tn_notify_no r) \<noteq> ckey e no"
  shows "NotifyDao_markSuccess e no b w = Some (Inr (), w\<lparr>w_db := (w_db w)\<lparr>t_notify_record := rs @ [row\<lparr>tn_status := 1, tn_response_body := Some b\<rparr>]\<rparr>, w_sql := Suc (w_sql w)\<rparr>)"
    and "NotifyDao_markFailed e no k b w = Some (Inr (), w\<lparr>w_db := (w_db w)\<lparr>t_notify_record := rs @ [row\<lparr>tn_status := 2, tn_retry_count := k, tn_response_body := Some b\<rparr>]\<rparr>, w_sql := Suc (w_sql w)\<rparr>)"
proof -
  have others: "map (\<lambda>r. if ckey e (tn_notify_no r) = ckey e no then g r else r) rs = rs" for g
    using assms(4) by (simp add: map_idI)
  show "NotifyDao_markSuccess e no b w = Some (Inr (), w\<lparr>w_db := (w_db w)\<lparr>t_notify_record := rs @ [row\<lparr>tn_status := 1, tn_response_body := Some b\<rparr>]\<rparr>, w_sql := Suc (w_sql w)\<rparr>)"
    "NotifyDao_markFailed e no k b w = Some (Inr (), w\<lparr>w_db := (w_db w)\<lparr>t_notify_record := rs @ [row\<lparr>tn_status := 2, tn_retry_count := k, tn_response_body := Some b\<rparr>]\<rparr>, w_sql := Suc (w_sql w)\<rparr>)"
    using assms(2,3) healthy_fromD [OF assms(1) order_refl] assms(1)
    by (simp_all add: NotifyDao_markSuccess_def NotifyDao_markFailed_def execSqlSync_auto_def sql_notifySuccess_def sql_notifyFailed_def
        update_where_def sql_eq_def others)
qed

lemma attempt_step:
  "notify_attempts e p req no a s =
    (case accepted_body (merchant p (length (nd_requests s))) of
       Some body \<Rightarrow> bnd (on_db (NotifyDao_markSuccess e no body)) (\<lambda>_. ret True)
     | None \<Rightarrow> if kMaxInProcessRetries < a + 1
         then bnd (on_db (NotifyDao_markFailed e no (a + 1) (error_text (merchant p (length (nd_requests s)))))) (\<lambda>_. ret False)
         else bnd (sleep_for (a + 1)) (\<lambda>_. notify_attempts e p req no (a + 1))) (s\<lparr>nd_requests := nd_requests s @ [req]\<rparr>)"
  by (subst notify_attempts.simps) (simp add: send_request_def bnd_def [of "gets f" for f] bnd_def [of "modify f" for f] gets_def modify_def
      bnd_def [of "\<lambda>s. Some (Inr (x s), y s)" for x y] ret_def)

lemma notify_attempts_run:
  assumes "healthy_from e (w_sql (nd_world s))" and "t_notify_record (w_db (nd_world s)) = rs @ [row]" and "tn_notify_no row = no"
    and "\<forall>r \<in> set rs. ckey e (tn_notify_no r) \<noteq> ckey e no"
  shows "\<exists>t. notify_attempts e p req no 0 s = Some (Inr (accepted_body (final_reply p (length (nd_requests s))) \<noteq> None), t) \<and>
    nd_requests t = nd_requests s @ replicate (attempts_made p (length (nd_requests s))) req \<and>
    w_db (nd_world t) = (w_db (nd_world s))\<lparr>t_notify_record := rs @ [notify_final (final_reply p (length (nd_requests s))) row]\<rparr> \<and>
    nd_slept t = nd_slept s + pauses (attempts_made p (length (nd_requests s)))"
proof -
  let ?k = "length (nd_requests s)"
  note run = attempt_step [of e p req no] on_db_def sleep_for_def modify_def ret_def bnd_def notify_mark_last [OF assms] kMaxInProcessRetries_def
    final_reply_def attempts_made_def pauses_def notify_final_def
  show ?thesis
  proof (cases "accepted_body (merchant p ?k)")
    case Some
    then show ?thesis by (simp add: run)
  next
    case first: None
    show ?thesis
    proof (cases "accepted_body (merchant p (Suc ?k))")
      case Some
      with first show ?thesis by (simp add: run numeral_2_eq_2)
    next
      case second: None
      with first show ?thesis
        by (cases "accepted_body (merchant p (Suc (Suc ?k)))") (simp_all add: run numeral_3_eq_3 numeral_2_eq_2)
    qed
  qed
qed

text \<open>A new message on a healthy server.\<close>

lemma notify_process_run:
  assumes "healthy_from e (w_sql (nd_world s))" and "json_parse e body = Some j"
    and "message_fields j = Some (Some (mid, ord, amt))" and "nextId e (nd_world s) = Some (Inr no, w1)"
    and "list_all (\<lambda>r. ckey e (tn_notify_no r) \<noteq> ckey e no \<and> ckey e (tn_message_id r) \<noteq> ckey e mid) (t_notify_record (w_db (nd_world s)))"
  shows "\<exists>t. NotifyConsumer_process e p body s = Some (Inr (accepted_body (final_reply p (length (nd_requests s))) \<noteq> None), t) \<and>
    nd_requests t = nd_requests s @
      replicate (attempts_made p (length (nd_requests s))) (notifyRequest e (nd_notifyBaseUrl s) no ord amt) \<and>
    w_db (nd_world t) = (w_db (nd_world s))\<lparr>t_notify_record := t_notify_record (w_db (nd_world s)) @
      [notify_final (final_reply p (length (nd_requests s))) (notify_row_for no ord (nd_notifyBaseUrl s @ kNotifyPath) mid)]\<rparr> \<and>
    nd_slept t = nd_slept s + pauses (attempts_made p (length (nd_requests s)))"
proof -
  let ?row = "notify_row_for no ord (nd_notifyBaseUrl s @ kNotifyPath) mid"
  let ?rs = "t_notify_record (w_db (nd_world s))"
  define w2 where "w2 = w1\<lparr>w_db := (w_db (nd_world s))\<lparr>t_notify_record := ?rs @ [?row]\<rparr>, w_sql := Suc (w_sql w1)\<rparr>"
  from assms(4) have w1: "w_db w1 = w_db (nd_world s)" "w_sql w1 = w_sql (nd_world s)" by (auto simp: eff_simps)
  have w2: "w_db w2 = (w_db (nd_world s))\<lparr>t_notify_record := ?rs @ [?row]\<rparr>" "w_sql w2 = Suc (w_sql (nd_world s))"
    by (simp_all add: w2_def w1)
  have "NotifyDao_insertWithDedup e mid ord (nd_notifyBaseUrl s @ kNotifyPath) (nd_world s) =
      Some (Inr \<lparr>nir_outcome = kNotifyInserted, nir_notifyNo = no\<rparr>, w2)"
    using assms(1,5)
    by (auto simp: NotifyDao_insertWithDedup_def assms(4) execSqlSync_auto_def sql_insertNotify_def notify_ins_def
        notify_row_for_def list_all_iff list_ex_iff sql_eq_def w1 w2_def healthy_fromD bnd_def ret_def)
  with assms(2,3) have "NotifyConsumer_process e p body s =
      notify_attempts e p (notifyRequest e (nd_notifyBaseUrl s) no ord amt) no 0 (s\<lparr>nd_world := w2\<rparr>)"
    by (simp add: NotifyConsumer_process_def or_throw_def notify_merchant_def bnd_def gets_def on_db_def ret_def)
  moreover have "healthy_from e (w_sql (nd_world (s\<lparr>nd_world := w2\<rparr>)))" using assms(1) by (simp add: w2 healthy_from_mono)
  ultimately show ?thesis
    using notify_attempts_run [of e "s\<lparr>nd_world := w2\<rparr>" ?rs ?row no p "notifyRequest e (nd_notifyBaseUrl s) no ord amt"] assms(5)
    by (auto simp: w2 notify_row_for_def list_all_iff)
qed

section \<open>Properties\<close>

text \<open>
  C23: what a new message leads to. On a healthy server a well-formed message that is not recorded
  yet is recorded, and the merchant gets one, two or three identical requests, up to the first answer
  with status 200. The message is acknowledged exactly if there was such an answer; its row then holds
  the answer, else the number of attempts and the last error; no other table changes, and the pauses
  are one and two seconds.
\<close>

theorem notify_outcome:
  assumes "healthy_from e (w_sql (nd_world s))" and "json_parse e body = Some j"
    and "message_fields j = Some (Some (mid, ord, amt))" and "nextId e (nd_world s) = Some (Inr no, w1)"
    and "list_all (\<lambda>r. ckey e (tn_notify_no r) \<noteq> ckey e no \<and> ckey e (tn_message_id r) \<noteq> ckey e mid) (t_notify_record (w_db (nd_world s)))"
  shows "\<exists>t. NotifyConsumer_process e p body s = Some (Inr (accepted_body (final_reply p (length (nd_requests s))) \<noteq> None), t) \<and>
    nd_requests t = nd_requests s @
      replicate (attempts_made p (length (nd_requests s))) (notifyRequest e (nd_notifyBaseUrl s) no ord amt) \<and>
    w_db (nd_world t) = (w_db (nd_world s))\<lparr>t_notify_record := t_notify_record (w_db (nd_world s)) @
      [notify_final (final_reply p (length (nd_requests s))) (notify_row_for no ord (nd_notifyBaseUrl s @ kNotifyPath) mid)]\<rparr> \<and>
    nd_slept t = nd_slept s + pauses (attempts_made p (length (nd_requests s)))"
  by (rule notify_process_run [OF assms])

text \<open>
  C24: a message is notified once. Once a message is recorded, in whatever state its notification
  was left, every later delivery of the same message, after any other deliveries and faults, sends
  nothing to the merchant and changes no table; if the delivery is answered at all, it is
  acknowledged. (So a consumer that stops between recording a message and notifying the merchant
  never notifies it: the redelivery is taken for a duplicate.)
\<close>

theorem notify_once:
  assumes "is_recorded e mid s" and "run_ops (deliver e p) ds s = Some (rs, u)"
    and "json_parse e body = Some j" and "message_fields j = Some (Some (mid, ord, amt))"
    and "handleMessage e p body tag u = Some (r, t)"
  shows "nd_requests t = nd_requests u \<and> w_db (nd_world t) = w_db (nd_world u) \<and>
    (r = Inr () \<longrightarrow> cc_answers (nd_consumer t) = cc_answers (nd_consumer u) @ [(tag, True)])"
proof -
  from deliveries_recorded.inv_run_ops [OF assms(1,2)] have rec: "is_recorded e mid u" .
  from assms(5) obtain x v where v: "NotifyConsumer_process e p body u = Some (x, v)" "nd_world t = nd_world v" "nd_requests t = nd_requests v"
    "nd_consumer t = (case x of Inl _ \<Rightarrow> nd_consumer v | Inr b \<Rightarrow> (nd_consumer v)\<lparr>cc_answers := cc_answers (nd_consumer v) @ [(tag, b)]\<rparr>)"
    "r = (case x of Inl e \<Rightarrow> Inl e | Inr _ \<Rightarrow> Inr ())" by (rule handleMessage_eq)
  from assms(3,4) v(1) have "notify_merchant e p mid ord amt u = Some (x, v)"
    by (simp add: NotifyConsumer_process_def or_throw_def)
  from notify_merchant_cases [OF this] rec have "left_alone e mid u x v \<and> x \<noteq> Inr False"
    by (auto simp: newly_recorded_def is_recorded_def)
  with v(2-) show ?thesis by (cases x) (auto simp: left_alone_def)
qed

text \<open>
  C25: the merchant is not flooded. Over any sequence of deliveries, with any answers of the merchant
  and any faults, the number of new requests is at most three times the number of new rows in the
  notification table, whose message identifiers are pairwise distinct.
\<close>

theorem notify_budget:
  assumes "run_ops (deliver e p) ds s = Some (rs, u)" and "schema_ok e (w_db (nd_world s))"
  shows "int (length (nd_requests u)) - int (length (nd_requests s)) \<le>
      3 * (int (length (t_notify_record (w_db (nd_world u)))) - int (length (t_notify_record (w_db (nd_world s))))) \<and>
    distinct (map (\<lambda>r. ckey e (tn_message_id r)) (t_notify_record (w_db (nd_world u))))"
proof
  show "int (length (nd_requests u)) - int (length (nd_requests s)) \<le>
      3 * (int (length (t_notify_record (w_db (nd_world u)))) - int (length (t_notify_record (w_db (nd_world s)))))"
    using deliveries_paid.inv_run_ops [OF order_refl assms(1)] by (simp add: notify_paid_def)
  from assms(2) have "ids_distinct e s" by (simp add: ids_distinct_def schema_ok_def notify_ok_def)
  from deliveries_distinct.inv_run_ops [OF this assms(1)]
  show "distinct (map (\<lambda>r. ckey e (tn_message_id r)) (t_notify_record (w_db (nd_world u))))" by (simp add: ids_distinct_def)
qed

text \<open>
  A delivery whose body is JSON that is neither an object nor null (or whose fields are not scalars)
  makes jsoncpp throw; nothing catches the exception, the message is neither acknowledged nor
  rejected, and the thread, and with it the process, ends, although failures are meant to be rejected
  into the dead letter queue (\<^verbatim>\<open>NotifyConsumer.cc:184\<close>). A body of null lacks the fields and is rejected.
\<close>

lemma poison_stops_consumer:
  assumes "connectAndSubscribe e p s = Some (Inr True, u)" and "consume_message p (cc_calls (nd_consumer u)) = Delivered body tag"
    and "json_parse e body = Some j" and "message_fields j = None"
  shows "\<exists>t. runLoop e p s = Some (Inl StdException, t) \<and> cc_answers (nd_consumer t) = cc_answers (nd_consumer u)"
proof -
  let ?t = "u\<lparr>nd_consumer := nd_consumer u\<lparr>cc_calls := Suc (cc_calls (nd_consumer u))\<rparr>\<rparr>"
  have "handleMessage e p body tag ?t = Some (Inl StdException, ?t)"
    using assms(3,4) by (simp add: handleMessage_def NotifyConsumer_process_def bnd_def or_throw_def throw_def)
  with assms(2) have "consumeLoop e p u = Some (Inl StdException, ?t)"
    by (subst consumeLoop.simps) (simp add: consumer_call_def on_consumer_def bnd_def gets_def modify_def ret_def)
  with assms(1) have "runLoop_turn e p s = Some (Inl StdException, ?t)" by (simp add: runLoop_turn_def)
  then have "runLoop e p s = Some (Inl StdException, ?t)" by (subst runLoop.simps) simp
  then show ?thesis by simp
qed

section \<open>Witnesses\<close>

definition notify_env :: env where
  "notify_env = demo_env\<lparr>json_parse := (\<lambda>body. if body = ''[]'' then Some (JArray [])
     else Some (JObject [(''amount'', JString ''2.50''), (''messageId'', JString ''m1''), (''orderNo'', JString ''1'')]))\<rparr>"

text \<open>A merchant that answers the third request, and a queue whose first message is an array.\<close>

definition demo_peers :: peers where
  "demo_peers = \<lparr>pe_amqp = demo_amqp True, consume_message = (\<lambda>_. Delivered ''[]'' 5),
     merchant = (\<lambda>k. if k < 2 then \<lparr>rp_ok = False, rp_response = None\<rparr> else \<lparr>rp_ok = True, rp_response = Some (200, ''ok'')\<rparr>)\<rparr>"

definition interrupted_node :: node where
  "interrupted_node = relay_node\<lparr>nd_world := demo_world\<lparr>w_db := demo_db\<lparr>t_notify_record := [notify_row_for ''n1'' ''1'' ''u'' ''m1'']\<rparr>\<rparr>\<rparr>"

lemmas notify_demo_defs = notify_env_def demo_peers_def interrupted_node_def relay_demo_defs

theorem notify_outcome_witness:
  "\<exists>t. NotifyConsumer_process notify_env demo_peers ''m'' relay_node = Some (Inr True, t) \<and> length (nd_requests t) = 3 \<and> nd_slept t = 3"
proof -
  let ?w = "nd_world relay_node"
  obtain no w1 where id: "nextId notify_env ?w = Some (Inr no, w1)"
    by (simp add: eval_simps notify_demo_defs)
  have "healthy_from notify_env (w_sql ?w)" by (simp add: healthy_from_def notify_demo_defs)
  moreover have "json_parse notify_env ''m'' = Some (JObject [(''amount'', JString ''2.50''), (''messageId'', JString ''m1''), (''orderNo'', JString ''1'')])"
    by (simp add: notify_env_def)
  moreover have "message_fields (JObject [(''amount'', JString ''2.50''), (''messageId'', JString ''m1''), (''orderNo'', JString ''1'')]) = Some (Some (''m1'', ''1'', ''2.50''))"
    by (simp add: eval_simps)
  moreover have "list_all (\<lambda>r. ckey notify_env (tn_notify_no r) \<noteq> ckey notify_env no \<and> ckey notify_env (tn_message_id r) \<noteq> ckey notify_env ''m1'') (t_notify_record (w_db ?w))"
    by (simp add: notify_demo_defs)
  moreover have "nd_requests relay_node = []" "nd_slept relay_node = 0" "attempts_made demo_peers 0 = 3" "accepted_body (final_reply demo_peers 0) = Some ''ok''"
    by (simp_all add: attempts_made_def final_reply_def accepted_body_def notify_demo_defs)
  ultimately show ?thesis
    using notify_outcome [of notify_env relay_node "''m''" _ "''m1''" "''1''" "''2.50''" no w1 demo_peers] id
    by (auto simp: pauses_def)
qed

theorem notify_once_witness:
  "\<exists>t. handleMessage notify_env demo_peers ''m'' 5 interrupted_node = Some (Inr (), t) \<and> nd_requests t = nd_requests interrupted_node"
proof -
  have "\<exists>t. handleMessage notify_env demo_peers ''m'' 5 interrupted_node = Some (Inr (), t)"
    by (simp add: eval_simps notify_demo_defs cong: eval_cong)
  then obtain t where t: "handleMessage notify_env demo_peers ''m'' 5 interrupted_node = Some (Inr (), t)" ..
  have "is_recorded notify_env ''m1'' interrupted_node"
    by (simp add: is_recorded_def sql_eq_def notify_row_for_def notify_demo_defs)
  from notify_once [OF this, of demo_peers "[]" "[]" interrupted_node "''m''" _ "''1''" "''2.50''" 5 "Inr ()" t] t show ?thesis
    by (simp add: eval_simps notify_env_def)
qed

theorem notify_budget_witness:
  "\<exists>u. run_ops (deliver notify_env demo_peers) [(''m'', 5), (''m'', 6)] relay_node = Some ([Inr (), Inr ()], u) \<and>
     int (length (nd_requests u)) - int (length (nd_requests relay_node)) \<le>
       3 * (int (length (t_notify_record (w_db (nd_world u)))) - int (length (t_notify_record (w_db (nd_world relay_node)))))"
proof -
  have "\<exists>u. run_ops (deliver notify_env demo_peers) [(''m'', 5), (''m'', 6)] relay_node = Some ([Inr (), Inr ()], u)"
    by (simp add: eval_simps notify_demo_defs cong: eval_cong)
  moreover have "schema_ok notify_env (w_db (nd_world relay_node))" by (simp add: notify_demo_defs eval_simps)
  ultimately show ?thesis using notify_budget by metis
qed

lemma poison_stops_consumer_witness:
  "\<exists>t. runLoop notify_env demo_peers relay_node = Some (Inl StdException, t)"
proof -
  have "\<exists>u. connectAndSubscribe notify_env demo_peers relay_node = Some (Inr True, u)"
    by (simp add: eval_simps notify_demo_defs cong: eval_cong)
  then obtain u where "connectAndSubscribe notify_env demo_peers relay_node = Some (Inr True, u)" ..
  moreover have "consume_message demo_peers (cc_calls (nd_consumer u)) = Delivered ''[]'' 5"
    "json_parse notify_env ''[]'' = Some (JArray [])" "message_fields (JArray []) = None"
    by (simp_all add: demo_peers_def notify_env_def message_fields_def)
  ultimately show ?thesis using poison_stops_consumer by blast
qed

end
