(* ===== verification/ReconcileClassify.thy ===== *)
theory ReconcileClassify
  imports Models
begin

text \<open>
  The pure part of \<^verbatim>\<open>src/services/ReconcileService.cc\<close>: \<open>classifyReconcileDiffs\<close>, which compares the two
  sides by trade number, and the reading of a bill line. The reference is a decision per trade
  number; the implementation with its two indexes and three loops is shown equal to it.
\<close>

section \<open>Comparison of the two sides\<close>

record ClassifiedDiff =
  cdf_type :: ReconcileDiffType
  cdf_channelTradeNo :: string
  cdf_orderNo :: string
  cdf_localFen :: int64
  cdf_channelFen :: int64
  cdf_diffFen :: int64

definition localOnlyDiff :: "string \<Rightarrow> ReconcileSideRow \<Rightarrow> ClassifiedDiff" where
  "localOnlyDiff tradeNo localRow =
     \<lparr>cdf_type = kLocalOnly, cdf_channelTradeNo = tradeNo, cdf_orderNo = srow_orderNo localRow,
      cdf_localFen = srow_amountFen localRow, cdf_channelFen = 0, cdf_diffFen = srow_amountFen localRow\<rparr>"

definition channelOnlyDiff :: "string \<Rightarrow> ReconcileSideRow \<Rightarrow> ClassifiedDiff" where
  "channelOnlyDiff tradeNo channelRow =
     \<lparr>cdf_type = kChannelOnly, cdf_channelTradeNo = tradeNo, cdf_orderNo = srow_orderNo channelRow,
      cdf_localFen = 0, cdf_channelFen = srow_amountFen channelRow, cdf_diffFen = wrap64 (- srow_amountFen channelRow)\<rparr>"

definition amountDiff :: "string \<Rightarrow> ReconcileSideRow \<Rightarrow> ReconcileSideRow \<Rightarrow> ClassifiedDiff" where
  "amountDiff tradeNo localRow channelRow =
     \<lparr>cdf_type = kDiffAmountMismatch, cdf_channelTradeNo = tradeNo, cdf_orderNo = srow_orderNo localRow,
      cdf_localFen = srow_amountFen localRow, cdf_channelFen = srow_amountFen channelRow,
      cdf_diffFen = wrap64 (srow_amountFen localRow - srow_amountFen channelRow)\<rparr>"

text \<open>The three loops, each over an index in the order of its keys.\<close>

definition localOnlyDiffs :: "(string \<times> ReconcileSideRow) list \<Rightarrow> (string \<times> ReconcileSideRow) list \<Rightarrow> ClassifiedDiff list" where
  "localOnlyDiffs localByTradeNo channelByTradeNo =
     concat (map (\<lambda>(tradeNo, localRow).
       if omap_find tradeNo channelByTradeNo = None then [localOnlyDiff tradeNo localRow] else []) localByTradeNo)"

definition channelOnlyDiffs :: "(string \<times> ReconcileSideRow) list \<Rightarrow> (string \<times> ReconcileSideRow) list \<Rightarrow> ClassifiedDiff list" where
  "channelOnlyDiffs localByTradeNo channelByTradeNo =
     concat (map (\<lambda>(tradeNo, channelRow).
       if omap_find tradeNo localByTradeNo = None then [channelOnlyDiff tradeNo channelRow] else []) channelByTradeNo)"

definition amountDiffs :: "(string \<times> ReconcileSideRow) list \<Rightarrow> (string \<times> ReconcileSideRow) list \<Rightarrow> ClassifiedDiff list" where
  "amountDiffs localByTradeNo channelByTradeNo =
     concat (map (\<lambda>(tradeNo, localRow).
       case omap_find tradeNo channelByTradeNo of
         None \<Rightarrow> []
       | Some channelRow \<Rightarrow>
           if srow_amountFen channelRow \<noteq> srow_amountFen localRow then [amountDiff tradeNo localRow channelRow] else [])
       localByTradeNo)"

definition classifyReconcileDiffs :: "ReconcileSideRow list \<Rightarrow> ReconcileSideRow list \<Rightarrow> ClassifiedDiff list" where
  "classifyReconcileDiffs local channel =
     (let localByTradeNo = omap_index srow_channelTradeNo local;
          channelByTradeNo = omap_index srow_channelTradeNo channel
      in localOnlyDiffs localByTradeNo channelByTradeNo @ channelOnlyDiffs localByTradeNo channelByTradeNo @
         amountDiffs localByTradeNo channelByTradeNo)"

section \<open>Reading a bill\<close>

text \<open>
  The pieces \<open>std::getline\<close> with a delimiter yields until the stream ends: an empty piece after the
  last delimiter is not produced.
\<close>

function getlines :: "char \<Rightarrow> string \<Rightarrow> string list" where
  "getlines delim s =
     (if s = [] then []
      else takeWhile (\<lambda>c. c \<noteq> delim) s # getlines delim (drop 1 (dropWhile (\<lambda>c. c \<noteq> delim) s)))"
  by pat_completeness auto
termination
proof (relation "measure (\<lambda>(_, s). length s)", simp, simp)
  fix delim and s :: string
  assume "s \<noteq> []"
  have "length (dropWhile (\<lambda>c. c \<noteq> delim) s) \<le> length s" by (rule length_dropWhile_le)
  moreover have "0 < length s" using \<open>s \<noteq> []\<close> by simp
  ultimately show "length (dropWhile (\<lambda>c. c \<noteq> delim) s) - Suc 0 < length s" by linarith
qed

declare getlines.simps [simp del]

text \<open>\<open>None\<close>: the line is rejected.\<close>

definition parseBillLine :: "string \<Rightarrow> ReconcileSideRow option" where
  "parseBillLine line =
     (let fields = getlines CHR '','' line in
      if length fields < 4 then None
      else case yuanStringToFen (fields ! 2) of
        None \<Rightarrow> None
      | Some fen \<Rightarrow> Some \<lparr>srow_channelTradeNo = fields ! 0, srow_orderNo = fields ! 1, srow_amountFen = fen\<rparr>)"

text \<open>The loop over the lines of the file; empty lines and comments are skipped, a bad line ends it.\<close>

fun readBill :: "string list \<Rightarrow> ReconcileSideRow list option" where
  "readBill [] = Some []"
| "readBill (line # rest) =
     (if line = [] \<or> hd line = CHR ''#'' then readBill rest
      else case parseBillLine line of
        None \<Rightarrow> None
      | Some row \<Rightarrow> map_option (\<lambda>rows. row # rows) (readBill rest))"

lemma getlines_eval [eval_simps]:
  "getlines delim [] = []"
  "getlines delim (c # cs) = takeWhile (\<lambda>c. c \<noteq> delim) (c # cs) # getlines delim (drop 1 (dropWhile (\<lambda>c. c \<noteq> delim) (c # cs)))"
  by (subst getlines.simps, simp)+

declare localOnlyDiff_def [eval_simps] channelOnlyDiff_def [eval_simps] amountDiff_def [eval_simps]
  localOnlyDiffs_def [eval_simps] channelOnlyDiffs_def [eval_simps] amountDiffs_def [eval_simps]
  classifyReconcileDiffs_def [eval_simps] parseBillLine_def [eval_simps]

section \<open>The reference\<close>

text \<open>The row a side has for a trade number: the last one, when the number occurs more than once.\<close>

definition side_row :: "ReconcileSideRow list \<Rightarrow> string \<Rightarrow> ReconcileSideRow option" where
  "side_row rows t = (case filter (\<lambda>r. srow_channelTradeNo r = t) rows of [] \<Rightarrow> None | rs \<Rightarrow> Some (last rs))"

text \<open>
  The reference, trade by trade: which difference two sides have, with all its fields. The difference
  of the amounts is local minus channel, as an \<open>int64_t\<close>.
\<close>

fun expected_diff :: "string \<Rightarrow> ReconcileSideRow option \<Rightarrow> ReconcileSideRow option \<Rightarrow> ClassifiedDiff list" where
  "expected_diff t None None = []"
| "expected_diff t (Some l) None =
     [\<lparr>cdf_type = kLocalOnly, cdf_channelTradeNo = t, cdf_orderNo = srow_orderNo l,
       cdf_localFen = srow_amountFen l, cdf_channelFen = 0, cdf_diffFen = srow_amountFen l\<rparr>]"
| "expected_diff t None (Some c) =
     [\<lparr>cdf_type = kChannelOnly, cdf_channelTradeNo = t, cdf_orderNo = srow_orderNo c,
       cdf_localFen = 0, cdf_channelFen = srow_amountFen c, cdf_diffFen = wrap64 (0 - srow_amountFen c)\<rparr>]"
| "expected_diff t (Some l) (Some c) =
     (if srow_amountFen l = srow_amountFen c then []
      else [\<lparr>cdf_type = kDiffAmountMismatch, cdf_channelTradeNo = t, cdf_orderNo = srow_orderNo l,
             cdf_localFen = srow_amountFen l, cdf_channelFen = srow_amountFen c,
             cdf_diffFen = wrap64 (srow_amountFen l - srow_amountFen c)\<rparr>])"

lemma omap_find_side_row: "omap_find t (omap_index srow_channelTradeNo rows) = side_row rows t"
proof -
  have "omap_find t ([] :: (string \<times> ReconcileSideRow) list) = None" by (simp add: omap_find_def)
  then show ?thesis
    by (simp add: side_row_def omap_index_def omap.find_foldl [where val = "\<lambda>r. r"] split: list.split)
qed

text \<open>Looking up a key in a sorted index is selecting it in the loop over the index.\<close>

lemma concat_index_at:
  assumes "distinct (map fst kvs)" and "\<And>k v x. x \<in> set (f k v) \<Longrightarrow> key x = k"
  shows "filter (\<lambda>x. key x = t) (concat (map (\<lambda>(k, v). f k v) kvs)) =
    (case omap_find t kvs of None \<Rightarrow> [] | Some v \<Rightarrow> f t v)"
  using assms(1)
proof (induction kvs)
  case Nil
  then show ?case by (simp add: omap_find_def)
next
  case (Cons kv kvs)
  obtain k v where kv: "kv = (k, v)" by force
  from Cons.prems kv have "k \<notin> set (map fst kvs)" by simp
  then have "omap_find k kvs = None" by (simp add: omap_find_None_iff)
  moreover have "filter (\<lambda>x. key x = t) (f k v) = (if k = t then f k v else [])"
    using assms(2) by (auto simp: filter_empty_conv intro!: filter_True)
  ultimately show ?case using Cons kv by (auto simp: omap_find_def)
qed

lemma localOnlyDiffs_at:
  "distinct (map fst l) \<Longrightarrow> filter (\<lambda>d. cdf_channelTradeNo d = t) (localOnlyDiffs l c) =
    (case omap_find t l of None \<Rightarrow> [] | Some r \<Rightarrow> if omap_find t c = None then [localOnlyDiff t r] else [])"
  unfolding localOnlyDiffs_def
  by (rule concat_index_at) (auto simp: localOnlyDiff_def split: if_splits)

lemma channelOnlyDiffs_at:
  "distinct (map fst c) \<Longrightarrow> filter (\<lambda>d. cdf_channelTradeNo d = t) (channelOnlyDiffs l c) =
    (case omap_find t c of None \<Rightarrow> [] | Some r \<Rightarrow> if omap_find t l = None then [channelOnlyDiff t r] else [])"
  unfolding channelOnlyDiffs_def
  by (rule concat_index_at) (auto simp: channelOnlyDiff_def split: if_splits)

lemma amountDiffs_at:
  "distinct (map fst l) \<Longrightarrow> filter (\<lambda>d. cdf_channelTradeNo d = t) (amountDiffs l c) =
    (case omap_find t l of None \<Rightarrow> [] | Some r \<Rightarrow>
       (case omap_find t c of None \<Rightarrow> [] | Some r' \<Rightarrow>
          if srow_amountFen r' \<noteq> srow_amountFen r then [amountDiff t r r'] else []))"
  unfolding amountDiffs_def
  by (rule concat_index_at) (auto simp: amountDiff_def split: if_splits option.splits)

lemma distinct_index: "distinct (map fst (omap_index key rows))"
  by (rule omap_ok_distinct [OF omap_ok_index])

lemma classify_at:
  "filter (\<lambda>d. cdf_channelTradeNo d = t) (classifyReconcileDiffs local channel) =
     expected_diff t (side_row local t) (side_row channel t)"
  by (cases "side_row local t"; cases "side_row channel t")
     (simp_all add: classifyReconcileDiffs_def Let_def localOnlyDiffs_at channelOnlyDiffs_at amountDiffs_at distinct_index
       omap_find_side_row localOnlyDiff_def channelOnlyDiff_def amountDiff_def)

section \<open>Sums\<close>

text \<open>A sum over a list, grouped by a key.\<close>

lemma sum_list_by_key:
  assumes "finite T" and "key ` set xs \<subseteq> T"
  shows "sum_list (map g xs) = (\<Sum>t\<in>T. sum_list (map g (filter (\<lambda>x. key x = t) xs)))"
  using assms(2)
proof (induction xs)
  case Nil
  then show ?case by simp
next
  case (Cons x xs)
  then have "key x \<in> T" by simp
  have "(\<Sum>t\<in>T. sum_list (map g (filter (\<lambda>x. key x = t) (x # xs)))) =
      (\<Sum>t\<in>T. (if key x = t then g x else 0) + sum_list (map g (filter (\<lambda>x. key x = t) xs)))"
    by (intro sum.cong) auto
  also have "\<dots> = g x + (\<Sum>t\<in>T. sum_list (map g (filter (\<lambda>x. key x = t) xs)))"
    using assms(1) \<open>key x \<in> T\<close> by (simp add: sum.distrib sum.delta')
  finally show ?case using Cons by (simp add: Cons.IH)
qed

definition side_amount :: "ReconcileSideRow option \<Rightarrow> int" where
  "side_amount r = (case r of None \<Rightarrow> 0 | Some x \<Rightarrow> srow_amountFen x)"

lemma filter_distinct_key:
  assumes "distinct (map key xs)"
  shows "filter (\<lambda>x. key x = t) xs = [] \<or> (\<exists>x. filter (\<lambda>x. key x = t) xs = [x])"
  using assms
proof (induction xs)
  case (Cons a xs)
  then have "key a = t \<Longrightarrow> filter (\<lambda>x. key x = t) xs = []" by (auto simp: filter_empty_conv image_iff)
  with Cons show ?case by auto
qed simp

lemma side_sum:
  assumes "distinct (map srow_channelTradeNo rows)"
  shows "sum_list (map srow_amountFen (filter (\<lambda>r. srow_channelTradeNo r = t) rows)) = side_amount (side_row rows t)"
  using filter_distinct_key [OF assms, of t] by (auto simp: side_row_def side_amount_def)

lemma expected_diff_sum:
  assumes "\<And>r. l = Some r \<Longrightarrow> \<bar>srow_amountFen r\<bar> < 2 ^ 62" and "\<And>r. c = Some r \<Longrightarrow> \<bar>srow_amountFen r\<bar> < 2 ^ 62"
  shows "sum_list (map cdf_diffFen (expected_diff t l c)) = side_amount l - side_amount c"
proof -
  have "\<bar>a\<bar> < 2 ^ 62 \<Longrightarrow> \<bar>b\<bar> < 2 ^ 62 \<Longrightarrow> wrap64 (a - b) = a - b" for a b :: int by (intro wrap64_id in_i64I) simp
  from this [of 0] this assms show ?thesis
    by (cases l; cases c) (simp_all add: side_amount_def localOnlyDiff_def channelOnlyDiff_def amountDiff_def)
qed

lemma side_row_in: "side_row rows t = Some r \<Longrightarrow> r \<in> set rows \<and> srow_channelTradeNo r = t"
proof -
  assume "side_row rows t = Some r"
  then have "r \<in> set (filter (\<lambda>r. srow_channelTradeNo r = t) rows)"
    by (auto simp: side_row_def split: list.splits simp del: set_filter)
  then show ?thesis by simp
qed

lemma side_row_None: "side_row rows t = None \<longleftrightarrow> t \<notin> srow_channelTradeNo ` set rows"
proof -
  have "side_row rows t = None \<longleftrightarrow> filter (\<lambda>r. srow_channelTradeNo r = t) rows = []"
    by (simp add: side_row_def split: list.split)
  then show ?thesis by (auto simp: filter_empty_conv)
qed

lemma classify_keys:
  "cdf_channelTradeNo ` set (classifyReconcileDiffs local channel) \<subseteq> srow_channelTradeNo ` (set local \<union> set channel)"
proof
  fix t assume "t \<in> cdf_channelTradeNo ` set (classifyReconcileDiffs local channel)"
  then have "filter (\<lambda>d. cdf_channelTradeNo d = t) (classifyReconcileDiffs local channel) \<noteq> []"
    by (auto simp: filter_empty_conv)
  then have "expected_diff t (side_row local t) (side_row channel t) \<noteq> []" by (simp add: classify_at)
  then have "side_row local t \<noteq> None \<or> side_row channel t \<noteq> None" by (cases "side_row local t"; cases "side_row channel t") auto
  then show "t \<in> srow_channelTradeNo ` (set local \<union> set channel)" by (auto simp: side_row_None image_Un)
qed

lemma classify_sum:
  assumes "distinct (map srow_channelTradeNo local)" and "distinct (map srow_channelTradeNo channel)"
    and "\<forall>r \<in> set local \<union> set channel. \<bar>srow_amountFen r\<bar> < 2 ^ 62"
  shows "sum_list (map cdf_diffFen (classifyReconcileDiffs local channel)) =
    sum_list (map srow_amountFen local) - sum_list (map srow_amountFen channel)"
proof -
  let ?T = "srow_channelTradeNo ` (set local \<union> set channel)"
  have "sum_list (map cdf_diffFen (classifyReconcileDiffs local channel)) =
      (\<Sum>t\<in>?T. sum_list (map cdf_diffFen (filter (\<lambda>d. cdf_channelTradeNo d = t) (classifyReconcileDiffs local channel))))"
    by (rule sum_list_by_key [OF _ classify_keys]) simp
  also have "\<dots> = (\<Sum>t\<in>?T. side_amount (side_row local t) - side_amount (side_row channel t))"
    unfolding classify_at using assms(3) by (intro sum.cong refl expected_diff_sum) (auto dest: side_row_in)
  also have "\<dots> = (\<Sum>t\<in>?T. side_amount (side_row local t)) - (\<Sum>t\<in>?T. side_amount (side_row channel t))"
    by (rule sum_subtractf)
  also have "\<dots> = sum_list (map srow_amountFen local) - sum_list (map srow_amountFen channel)"
    using sum_list_by_key [of ?T srow_channelTradeNo local srow_amountFen] sum_list_by_key [of ?T srow_channelTradeNo channel srow_amountFen]
    by (simp add: side_sum [OF assms(1)] side_sum [OF assms(2)] image_mono)
  finally show ?thesis .
qed

lemma classify_empty_iff:
  "classifyReconcileDiffs local channel = [] \<longleftrightarrow>
     (\<forall>t. map_option srow_amountFen (side_row local t) = map_option srow_amountFen (side_row channel t))"
proof
  assume "classifyReconcileDiffs local channel = []"
  then have "expected_diff t (side_row local t) (side_row channel t) = []" for t
    using classify_at [of t local channel] by simp
  moreover have "map_option srow_amountFen l = map_option srow_amountFen c" if "expected_diff t l c = []" for t l c
    using that by (cases l; cases c) (auto split: if_splits)
  ultimately show "\<forall>t. map_option srow_amountFen (side_row local t) = map_option srow_amountFen (side_row channel t)" by blast
next
  assume eq: "\<forall>t. map_option srow_amountFen (side_row local t) = map_option srow_amountFen (side_row channel t)"
  have "expected_diff t l c = []" if "map_option srow_amountFen l = map_option srow_amountFen c" for t l c
    using that by (cases l; cases c) auto
  with eq classify_at [of _ local channel] have "filter (\<lambda>d. cdf_channelTradeNo d = t) (classifyReconcileDiffs local channel) = []" for t
    by simp
  then show "classifyReconcileDiffs local channel = []"
    by (metis (mono_tags, lifting) filter_empty_conv list.set_intros(1) neq_Nil_conv)
qed

section \<open>Printed bill lines\<close>

definition printBillLine :: "ReconcileSideRow \<Rightarrow> string \<Rightarrow> string" where
  "printBillLine r time =
     srow_channelTradeNo r @ '','' @ srow_orderNo r @ '','' @ fenToYuanString (srow_amountFen r) @ '','' @ time"

lemma getlines_field: "d \<notin> set a \<Longrightarrow> getlines d (a @ d # rest) = a # getlines d rest"
proof -
  assume "d \<notin> set a"
  then have "takeWhile (\<lambda>c. c \<noteq> d) (a @ d # rest) = a" "dropWhile (\<lambda>c. c \<noteq> d) (a @ d # rest) = d # rest"
    by (auto simp: takeWhile_append dropWhile_append takeWhile_eq_all_conv)
  then show ?thesis by (subst getlines.simps) simp
qed

lemma getlines_last: "d \<notin> set a \<Longrightarrow> a \<noteq> [] \<Longrightarrow> getlines d a = [a]"
proof -
  assume a: "d \<notin> set a" "a \<noteq> []"
  then have "takeWhile (\<lambda>c. c \<noteq> d) a = a" "dropWhile (\<lambda>c. c \<noteq> d) a = []"
    by (auto simp: takeWhile_eq_all_conv dropWhile_eq_Nil_conv)
  with a show ?thesis by (subst getlines.simps) (simp only: drop_Nil getlines_eval if_False)
qed

lemma fenToYuanString_no_comma: "in_i64 f \<Longrightarrow> CHR '','' \<notin> set (fenToYuanString f)"
proof -
  assume "in_i64 f"
  moreover have "nat \<bar>f\<bar> mod 100 div 10 < 10" by (simp add: less_mult_imp_div_less)
  moreover have "CHR '','' \<noteq> digit_char k" if "k < 10" for k using is_digit_neqs(4) [OF is_digit_digit_char [OF that]] by simp
  moreover have "CHR '','' \<notin> set (string_of_nat k)" for k using string_of_nat_digits is_digit_neqs(4) by blast
  ultimately show ?thesis by (simp add: fenToYuanString_shape)
qed

lemma parse_printBillLine:
  assumes "CHR '','' \<notin> set (srow_channelTradeNo r)" and "CHR '','' \<notin> set (srow_orderNo r)" and "CHR '','' \<notin> set time"
    and "time \<noteq> []" and "\<bar>srow_amountFen r\<bar> \<le> 100000000999"
  shows "parseBillLine (printBillLine r time) = Some r"
proof -
  have i64: "in_i64 (srow_amountFen r)" using assms(5) by (intro in_i64I) simp
  have "getlines CHR '','' (printBillLine r time) = [srow_channelTradeNo r, srow_orderNo r, fenToYuanString (srow_amountFen r), time]"
    using assms fenToYuanString_no_comma [OF i64] by (simp add: printBillLine_def getlines_field getlines_last)
  with assms(5) i64 show ?thesis by (simp add: parseBillLine_def yuanStringToFen_printed)
qed

text \<open>A line has at most one reading, and a rejected line is short of fields or has a malformed amount.\<close>

lemma parseBillLine_None:
  "parseBillLine line = None \<longleftrightarrow> length (getlines CHR '','' line) < 4 \<or> yuanStringToFen (getlines CHR '','' line ! 2) = None"
  by (auto simp: parseBillLine_def Let_def split: option.split)

end
