(* ===== verification/ReconcileDao.thy ===== *)
theory ReconcileDao
  imports DaoContracts
begin

text \<open>
  \<^verbatim>\<open>src/dao/ReconcileDao.cc\<close>: batches and differences of the daily reconciliation. Batch and
  differences are inserted inside the transaction of the run; the queries and the handling of a
  difference are single statements on the default client. Handling is a \<open>one_shot\<close> transition.
\<close>

section \<open>Statements\<close>

definition batch_row_for :: "env \<Rightarrow> ReconcileBatch \<Rightarrow> int \<Rightarrow> batch_row" where
  "batch_row_for e b day =
     \<lparr>tb_batch_no = rbt_batchNo b, tb_bill_date = day, tb_channel = rbt_channel b,
      tb_total_count = rbt_totalCount b,
      tb_total_amount = castDecimal e (fenToYuanString (rbt_totalAmountFen b)),
      tb_channel_count = rbt_channelCount b,
      tb_channel_amount = castDecimal e (fenToYuanString (rbt_channelAmountFen b)),
      tb_diff_count = rbt_diffCount b, tb_status = BatchStatus_int (rbt_status b)\<rparr>"

definition sql_insertBatch :: "env \<Rightarrow> ReconcileBatch \<Rightarrow> unit stmt" where
  "sql_insertBatch e b n d =
     (case date_parse e (rbt_billDate b) of
        None \<Rightarrow> None
      | Some day \<Rightarrow>
          if list_ex (\<lambda>r. sql_eq e (tb_batch_no r) (rbt_batchNo b) \<or>
                          tb_bill_date r = day \<and> sql_eq e (tb_channel r) (rbt_channel b)) (t_reconcile_batch d)
          then None
          else Some (d\<lparr>t_reconcile_batch := t_reconcile_batch d @ [batch_row_for e b day]\<rparr>, ()))"

definition ReconcileDao_insertBatch :: "env \<Rightarrow> ReconcileBatch \<Rightarrow> unit act" where
  "ReconcileDao_insertBatch e b = execSqlSync_tx e (sql_insertBatch e b)"

definition diff_row_for :: "env \<Rightarrow> ReconcileDiff \<Rightarrow> int \<Rightarrow> diff_row" where
  "diff_row_for e f i =
     \<lparr>td_id = i, td_batch_no = rdf_batchNo f, td_order_no = rdf_orderNo f,
      td_channel_trade_no = rdf_channelTradeNo f,
      td_local_amount = castDecimal e (fenToYuanString (rdf_localAmountFen f)),
      td_channel_amount = castDecimal e (fenToYuanString (rdf_channelAmountFen f)),
      td_diff_type = ReconcileDiffType_int (rdf_diffType f),
      td_diff_amount = castDecimal e (fenToYuanString (rdf_diffAmountFen f)),
      td_handle_status = 0, td_handle_remark = None, td_handled_at = None\<rparr>"

definition sql_insertDiff :: "env \<Rightarrow> ReconcileDiff \<Rightarrow> unit stmt" where
  "sql_insertDiff e f n d =
     (if list_ex (\<lambda>r. td_id r = auto_id e n) (t_reconcile_diff d) then None
      else Some (d\<lparr>t_reconcile_diff := t_reconcile_diff d @ [diff_row_for e f (auto_id e n)]\<rparr>, ()))"

definition ReconcileDao_insertDiff :: "env \<Rightarrow> ReconcileDiff \<Rightarrow> unit act" where
  "ReconcileDao_insertDiff e f = execSqlSync_tx e (sql_insertDiff e f)"

text \<open>\<^verbatim>\<open>SELECT COUNT(*) ... WHERE bill_date = ? AND channel = ?\<close>\<close>

definition batch_count :: "env \<Rightarrow> int \<Rightarrow> string \<Rightarrow> db \<Rightarrow> nat" where
  "batch_count e day channel d =
     length (filter (\<lambda>r. tb_bill_date r = day \<and> sql_eq e (tb_channel r) channel) (t_reconcile_batch d))"

definition sql_hasBatch :: "env \<Rightarrow> string \<Rightarrow> string \<Rightarrow> bool stmt" where
  "sql_hasBatch e billDate channel n d =
     (case date_parse e billDate of None \<Rightarrow> None | Some day \<Rightarrow> Some (d, 0 < batch_count e day channel d))"

definition ReconcileDao_hasBatchForDate :: "env \<Rightarrow> string \<Rightarrow> string \<Rightarrow> bool act" where
  "ReconcileDao_hasBatchForDate e billDate channel = execSqlSync_auto e (sql_hasBatch e billDate channel)"

definition diff_of_row :: "env \<Rightarrow> diff_row \<Rightarrow> ReconcileDiff" where
  "diff_of_row e r =
     \<lparr>rdf_batchNo = td_batch_no r, rdf_orderNo = td_order_no r, rdf_channelTradeNo = td_channel_trade_no r,
      rdf_localAmountFen = td_local_amount r, rdf_channelAmountFen = td_channel_amount r,
      rdf_diffType = ReconcileDiffType_cast (td_diff_type r), rdf_diffAmountFen = td_diff_amount r,
      rdf_handleStatus = HandleStatus_cast (td_handle_status r),
      rdf_handleRemark = (case td_handle_remark r of None \<Rightarrow> '''' | Some s \<Rightarrow> s),
      rdf_handledAt = (case td_handled_at r of None \<Rightarrow> '''' | Some t \<Rightarrow> dt_format e t)\<rparr>"

text \<open>A negative \<open>handleStatus\<close> means no filter; a negative LIMIT is an error of the server.\<close>

definition sql_listDiffs :: "env \<Rightarrow> string \<Rightarrow> int \<Rightarrow> int \<Rightarrow> ReconcileDiff list stmt" where
  "sql_listDiffs e batchNo handleStatus limit n d =
     (if limit < 0 then None
      else Some (d, map (diff_of_row e) (take (nat limit)
        (filter (\<lambda>r. sql_eq e (td_batch_no r) batchNo \<and> (0 \<le> handleStatus \<longrightarrow> td_handle_status r = handleStatus))
          (t_reconcile_diff d)))))"

definition ReconcileDao_listDiffs :: "env \<Rightarrow> string \<Rightarrow> int \<Rightarrow> int \<Rightarrow> ReconcileDiff list act" where
  "ReconcileDao_listDiffs e batchNo handleStatus limit =
     execSqlSync_auto e (sql_listDiffs e batchNo handleStatus limit)"

definition diff_row_of :: "int64 \<Rightarrow> db \<Rightarrow> diff_row option" where
  "diff_row_of i d = first_where (\<lambda>r. td_id r = i) (t_reconcile_diff d)"

text \<open>This SELECT has no \<open>handled_at\<close>, which stays empty in the result.\<close>

definition ReconcileDao_getDiffById :: "env \<Rightarrow> int64 \<Rightarrow> ReconcileDiff option act" where
  "ReconcileDao_getDiffById e i =
     execSqlSync_auto e (query (\<lambda>d.
       map_option (\<lambda>r. (diff_of_row e r)\<lparr>rdf_handledAt := ''''\<rparr>) (diff_row_of i d)))"

text \<open>\<^verbatim>\<open>UPDATE ... SET handle_status = ?, handle_remark = ?, handled_at = NOW() WHERE id = ? AND handle_status = 0\<close>\<close>

definition diff_handle :: "env \<Rightarrow> int64 \<Rightarrow> int \<Rightarrow> string \<Rightarrow> nat \<Rightarrow> db \<Rightarrow> db \<times> nat" where
  "diff_handle e i handleStatus remark n d =
     (case update_where (\<lambda>r. td_id r = i \<and> td_handle_status r = 0)
             (\<lambda>r. r\<lparr>td_handle_status := handleStatus, td_handle_remark := Some remark,
                     td_handled_at := Some (db_now e n)\<rparr>) (t_reconcile_diff d)
      of (rows, affected) \<Rightarrow> (d\<lparr>t_reconcile_diff := rows\<rparr>, affected))"

definition sql_handleDiff :: "env \<Rightarrow> int64 \<Rightarrow> int \<Rightarrow> string \<Rightarrow> nat stmt" where
  "sql_handleDiff e i handleStatus remark n d = Some (diff_handle e i handleStatus remark n d)"

definition ReconcileDao_handleDiff :: "env \<Rightarrow> int64 \<Rightarrow> int \<Rightarrow> string \<Rightarrow> nat act" where
  "ReconcileDao_handleDiff e i handleStatus remark =
     execSqlSync_auto e (sql_handleDiff e i handleStatus remark)"

lemmas reconcile_dao_defs = batch_row_for_def sql_insertBatch_def ReconcileDao_insertBatch_def
  diff_row_for_def sql_insertDiff_def ReconcileDao_insertDiff_def batch_count_def sql_hasBatch_def
  ReconcileDao_hasBatchForDate_def diff_of_row_def sql_listDiffs_def ReconcileDao_listDiffs_def
  diff_row_of_def ReconcileDao_getDiffById_def diff_handle_def sql_handleDiff_def ReconcileDao_handleDiff_def

declare reconcile_dao_defs [eval_simps]

section \<open>Handling a difference\<close>

definition diff_open :: "int64 \<Rightarrow> db \<Rightarrow> bool" where
  "diff_open i d = (case diff_row_of i d of None \<Rightarrow> False | Some r \<Rightarrow> td_handle_status r = 0)"

definition settle_diff :: "env \<Rightarrow> int64 \<Rightarrow> int \<Rightarrow> string \<Rightarrow> nat \<Rightarrow> db \<Rightarrow> db" where
  "settle_diff e i handleStatus remark n d =
     d\<lparr>t_reconcile_diff := map (\<lambda>r. if td_id r = i
         then r\<lparr>td_handle_status := handleStatus, td_handle_remark := Some remark,
                 td_handled_at := Some (db_now e n)\<rparr> else r) (t_reconcile_diff d)\<rparr>"

lemma diff_handle_eq:
  assumes "diff_ok (t_reconcile_diff d)"
  shows "diff_handle e i handleStatus remark n d =
    (if diff_open i d then (settle_diff e i handleStatus remark n d, 1) else (d, 0))"
  using assms
  by (simp add: diff_handle_def diff_ok_def diff_open_def diff_row_of_def settle_diff_def
      update_where_keyed [of td_id _ _ i "\<lambda>r. td_handle_status r = 0"] split: option.split)

lemma diff_row_of_settle:
  "diff_row_of j (settle_diff e i handleStatus remark n d) =
     map_option (\<lambda>r. if j = i then r\<lparr>td_handle_status := handleStatus, td_handle_remark := Some remark,
                 td_handled_at := Some (db_now e n)\<rparr> else r) (diff_row_of j d)"
  by (simp add: diff_row_of_def settle_diff_def first_where_map_keyed)

lemma diff_ok_settle:
  "diff_ok (t_reconcile_diff d) \<Longrightarrow> diff_ok (t_reconcile_diff (settle_diff e i handleStatus remark n d))"
  by (simp add: diff_ok_def settle_diff_def map_key_if del: map_map)

interpretation verify_diff: one_shot "diff_handle e i 1 remark n" "diff_open i" "\<lambda>d. diff_ok (t_reconcile_diff d)"
  for e i remark n
  by unfold_locales
    (auto simp: diff_handle_eq diff_ok_settle diff_open_def diff_row_of_settle split: option.splits)

interpretation ignore_diff: one_shot "diff_handle e i 2 remark n" "diff_open i" "\<lambda>d. diff_ok (t_reconcile_diff d)"
  for e i remark n
  by unfold_locales
    (auto simp: diff_handle_eq diff_ok_settle diff_open_def diff_row_of_settle split: option.splits)

section \<open>Schema\<close>

lemma schema_ok_insertBatch [preserves_intro]: "stmt_keeps (schema_ok e) (sql_insertBatch e b)"
proof (rule stmt_keepsI)
  fix n d d' x
  assume "schema_ok e d" and "sql_insertBatch e b n d = Some (d', x)"
  then show "schema_ok e d'"
    by (auto simp: sql_insertBatch_def batch_row_for_def list_ex_iff schema_ok_def batch_ok_def sql_eq_def
        split: option.splits if_splits; blast)
qed

lemma schema_ok_insertDiff [preserves_intro]: "stmt_keeps (schema_ok e) (sql_insertDiff e f)"
proof (rule stmt_keepsI)
  fix n d d' x
  assume "schema_ok e d" and "sql_insertDiff e f n d = Some (d', x)"
  then show "schema_ok e d'"
    by (auto simp: sql_insertDiff_def diff_row_for_def list_ex_iff schema_ok_def diff_ok_def split: if_splits; blast)
qed

lemma schema_ok_hasBatch [preserves_intro]: "stmt_keeps (schema_ok e) (sql_hasBatch e billDate channel)"
  by (rule stmt_keepsI) (auto simp: sql_hasBatch_def split: option.splits)

lemma schema_ok_listDiffs [preserves_intro]: "stmt_keeps (schema_ok e) (sql_listDiffs e no st lim)"
  by (rule stmt_keepsI) (auto simp: sql_listDiffs_def split: if_splits)

lemma schema_ok_handleDiff [preserves_intro]: "stmt_keeps (schema_ok e) (sql_handleDiff e i st remark)"
proof (rule stmt_keepsI)
  fix n d d' x
  assume ok: "schema_ok e d" and st: "sql_handleDiff e i st remark n d = Some (d', x)"
  then have "diff_ok (t_reconcile_diff d)" by (simp add: schema_ok_def)
  with st have "d' = d \<or> d' = settle_diff e i st remark n d"
    by (auto simp: sql_handleDiff_def diff_handle_eq split: if_splits)
  with ok diff_ok_settle [OF \<open>diff_ok (t_reconcile_diff d)\<close>] show "schema_ok e d'"
    by (auto simp: schema_ok_def settle_diff_def)
qed

end
