(* ===== verification/ReconcileService.thy ===== *)
theory ReconcileService
  imports ReconcileClassify ReconcileDao
begin

text \<open>
  \<^verbatim>\<open>src/services/ReconcileService.h\<close>, \<^verbatim>\<open>src/services/ReconcileService.cc\<close>: the daily reconciliation run,
  the listing of differences and the handling of one difference. Logging is left out; the pure
  comparison is in the theory \<open>ReconcileClassify\<close>.
\<close>

section \<open>The service\<close>

definition kChannel :: string where "kChannel = ''MOCK''"
definition kDiffQueryLimit :: int where "kDiffQueryLimit = 200"

definition billPath :: "string \<Rightarrow> string" where
  "billPath billDate = ''scripts/bills/bill_'' @ billDate @ ''.csv''"

text \<open>
  The payments of the day: from midnight of the bill date to the next midnight, in the order of
  their keys. \<^verbatim>\<open>DATE_ADD\<close> beyond the last date of the server is NULL, which no row satisfies.
\<close>

definition side_of_payment :: "payment_row \<Rightarrow> ReconcileSideRow" where
  "side_of_payment r =
     \<lparr>srow_channelTradeNo = ty_channel_trade_no r, srow_orderNo = ty_order_no r, srow_amountFen = ty_amount r\<rparr>"

definition day_payments :: "env \<Rightarrow> int \<Rightarrow> db \<Rightarrow> payment_row list" where
  "day_payments e midnight d =
     filter (\<lambda>r. sql_eq e (ty_channel r) kChannel \<and> ty_status r = 1 \<and> midnight \<le> ty_callback_time r \<and>
                 midnight + 86400 < 253402300800 \<and> ty_callback_time r < midnight + 86400) (t_payment d)"

definition sql_localPayments :: "env \<Rightarrow> string \<Rightarrow> ReconcileSideRow list stmt" where
  "sql_localPayments e billDate n d =
     (case dt_parse e (billDate @ '' 00:00:00'') of
        None \<Rightarrow> None
      | Some midnight \<Rightarrow> Some (d, map side_of_payment (day_payments e midnight d)))"

definition totalFen :: "ReconcileSideRow list \<Rightarrow> int64" where
  "totalFen rows = foldl (\<lambda>t row. wrap64 (t + srow_amountFen row)) 0 rows"

definition batchOf :: "string \<Rightarrow> string \<Rightarrow> ReconcileSideRow list \<Rightarrow> ReconcileSideRow list \<Rightarrow> ClassifiedDiff list \<Rightarrow> ReconcileBatch" where
  "batchOf billDate batchNo localRows channelRows classified =
     \<lparr>rbt_batchNo = batchNo, rbt_billDate = billDate, rbt_channel = kChannel,
      rbt_totalCount = int (length localRows), rbt_totalAmountFen = totalFen localRows,
      rbt_channelCount = int (length channelRows), rbt_channelAmountFen = totalFen channelRows,
      rbt_diffCount = int (length classified),
      rbt_status = (if classified = [] then kBalanced else kHasDiff)\<rparr>"

definition diffOf :: "string \<Rightarrow> ClassifiedDiff \<Rightarrow> ReconcileDiff" where
  "diffOf batchNo c =
     \<lparr>rdf_batchNo = batchNo, rdf_orderNo = cdf_orderNo c, rdf_channelTradeNo = cdf_channelTradeNo c,
      rdf_localAmountFen = cdf_localFen c, rdf_channelAmountFen = cdf_channelFen c, rdf_diffType = cdf_type c,
      rdf_diffAmountFen = cdf_diffFen c, rdf_handleStatus = HandleStatus_kPending, rdf_handleRemark = '''', rdf_handledAt = ''''\<rparr>"

definition runData :: "ReconcileBatch \<Rightarrow> json" where
  "runData b =
     jset ''status'' (JInt (BatchStatus_int (rbt_status b)))
       (jset ''diffCount'' (JInt (rbt_diffCount b)) (jset ''batchNo'' (JString (rbt_batchNo b)) JNull))"

text \<open>Steps 3 to 5 and the commit.\<close>

definition run_compare :: "env \<Rightarrow> string \<Rightarrow> ReconcileSideRow list \<Rightarrow> json Result act" where
  "run_compare e billDate channelRows =
     bnd (execSqlSync_tx e (sql_localPayments e billDate)) (\<lambda>localRows.
       bnd (nextId e) (\<lambda>batchNo.
         bnd (ReconcileDao_insertBatch e
                (batchOf billDate batchNo localRows channelRows (classifyReconcileDiffs localRows channelRows))) (\<lambda>_.
           bnd (for_each (\<lambda>c. ReconcileDao_insertDiff e (diffOf batchNo c)) (classifyReconcileDiffs localRows channelRows)) (\<lambda>_.
             bnd (TransactionGuard_commit e) (\<lambda>_.
               ret (Result_ok (runData (batchOf billDate batchNo localRows channelRows (classifyReconcileDiffs localRows channelRows)))
                      billDate))))))"

text \<open>The check for an existing batch goes to the default client, not to the transaction.\<close>

definition run_scope :: "env \<Rightarrow> string \<Rightarrow> ReconcileSideRow list \<Rightarrow> json Result act" where
  "run_scope e billDate channelRows =
     bnd (ReconcileDao_hasBatchForDate e billDate kChannel) (\<lambda>has.
       if has then throw (BizException kReconcileBatchStatusInvalid msg_batch_exists)
       else run_compare e billDate channelRows)"

definition run_catch :: "string \<Rightarrow> exn \<Rightarrow> json Result act" where
  "run_catch billDate x =
     (case x of
        BizException code what \<Rightarrow> ret (Result_fail code what billDate)
      | DrogonDbException \<Rightarrow> ret (Result_fail kDbError (toMessage kDbError) billDate)
      | StdException \<Rightarrow> ret (Result_fail kInternalError (toMessage kInternalError) billDate))"

definition ReconcileService_run :: "env \<Rightarrow> string \<Rightarrow> json Result act" where
  "ReconcileService_run e billDate =
     (case read_file e (billPath billDate) of
        None \<Rightarrow> ret (Result_fail kReconcileBillParseFailed msg_bill_missing billDate)
      | Some content \<Rightarrow>
          (case readBill (getlines (CHR 0x0A) content) of
             None \<Rightarrow> ret (Result_fail kReconcileBillParseFailed msg_bill_line billDate)
           | Some channelRows \<Rightarrow> try_catch (with_guard e (run_scope e billDate channelRows)) (run_catch billDate)))"

definition ReconcileService_listDiffs :: "env \<Rightarrow> string \<Rightarrow> int \<Rightarrow> json Result act" where
  "ReconcileService_listDiffs e batchNo limit =
     try_catch
       (bnd (ReconcileDao_listDiffs e batchNo (- 1) limit) (\<lambda>diffs.
          ret (Result_ok (jset ''count'' (JInt (int (length diffs)))
                 (jset ''diffs'' (JArray (map ReconcileDiff_toJson diffs)) JNull)) batchNo)))
       (\<lambda>x. case x of DrogonDbException \<Rightarrow> ret (Result_fail kDbError (toMessage kDbError) batchNo) | _ \<Rightarrow> throw x)"

definition handledData :: "int64 \<Rightarrow> int \<Rightarrow> json" where
  "handledData diffId handleStatus = jset ''handleStatus'' (JInt handleStatus) (jset ''diffId'' (JInt diffId) JNull)"

definition handleStatus_of :: "string \<Rightarrow> int option" where
  "handleStatus_of action =
     (if action = ''verify'' then Some (HandleStatus_int HandleStatus_kVerified)
      else if action = ''ignore'' then Some (HandleStatus_int HandleStatus_kIgnored) else None)"

text \<open>No exception is caught here.\<close>

definition ReconcileService_handleDiff :: "env \<Rightarrow> int64 \<Rightarrow> string \<Rightarrow> string \<Rightarrow> json Result act" where
  "ReconcileService_handleDiff e diffId action remark =
     (case handleStatus_of action of
        None \<Rightarrow> ret (Result_fail kParamInvalid msg_action_invalid '''')
      | Some handleStatus \<Rightarrow>
          bnd (ReconcileDao_getDiffById e diffId) (\<lambda>existing.
            case existing of
              None \<Rightarrow> ret (Result_fail kReconcileBatchNotFound msg_diff_missing '''')
            | Some _ \<Rightarrow>
                bnd (ReconcileDao_handleDiff e diffId handleStatus remark) (\<lambda>affected.
                  if affected = 0 then ret (Result_fail kReconcileDiffAlreadyHandled msg_diff_handled '''')
                  else ret (Result_ok (handledData diffId handleStatus) ''''))))"

lemmas reconcile_service_defs = run_compare_def run_scope_def run_catch_def ReconcileService_run_def
  ReconcileService_listDiffs_def ReconcileService_handleDiff_def

declare reconcile_service_defs [eval_simps] kChannel_def [eval_simps] kDiffQueryLimit_def [eval_simps]
  billPath_def [eval_simps] side_of_payment_def [eval_simps] day_payments_def [eval_simps]
  sql_localPayments_def [eval_simps] totalFen_def [eval_simps] batchOf_def [eval_simps] diffOf_def [eval_simps]
  runData_def [eval_simps] handledData_def [eval_simps] handleStatus_of_def [eval_simps]

section \<open>Atomicity of the run\<close>

definition run_reported :: "json Result \<Rightarrow> bool" where
  "run_reported r \<longleftrightarrow> Result_isOk r"

lemma uncommitted_read_auto [preserves_intro]:
  assumes "\<And>n d d' x. st n d = Some (d', x) \<Longrightarrow> d' = d"
  shows "preserves (uncommitted d) (execSqlSync_auto e st)"
  by (rule preservesI) (auto simp: execSqlSync_auto_def split: if_splits option.splits dest: assms)

lemma uncommitted_hasBatch [preserves_intro]: "preserves (uncommitted d) (ReconcileDao_hasBatchForDate e billDate channel)"
  unfolding ReconcileDao_hasBatchForDate_def
  by (rule uncommitted_read_auto) (auto simp: sql_hasBatch_def split: option.splits)

lemma reconcile_uncommitted [preserves_intro]:
  "preserves (uncommitted d) (ReconcileDao_insertBatch e b)"
  "preserves (uncommitted d) (ReconcileDao_insertDiff e f)"
  unfolding ReconcileDao_insertBatch_def ReconcileDao_insertDiff_def by (intro preserves_intro)+

lemma atomic_run_scope: "atomic_body d run_reported (run_scope e billDate channelRows)"
  unfolding run_scope_def run_compare_def by (intro preserves_intro) (simp add: run_reported_def)

fun run_error :: "exn \<Rightarrow> bool" where
  "run_error (BizException c what) \<longleftrightarrow> c = kReconcileBatchStatusInvalid \<and> what = msg_batch_exists"
| "run_error x \<longleftrightarrow> True"

lemma raises_run_scope: "raises_only run_error (run_scope e billDate channelRows)"
  unfolding run_scope_def run_compare_def ReconcileDao_hasBatchForDate_def ReconcileDao_insertBatch_def ReconcileDao_insertDiff_def
  by (intro preserves_intro) simp_all

text \<open>The bill of a date as the program reads it.\<close>

definition bill_rows :: "env \<Rightarrow> string \<Rightarrow> ReconcileSideRow list option" where
  "bill_rows e billDate =
     (case read_file e (billPath billDate) of None \<Rightarrow> None | Some content \<Rightarrow> readBill (getlines (CHR 0x0A) content))"

lemma ReconcileService_run_rows:
  "bill_rows e billDate = Some rows \<Longrightarrow>
   ReconcileService_run e billDate = try_catch (with_guard e (run_scope e billDate rows)) (run_catch billDate)"
  by (auto simp: ReconcileService_run_def bill_rows_def split: option.splits)

lemma run_cases:
  assumes "ReconcileService_run e billDate w = Some (r, w')"
  obtains (no_bill) m where "bill_rows e billDate = None" "r = Inr (Result_fail kReconcileBillParseFailed m billDate)" "w' = w"
    | (failed) c m where "r = Inr (Result_fail c m billDate)" "c \<in> {kReconcileBatchStatusInvalid, kDbError, kInternalError}" "w_db w' = w_db w"
    | (entered) rows res w1 w2 where "bill_rows e billDate = Some rows" "r = Inr res"
        "w1 = w\<lparr>w_tx := w_db w, w_sql := Suc (w_sql w), w_finished := False\<rparr>"
        "run_scope e billDate rows w1 = Some (Inr res, w2)" "w' = TransactionGuard_dtor w2"
proof (cases "bill_rows e billDate")
  case None
  with assms no_bill show ?thesis by (auto simp: ReconcileService_run_def bill_rows_def eff_simps split: option.splits)
next
  case (Some rows)
  from assms [unfolded ReconcileService_run_rows [OF Some] try_catch_eq] consider
      x u where "with_guard e (run_scope e billDate rows) w = Some (Inl x, u)" "run_catch billDate x u = Some (r, w')"
    | res where "with_guard e (run_scope e billDate rows) w = Some (Inr res, w')" "r = Inr res" by blast
  then show ?thesis
  proof cases
    case 1
    have "raises_only run_error (with_guard e (run_scope e billDate rows))"
      by (intro preserves_intro raises_run_scope) simp_all
    from raises_onlyD [OF this 1(1)] have "run_error x" .
    moreover have "w_db u = w_db w" using with_guard_atomic [OF 1(1) atomic_run_scope] by simp
    ultimately have "\<exists>c m. r = Inr (Result_fail c m billDate) \<and> c \<in> {kReconcileBatchStatusInvalid, kDbError, kInternalError} \<and> w_db w' = w_db w"
      using 1(2) by (cases x) (auto simp: run_catch_def eff_simps)
    then show ?thesis using failed by blast
  next
    case 2
    from 2(1) show ?thesis
    proof (cases rule: with_guard_cases)
      case (entered w1 w2)
      with 2(2) Some that(3) show ?thesis by blast
    qed simp
  qed
qed

lemma run_unreported:
  assumes run: "ReconcileService_run e billDate w = Some (r, w')" and "\<not> (\<exists>res. r = Inr res \<and> run_reported res)"
  shows "w_db w' = w_db w"
  using run
proof (cases rule: run_cases)
  case (entered rows res w1 w2)
  then have "uncommitted (w_db w) w1" by simp
  with entered atomic_run_scope [of "w_db w" e billDate rows, unfolded atomic_body_def] assms(2) show ?thesis by fastforce
qed simp_all

section \<open>The successful run\<close>

text \<open>The rows of the differences, with the keys the server generates for consecutive statements.\<close>

definition diff_rows :: "env \<Rightarrow> string \<Rightarrow> nat \<Rightarrow> ClassifiedDiff list \<Rightarrow> diff_row list" where
  "diff_rows e batchNo n cs = map2 (\<lambda>c i. diff_row_for e (diffOf batchNo c) (auto_id e i)) cs [n..<n + length cs]"

lemma diff_rows_simps [simp]:
  "diff_rows e no n [] = []"
  "diff_rows e no n (c # cs) = diff_row_for e (diffOf no c) (auto_id e n) # diff_rows e no (Suc n) cs"
  by (simp_all add: diff_rows_def upt_conv_Cons del: upt_Suc)

lemma length_diff_rows [simp]: "length (diff_rows e no n cs) = length cs"
  by (simp add: diff_rows_def)

lemma insertDiffs_success:
  assumes "for_each (\<lambda>c. ReconcileDao_insertDiff e (diffOf no c)) cs w = Some (Inr u, w')"
  shows "w_tx w' = (w_tx w)\<lparr>t_reconcile_diff := t_reconcile_diff (w_tx w) @ diff_rows e no (w_sql w) cs\<rparr> \<and>
    w_db w' = w_db w \<and> w_finished w' = w_finished w"
  using assms
proof (induction cs arbitrary: w)
  case Nil
  then show ?case by (simp add: eff_simps)
next
  case (Cons c cs)
  then obtain w1 where w1: "w1 = w\<lparr>w_tx := (w_tx w)\<lparr>t_reconcile_diff := t_reconcile_diff (w_tx w) @ [diff_row_for e (diffOf no c) (auto_id e (w_sql w))]\<rparr>,
      w_sql := Suc (w_sql w)\<rparr>" and rest: "for_each (\<lambda>c. ReconcileDao_insertDiff e (diffOf no c)) cs w1 = Some (Inr u, w')"
    by (auto simp: eff_simps ReconcileDao_insertDiff_def sql_insertDiff_def split: if_splits)
  from Cons.IH [OF rest] w1 show ?case by simp
qed

text \<open>The database after a run, the abstract effect of the transaction.\<close>

definition reconciled_db :: "batch_row \<Rightarrow> diff_row list \<Rightarrow> db \<Rightarrow> db" where
  "reconciled_db b fs d =
     d\<lparr>t_reconcile_batch := t_reconcile_batch d @ [b], t_reconcile_diff := t_reconcile_diff d @ fs\<rparr>"

lemma run_scope_success:
  assumes run: "run_scope e billDate rows w = Some (Inr res, w')"
  obtains midnight day no n local cs where
    "dt_parse e (billDate @ '' 00:00:00'') = Some midnight" "date_parse e billDate = Some day"
    "batch_count e day kChannel (w_db w) = 0"
    "local = map side_of_payment (day_payments e midnight (w_tx w))" "cs = classifyReconcileDiffs local rows"
    "res = Result_ok (runData (batchOf billDate no local rows cs)) billDate"
    "w_db w' = reconciled_db (batch_row_for e (batchOf billDate no local rows cs) day) (diff_rows e no n cs) (w_tx w)"
proof -
  from run obtain midnight day no g k n d2 w3 where
    parse: "dt_parse e (billDate @ '' 00:00:00'') = Some midnight" "date_parse e billDate = Some day" and
    none: "batch_count e day kChannel (w_db w) = 0" and
    batch: "d2 = (w_tx w)\<lparr>t_reconcile_batch := t_reconcile_batch (w_tx w) @
        [batch_row_for e (batchOf billDate no (map side_of_payment (day_payments e midnight (w_tx w))) rows
          (classifyReconcileDiffs (map side_of_payment (day_payments e midnight (w_tx w))) rows)) day]\<rparr>" and
    each: "for_each (\<lambda>c. ReconcileDao_insertDiff e (diffOf no c)) (classifyReconcileDiffs (map side_of_payment (day_payments e midnight (w_tx w))) rows)
       (w\<lparr>w_gen := g, w_clk := k, w_tx := d2, w_sql := n\<rparr>) = Some (Inr (), w3)" and
    com: "w_db w' = w_tx w3" "res = Result_ok (runData (batchOf billDate no (map side_of_payment (day_payments e midnight (w_tx w))) rows
          (classifyReconcileDiffs (map side_of_payment (day_payments e midnight (w_tx w))) rows))) billDate"
    by (auto simp: run_scope_def run_compare_def eff_simps ReconcileDao_hasBatchForDate_def sql_hasBatch_def sql_localPayments_def
        ReconcileDao_insertBatch_def sql_insertBatch_def batchOf_def split: option.splits if_splits)
  from insertDiffs_success [OF each] batch com show ?thesis
    by (intro that [OF parse none refl refl, of no n]) (simp_all add: reconciled_db_def)
qed

lemma run_done:
  assumes run: "ReconcileService_run e billDate w = Some (r, w')" and r: "r = Inr res" "run_reported res"
  obtains rows midnight day no n local cs where "bill_rows e billDate = Some rows"
    "dt_parse e (billDate @ '' 00:00:00'') = Some midnight" "date_parse e billDate = Some day"
    "batch_count e day kChannel (w_db w) = 0"
    "local = map side_of_payment (day_payments e midnight (w_db w))" "cs = classifyReconcileDiffs local rows"
    "res = Result_ok (runData (batchOf billDate no local rows cs)) billDate"
    "w_db w' = reconciled_db (batch_row_for e (batchOf billDate no local rows cs) day) (diff_rows e no n cs) (w_db w)"
  using run
proof (cases rule: run_cases)
  case (no_bill m)
  with r show ?thesis by (auto simp: run_reported_def)
next
  case (failed c m)
  with r show ?thesis by (auto simp: run_reported_def)
next
  case (entered rows res' w1 w2)
  then have w1: "w_tx w1 = w_db w" "w_db w1 = w_db w" and w': "w_db w' = w_db w2" and scope: "run_scope e billDate rows w1 = Some (Inr res, w2)"
    using r by simp_all
  from scope show ?thesis
  proof (cases rule: run_scope_success)
    case (1 midnight day no n local cs)
    with that entered(1) w1 w' show ?thesis by simp
  qed
qed

lemma run_keeps:
  assumes "\<And>b. stmt_keeps P (sql_insertBatch e b)" and "\<And>f. stmt_keeps P (sql_insertDiff e f)"
  shows "preserves (committed P) (ReconcileService_run e billDate)"
proof -
  have reads: "stmt_keeps P (sql_hasBatch e dt ch)" "stmt_keeps P (sql_localPayments e dt)" for dt ch
    by (auto simp: stmt_keeps_def sql_hasBatch_def sql_localPayments_def split: option.splits)
  show ?thesis
    unfolding ReconcileService_run_def run_scope_def run_compare_def run_catch_def ReconcileDao_hasBatchForDate_def
      ReconcileDao_insertBatch_def ReconcileDao_insertDiff_def
    by (intro preserves_intro assms reads) (auto split: exn.split intro: preserves_intro)
qed

lemma schema_run: "preserves (committed (schema_ok e)) (ReconcileService_run e billDate)"
  by (intro run_keeps preserves_intro)

lemma handleDiff_keeps:
  assumes "\<And>i st remark. stmt_keeps P (sql_handleDiff e i st remark)"
  shows "preserves (committed P) (ReconcileService_handleDiff e diffId action remark)"
  unfolding ReconcileService_handleDiff_def ReconcileDao_getDiffById_def ReconcileDao_handleDiff_def
  by (intro preserves_intro assms)

lemma schema_handleDiff: "preserves (committed (schema_ok e)) (ReconcileService_handleDiff e diffId action remark)"
  by (intro handleDiff_keeps preserves_intro)

lemma listDiffs_keeps: "preserves (committed P) (ReconcileService_listDiffs e batchNo limit)"
proof -
  have "stmt_keeps P (sql_listDiffs e batchNo (- 1) limit)" by (auto simp: stmt_keeps_def sql_listDiffs_def)
  then show ?thesis
    unfolding ReconcileService_listDiffs_def ReconcileDao_listDiffs_def
    by (intro preserves_intro) (auto split: exn.split intro: preserves_intro)
qed

section \<open>Runs without faults\<close>

lemma hasBatch_run:
  assumes "healthy_from e n" and "n \<le> w_sql w" and "date_parse e billDate = Some day"
  shows "ReconcileDao_hasBatchForDate e billDate ch w = Some (Inr (0 < batch_count e day ch (w_db w)), w\<lparr>w_sql := Suc (w_sql w)\<rparr>)"
  using healthy_fromD [OF assms(1,2)] assms
  by (simp add: ReconcileDao_hasBatchForDate_def execSqlSync_auto_def sql_hasBatch_def)

lemma run_again:
  assumes "healthy_from e (w_sql w)" and "bill_rows e billDate = Some rows" and "date_parse e billDate = Some day"
    and "0 < batch_count e day kChannel (w_db w)"
  shows "\<exists>w'. ReconcileService_run e billDate w = Some (Inr (Result_fail kReconcileBatchStatusInvalid msg_batch_exists billDate), w') \<and>
    w_db w' = w_db w"
  using assms
  by (simp add: ReconcileService_run_rows try_catch_def with_guard_run run_scope_def bnd_def hasBatch_run [OF assms(1)] throw_def
      run_catch_def ret_def)

text \<open>Generated keys are new.\<close>

definition keys_fresh :: "env \<Rightarrow> nat \<Rightarrow> db \<Rightarrow> bool" where
  "keys_fresh e n d \<longleftrightarrow> auto_increments e \<and> (\<forall>r \<in> set (t_reconcile_diff d). td_id r < auto_id e n)"

lemma keys_fresh_insert:
  assumes "keys_fresh e n d"
  shows "keys_fresh e (Suc n) (d\<lparr>t_reconcile_diff := t_reconcile_diff d @ [diff_row_for e f (auto_id e n)]\<rparr>)"
proof -
  from assms have "auto_id e n < auto_id e (Suc n)" by (simp add: keys_fresh_def auto_increments_def)
  with assms show ?thesis by (auto simp: keys_fresh_def diff_row_for_def intro: less_trans)
qed

lemma insertDiffs_run:
  assumes "healthy_from e n" and "n \<le> w_sql w" and "keys_fresh e (w_sql w) (w_tx w)"
  shows "\<exists>w'. for_each (\<lambda>c. ReconcileDao_insertDiff e (diffOf no c)) cs w = Some (Inr (), w') \<and>
    w_finished w' = w_finished w \<and> w_sql w \<le> w_sql w'"
  using assms(2,3)
proof (induction cs arbitrary: w)
  case Nil
  then show ?case by (simp add: ret_def)
next
  case (Cons c cs)
  let ?w = "w\<lparr>w_tx := (w_tx w)\<lparr>t_reconcile_diff := t_reconcile_diff (w_tx w) @ [diff_row_for e (diffOf no c) (auto_id e (w_sql w))]\<rparr>,
    w_sql := Suc (w_sql w)\<rparr>"
  from Cons.prems(2) have "\<not> list_ex (\<lambda>r. td_id r = auto_id e (w_sql w)) (t_reconcile_diff (w_tx w))"
    by (auto simp: keys_fresh_def list_ex_iff)
  then have "ReconcileDao_insertDiff e (diffOf no c) w = Some (Inr (), ?w)"
    using healthy_fromD [OF assms(1) Cons.prems(1)]
    by (simp add: ReconcileDao_insertDiff_def execSqlSync_tx_def sql_insertDiff_def)
  moreover from Cons.IH [of ?w] Cons.prems keys_fresh_insert [OF Cons.prems(2)] obtain w' where
    "for_each (\<lambda>c. ReconcileDao_insertDiff e (diffOf no c)) cs ?w = Some (Inr (), w')" "w_finished w' = w_finished w" "w_sql w \<le> w_sql w'"
    by auto
  ultimately show ?case by simp
qed

lemma run_succeeds:
  assumes healthy: "healthy_from e (w_sql w)" and rows: "bill_rows e billDate = Some rows"
    and parse: "dt_parse e (billDate @ '' 00:00:00'') = Some midnight" "date_parse e billDate = Some day"
    and none: "batch_count e day kChannel (w_db w) = 0" and keys: "keys_fresh e (w_sql w) (w_db w)"
    and gen: "IdGenerator_nextId (clock_ns e) (w_gen w, w_clk w) = Some (Inr no, g, k)"
    and new: "\<forall>b \<in> set (t_reconcile_batch (w_db w)). ckey e (tb_batch_no b) \<noteq> ckey e no"
  shows "\<exists>res w'. ReconcileService_run e billDate w = Some (Inr res, w') \<and> run_reported res"
proof -
  let ?local = "map side_of_payment (day_payments e midnight (w_db w))"
  let ?cs = "classifyReconcileDiffs ?local rows"
  let ?b = "batchOf billDate no ?local rows ?cs"
  let ?d = "(w_db w)\<lparr>t_reconcile_batch := t_reconcile_batch (w_db w) @ [batch_row_for e ?b day]\<rparr>"
  define w2 where "w2 = w\<lparr>w_finished := False, w_gen := g, w_clk := k, w_tx := ?d, w_sql := Suc (Suc (Suc (Suc (w_sql w))))\<rparr>"
  have "\<not> list_ex (\<lambda>r. sql_eq e (tb_batch_no r) (rbt_batchNo ?b) \<or> tb_bill_date r = day \<and> sql_eq e (tb_channel r) (rbt_channel ?b)) (t_reconcile_batch (w_db w))"
    using none new by (auto simp: batch_count_def list_ex_iff sql_eq_def batchOf_def filter_empty_conv)
  then have ins: "sql_insertBatch e ?b n (w_db w) = Some (?d, ())" for n
    using parse(2) by (simp add: sql_insertBatch_def) (simp add: batchOf_def)
  from keys have "auto_id e (w_sql w) \<le> auto_id e (Suc (Suc (Suc (Suc (w_sql w)))))"
    by (simp add: keys_fresh_def auto_increments_def less_imp_le)
  with keys have fresh: "keys_fresh e (w_sql w2) (w_tx w2)" by (fastforce simp: keys_fresh_def w2_def)
  have "w_sql w \<le> w_sql w2" by (simp add: w2_def)
  from insertDiffs_run [OF healthy this fresh, of no ?cs] obtain w3 where
    w3: "for_each (\<lambda>c. ReconcileDao_insertDiff e (diffOf no c)) ?cs w2 = Some (Inr (), w3)" "\<not> w_finished w3" "w_sql w \<le> w_sql w3"
    by (auto simp: w2_def)
  have "run_scope e billDate rows (w\<lparr>w_tx := w_db w, w_sql := Suc (w_sql w), w_finished := False\<rparr>) =
    bnd (for_each (\<lambda>c. ReconcileDao_insertDiff e (diffOf no c)) ?cs) (\<lambda>_. bnd (TransactionGuard_commit e) (\<lambda>_. ret (Result_ok (runData ?b) billDate))) w2"
    using none ins gen healthy_fromD [OF healthy]
    by (simp add: run_scope_def run_compare_def bnd_def hasBatch_run [OF healthy _ parse(2)] execSqlSync_tx_def sql_localPayments_def parse
        nextId_def ReconcileDao_insertBatch_def w2_def)
  also have "\<dots> = Some (Inr (Result_ok (runData ?b) billDate), w3\<lparr>w_db := w_tx w3, w_finished := True, w_sql := Suc (w_sql w3)\<rparr>)"
    using w3 healthy_fromD [OF healthy] by (simp add: bnd_def TransactionGuard_commit_def ret_def)
  finally show ?thesis
    using healthy rows by (simp add: ReconcileService_run_rows try_catch_def with_guard_run run_reported_def)
qed

lemma handleDiff_run:
  assumes healthy: "healthy_from e (w_sql w)" and ok: "schema_ok e (w_db w)" and st: "handleStatus_of action = Some st"
  shows "ReconcileService_handleDiff e i action remark w =
    (if diff_row_of i (w_db w) = None then Some (Inr (Result_fail kReconcileBatchNotFound msg_diff_missing ''''), w\<lparr>w_sql := Suc (w_sql w)\<rparr>)
     else if diff_open i (w_db w)
     then Some (Inr (Result_ok (handledData i st) ''''),
            w\<lparr>w_db := settle_diff e i st remark (Suc (w_sql w)) (w_db w), w_sql := Suc (Suc (w_sql w))\<rparr>)
     else Some (Inr (Result_fail kReconcileDiffAlreadyHandled msg_diff_handled ''''), w\<lparr>w_sql := Suc (Suc (w_sql w))\<rparr>))"
proof -
  from ok have "diff_ok (t_reconcile_diff (w_db w))" by (simp add: schema_ok_def)
  then show ?thesis
    using healthy_fromD [OF healthy] healthy st
    by (auto simp: ReconcileService_handleDiff_def bnd_def ReconcileDao_getDiffById_def execSqlSync_auto_def query_def ret_def
        ReconcileDao_handleDiff_def sql_handleDiff_def diff_handle_eq)
qed

end
