(* ===== verification/ReconcileTask.thy ===== *)
theory ReconcileTask
  imports Node ReconcileService Fixture
begin

text \<open>
  \<^verbatim>\<open>src/tasks/ReconcileTask.h\<close>, \<^verbatim>\<open>src/tasks/ReconcileTask.cc\<close>: the daily reconciliation. Every tick looks
  for the bill of the day and for a batch of the day, and runs the reconciliation when there is a bill
  and no batch. (\<open>todayBeijing\<close> is in \<open>Chrono\<close>, \<open>kChannel\<close> and \<open>billPath\<close>, which this file
  repeats, in \<open>ReconcileService\<close>.)
\<close>

definition ReconcileTask_checkAndRun :: "env \<Rightarrow> unit node_act" where
  "ReconcileTask_checkAndRun e =
     bnd (on_db (now_ns e)) (\<lambda>now.
       case read_file e (billPath (todayBeijing now)) of
         None \<Rightarrow> ret ()
       | Some _ \<Rightarrow>
           bnd (on_db (ReconcileDao_hasBatchForDate e (todayBeijing now) kChannel)) (\<lambda>has.
             if has then ret ()
             else bnd (on_db (ReconcileService_run e (todayBeijing now))) (\<lambda>_. ret ())))"

definition ReconcileTask_runOnce :: "bool node_act" where
  "ReconcileTask_runOnce =
     bnd (gets nd_reconciling) (\<lambda>running.
       if running then ret False else bnd (modify (\<lambda>s. s\<lparr>nd_reconciling := True\<rparr>)) (\<lambda>_. ret True))"

definition reconcile_job :: "env \<Rightarrow> unit node_act" where
  "reconcile_job e = bnd (ReconcileTask_checkAndRun e) (\<lambda>_. modify (\<lambda>s. s\<lparr>nd_reconciling := False\<rparr>))"

text \<open>A tick of the timer whose job, if any, the pool then runs.\<close>

definition reconcile_tick :: "env \<Rightarrow> unit node_act" where
  "reconcile_tick e = bnd ReconcileTask_runOnce (\<lambda>submitted. if submitted then worker_run (reconcile_job e) else ret ())"

lemmas reconcile_task_defs = ReconcileTask_checkAndRun_def ReconcileTask_runOnce_def reconcile_job_def reconcile_tick_def

declare reconcile_task_defs [eval_simps]

section \<open>The task\<close>

lemma checkAndRun_keeps_flag: "preserves (\<lambda>s. nd_reconciling s = b) (ReconcileTask_checkAndRun e)"
  unfolding ReconcileTask_checkAndRun_def by (intro preserves_intro)

interpretation reconciling: timer_task nd_reconciling "\<lambda>b s. s\<lparr>nd_reconciling := b\<rparr>" "ReconcileTask_checkAndRun e" "reconcile_tick e" for e
proof (unfold_locales, goal_cases)
  case (4 s r t)
  from preservesD [OF checkAndRun_keeps_flag 4] show ?case by simp
qed (simp_all add: reconcile_tick_def ReconcileTask_runOnce_def reconcile_job_def bnd_assoc bnd_run ret_def [of _ s for s])

lemma in_world_reconciling [preserves_intro]: "preserves (in_world P) (modify (\<lambda>s. s\<lparr>nd_reconciling := b\<rparr>))"
  by (rule preserves_modify) (simp add: in_world_def)

lemma reconcile_tick_keeps:
  assumes "\<And>dt. preserves (committed P) (ReconcileService_run e dt)"
  shows "preserves (in_world (committed P)) (reconcile_tick e)"
proof -
  have "stmt_keeps P (sql_hasBatch e dt ch)" for dt ch by (auto simp: stmt_keeps_def sql_hasBatch_def split: option.splits)
  then show ?thesis
    unfolding reconcile_tick_def ReconcileTask_runOnce_def reconcile_job_def ReconcileTask_checkAndRun_def worker_run_def
      ReconcileDao_hasBatchForDate_def
    by (intro preserves_intro assms)
qed

text \<open>A fault of the check for a batch stops the task for good, like the relay's.\<close>

lemma reconcile_stuck_after_fault:
  assumes "db_configured e" and "sql_fault e (w_sql (nd_world s))" and "\<not> nd_reconciling s"
    and "read_file e (billPath (todayBeijing (clock_ns e (w_clk (nd_world s))))) \<noteq> None"
  shows "\<exists>t. reconcile_tick e s = Some (Inr (), t) \<and>
    (\<forall>n. run_ops (\<lambda>_. reconcile_tick e) (replicate n ()) t = Some (replicate n (Inr ()), t))"
proof -
  have "ReconcileTask_checkAndRun e (s\<lparr>nd_reconciling := True\<rparr>) = Some (Inl DrogonDbException,
      s\<lparr>nd_reconciling := True, nd_world := (nd_world s)\<lparr>w_clk := Suc (w_clk (nd_world s)), w_sql := Suc (w_sql (nd_world s))\<rparr>\<rparr>)"
    using assms(1,2,4)
    by (auto simp: ReconcileTask_checkAndRun_def on_db_def now_ns_def ReconcileDao_hasBatchForDate_def execSqlSync_auto_def bnd_def)
  from reconciling.stuck [OF assms(3) this] show ?thesis by blast
qed

section \<open>Ticks of a day\<close>

lemma tick_with_batch:
  assumes "healthy_from e (w_sql (nd_world s))" and "\<not> nd_reconciling s"
    and "date_parse e (todayBeijing (clock_ns e (w_clk (nd_world s)))) = Some day"
    and "0 < batch_count e day kChannel (w_db (nd_world s))"
  shows "\<exists>t. reconcile_tick e s = Some (Inr (), t) \<and> \<not> nd_reconciling t \<and> w_db (nd_world t) = w_db (nd_world s) \<and>
    w_sql (nd_world s) \<le> w_sql (nd_world t)"
proof -
  let ?s = "s\<lparr>nd_reconciling := True\<rparr>"
  let ?w = "(nd_world s)\<lparr>w_clk := Suc (w_clk (nd_world s))\<rparr>"
  have has: "ReconcileDao_hasBatchForDate e (todayBeijing (clock_ns e (w_clk (nd_world s)))) kChannel ?w =
      Some (Inr True, ?w\<lparr>w_sql := Suc (w_sql ?w)\<rparr>)"
    using hasBatch_run [OF assms(1) _ assms(3), of ?w kChannel] assms(4) by simp
  have "\<exists>t. ReconcileTask_checkAndRun e ?s = Some (Inr (), t) \<and> w_db (nd_world t) = w_db (nd_world s) \<and>
      w_sql (nd_world s) \<le> w_sql (nd_world t) \<and> w_clk (nd_world t) = Suc (w_clk (nd_world s))"
    using has by (auto simp: ReconcileTask_checkAndRun_def on_db_def now_ns_def bnd_def ret_def split: option.splits)
  then obtain t where t: "ReconcileTask_checkAndRun e ?s = Some (Inr (), t)" "w_db (nd_world t) = w_db (nd_world s)"
    "w_sql (nd_world s) \<le> w_sql (nd_world t)" "w_clk (nd_world t) = Suc (w_clk (nd_world s))" by blast
  from reconciling.released [OF assms(2) t(1)] t(2-) show ?thesis by simp
qed

lemma run_stores_batch:
  assumes "ReconcileService_run e billDate w = Some (Inr res, w')" and "run_reported res" and "date_parse e billDate = Some day"
  shows "batch_count e day kChannel (w_db w') = 1"
  using assms(1) refl assms(2)
proof (cases rule: run_done)
  case (1 rows midnight day' no n local cs)
  with assms(3) show ?thesis
    by (simp add: batch_count_def reconciled_db_def batch_row_for_def batchOf_def sql_eq_def)
qed

lemma ticks_with_batch:
  assumes "healthy_from e 0" and "\<And>k. date_parse e (todayBeijing (clock_ns e k)) = Some day"
    and "\<not> nd_reconciling s" and "0 < batch_count e day kChannel (w_db (nd_world s))"
  shows "\<exists>u. run_ops (\<lambda>_. reconcile_tick e) (replicate n ()) s = Some (replicate n (Inr ()), u) \<and> w_db (nd_world u) = w_db (nd_world s)"
  using assms(3,4)
proof (induction n arbitrary: s)
  case 0
  then show ?case by simp
next
  case (Suc n)
  have "healthy_from e (w_sql (nd_world s))" using assms(1) by (rule healthy_from_mono) simp
  from tick_with_batch [OF this Suc.prems(1) assms(2) Suc.prems(2)] obtain t where
    t: "reconcile_tick e s = Some (Inr (), t)" "\<not> nd_reconciling t" "w_db (nd_world t) = w_db (nd_world s)" by blast
  from Suc.IH [OF t(2)] t(3) Suc.prems(2) obtain u where
    "run_ops (\<lambda>_. reconcile_tick e) (replicate n ()) t = Some (replicate n (Inr ()), u)" "w_db (nd_world u) = w_db (nd_world s)" by auto
  with t(1) show ?case by auto
qed

section \<open>Properties\<close>

text \<open>
  C19: one batch a day. On a healthy server, with a readable bill of the day, valid date texts, new keys
  and no batch yet, the next tick stores one batch of the day; any number of further ticks on that day
  return and leave every table as it is.
\<close>

theorem reconcile_daily:
  assumes "healthy_from e 0" and "\<And>k. todayBeijing (clock_ns e k) = billDate" and "bill_rows e billDate = Some rows"
    and "dt_parse e (billDate @ '' 00:00:00'') = Some midnight" and "date_parse e billDate = Some day"
    and "\<not> nd_reconciling s" and "batch_count e day kChannel (w_db (nd_world s)) = 0"
    and "keys_fresh e (Suc (w_sql (nd_world s))) (w_db (nd_world s))"
    and "IdGenerator_nextId (clock_ns e) (w_gen (nd_world s), Suc (w_clk (nd_world s))) = Some (Inr no, g, k)"
    and "\<forall>b \<in> set (t_reconcile_batch (w_db (nd_world s))). ckey e (tb_batch_no b) \<noteq> ckey e no"
  shows "\<exists>t. reconcile_tick e s = Some (Inr (), t) \<and> batch_count e day kChannel (w_db (nd_world t)) = 1 \<and>
    (\<forall>n. \<exists>u. run_ops (\<lambda>_. reconcile_tick e) (replicate n ()) t = Some (replicate n (Inr ()), u) \<and> w_db (nd_world u) = w_db (nd_world t))"
proof -
  let ?s = "s\<lparr>nd_reconciling := True\<rparr>"
  define w1 where "w1 = (nd_world s)\<lparr>w_clk := Suc (w_clk (nd_world s)), w_sql := Suc (w_sql (nd_world s))\<rparr>"
  have healthy: "healthy_from e m" for m using assms(1) by (rule healthy_from_mono) simp
  have "w_sql w1 = Suc (w_sql (nd_world s))" "w_db w1 = w_db (nd_world s)" "w_gen w1 = w_gen (nd_world s)" "w_clk w1 = Suc (w_clk (nd_world s))"
    by (simp_all add: w1_def)
  with run_succeeds [OF healthy assms(3,4,5), of w1 no g k] assms(7-10) obtain res w2 where
    run: "ReconcileService_run e billDate w1 = Some (Inr res, w2)" "run_reported res" by auto
  have readable: "\<exists>content. read_file e (billPath billDate) = Some content"
    using assms(3) by (auto simp: bill_rows_def split: option.splits)
  have "ReconcileDao_hasBatchForDate e billDate kChannel ((nd_world s)\<lparr>w_clk := Suc (w_clk (nd_world s))\<rparr>) = Some (Inr False, w1)"
    using hasBatch_run [OF healthy order_refl assms(5)] assms(7) by (simp add: w1_def)
  with readable run(1) have "ReconcileTask_checkAndRun e ?s = Some (Inr (), ?s\<lparr>nd_world := w2\<rparr>)"
    by (auto simp: ReconcileTask_checkAndRun_def on_db_def now_ns_def bnd_def ret_def assms(2))
  from reconciling.released [OF assms(6) this] have tick: "reconcile_tick e s = Some (Inr (), s\<lparr>nd_reconciling := False, nd_world := w2\<rparr>)"
    by simp
  from run_stores_batch [OF run assms(5)] have one: "batch_count e day kChannel (w_db w2) = 1" .
  have "\<exists>u. run_ops (\<lambda>_. reconcile_tick e) (replicate n ()) (s\<lparr>nd_reconciling := False, nd_world := w2\<rparr>) = Some (replicate n (Inr ()), u) \<and>
      w_db (nd_world u) = w_db w2" for n
    using ticks_with_batch [of e day "s\<lparr>nd_reconciling := False, nd_world := w2\<rparr>" n] assms(1,2,5) one by simp
  with tick one show ?thesis by auto
qed

section \<open>Witnesses\<close>

definition daily_env :: env where
  "daily_env = still_env\<lparr>read_file := (\<lambda>p. if p = ''scripts/bills/bill_2026-01-01.csv'' then Some ''t1,1,5.01,x'' else None)\<rparr>"

definition daily_node :: node where
  "daily_node = \<lparr>nd_world = demo_world, nd_mq = \<lparr>mq_conn = False, mq_calls = 0, mq_stored = []\<rparr>, nd_mqClient = False, nd_relaying = False,
     nd_reconciling = False, nd_consumer = \<lparr>cc_conn = False, cc_open = 0, cc_calls = 0, cc_declared = [], cc_answers = []\<rparr>,
     nd_notifyBaseUrl = ''http://localhost:8080'', nd_requests = [], nd_slept = 0\<rparr>"

theorem reconcile_daily_witness:
  "\<exists>t. reconcile_tick daily_env daily_node = Some (Inr (), t) \<and> batch_count daily_env 20454 kChannel (w_db (nd_world t)) = 1"
proof -
  have date: "todayBeijing (clock_ns daily_env k) = ''2026-01-01''" for k
    by (simp add: daily_env_def demo_defs eval_simps)
  have rows: "bill_rows daily_env ''2026-01-01'' = Some [\<lparr>srow_channelTradeNo = ''t1'', srow_orderNo = ''1'', srow_amountFen = 501\<rparr>]"
    by (simp add: bill_rows_def daily_env_def demo_defs eval_simps)
  have parse: "dt_parse daily_env (''2026-01-01'' @ '' 00:00:00'') = Some 1767225600" "date_parse daily_env ''2026-01-01'' = Some 20454"
    by (simp_all add: daily_env_def demo_defs eval_simps)
  have state: "healthy_from daily_env 0" "\<not> nd_reconciling daily_node" "batch_count daily_env 20454 kChannel (w_db (nd_world daily_node)) = 0"
    "keys_fresh daily_env (Suc (w_sql (nd_world daily_node))) (w_db (nd_world daily_node))"
    "\<forall>b \<in> set (t_reconcile_batch (w_db (nd_world daily_node))). ckey daily_env (tb_batch_no b) \<noteq> ckey daily_env ''264905529753735168''"
    by (simp_all add: healthy_from_def batch_count_def keys_fresh_def auto_increments_def daily_env_def daily_node_def demo_defs)
  have gen: "IdGenerator_nextId (clock_ns daily_env) (w_gen (nd_world daily_node), Suc (w_clk (nd_world daily_node))) =
      Some (Inr ''264905529753735168'', \<lparr>gLastTimestampMs = 1767225600000, gSequence = 0\<rparr>, 2)"
    by (simp add: daily_env_def daily_node_def demo_defs eval_simps)
  from reconcile_daily [OF state(1) date rows parse state(2-4) gen state(5)] show ?thesis by blast
qed

end
