(* ===== verification/RequestIdFilter.thy ===== *)
theory RequestIdFilter
  imports Fixture
begin

text \<open>
  \<^verbatim>\<open>src/common/RequestIdFilter.h\<close>, \<^verbatim>\<open>src/common/RequestIdFilter.cc\<close>: the check of the request
  identifier that guards the writing routes, and the parts of drogon's requests and responses the
  program uses.
\<close>

section \<open>Requests and responses\<close>

datatype HttpMethod = Get | Head | Options | Post | Put | Delete | Patch

record http_req =
  rq_method :: HttpMethod
  rq_header :: string \<comment> \<open>\<open>getHeader("X-Request-Id")\<close>, empty if it is absent\<close>
  rq_attr :: "string option" \<comment> \<open>the attribute \<open>x-request-id\<close>\<close>
  rq_batchNo :: string \<comment> \<open>\<open>getParameter("batchNo")\<close>\<close>
  rq_body :: string
  rq_json :: "json option" \<comment> \<open>\<open>getJsonObject()\<close>; \<open>None\<close> is the null pointer\<close>

record http_response =
  rs_status :: int
  rs_body :: string

definition newHttpJsonResponse :: "env \<Rightarrow> json \<Rightarrow> http_response" where
  "newHttpJsonResponse e v = \<lparr>rs_status = 200, rs_body = json_http e v\<rparr>"

definition failResponse :: "env \<Rightarrow> int \<Rightarrow> ErrCode \<Rightarrow> string \<Rightarrow> string \<Rightarrow> http_response" where
  "failResponse e status code message requestId =
     (newHttpJsonResponse e (Result_toJson JInt (Result_fail code message requestId)))\<lparr>rs_status := status\<rparr>"

section \<open>The filter\<close>

definition char_in :: "char \<Rightarrow> char \<Rightarrow> char \<Rightarrow> bool" where
  "char_in lo hi c \<longleftrightarrow> (of_char lo :: nat) \<le> of_char c \<and> (of_char c :: nat) \<le> of_char hi"

definition is_hex :: "char \<Rightarrow> bool" where
  "is_hex c \<longleftrightarrow> char_in CHR ''0'' CHR ''9'' c \<or> char_in CHR ''a'' CHR ''f'' c \<or> char_in CHR ''A'' CHR ''F'' c"

fun all_hex_or_dash :: "string \<Rightarrow> bool" where
  "all_hex_or_dash [] = True"
| "all_hex_or_dash (c # cs) = (if \<not> is_hex c \<and> c \<noteq> CHR ''-'' then False else all_hex_or_dash cs)"

definition isValidRequestId :: "string \<Rightarrow> bool" where
  "isValidRequestId rid = (if length rid < 16 \<or> 64 < length rid then False else all_hex_or_dash rid)"

text \<open>\<open>Inl\<close>: the response that ends the chain; \<open>Inr\<close>: the request as the handler gets it.\<close>

definition doFilter :: "env \<Rightarrow> http_req \<Rightarrow> http_response + http_req" where
  "doFilter e req =
     (if rq_method req = Get \<or> rq_method req = Head \<or> rq_method req = Options then Inr req
      else if isValidRequestId (rq_header req) then Inr (req\<lparr>rq_attr := Some (rq_header req)\<rparr>)
      else Inl (failResponse e 400 kMissingRequestId (toMessage kMissingRequestId) (rq_header req)))"

definition requestIdOf :: "http_req \<Rightarrow> string" where
  "requestIdOf req = (case rq_attr req of Some rid \<Rightarrow> rid | None \<Rightarrow> rq_header req)"

declare newHttpJsonResponse_def [eval_simps] failResponse_def [eval_simps] char_in_def [eval_simps] is_hex_def [eval_simps]
  isValidRequestId_def [eval_simps] doFilter_def [eval_simps] requestIdOf_def [eval_simps]

section \<open>Lemmas\<close>

lemma all_hex_or_dash_iff: "all_hex_or_dash cs \<longleftrightarrow> (\<forall>c \<in> set cs. is_hex c \<or> c = CHR ''-'')"
  by (induction cs) auto

lemma isValidRequestId_iff:
  "isValidRequestId rid \<longleftrightarrow> 16 \<le> length rid \<and> length rid \<le> 64 \<and> (\<forall>c \<in> set rid. is_hex c \<or> c = CHR ''-'')"
  by (auto simp: isValidRequestId_def all_hex_or_dash_iff)

lemma doFilter_pass:
  assumes "doFilter e req = Inr req'" and "rq_method req = Post"
  shows "isValidRequestId (requestIdOf req') \<and> rq_attr req' = Some (rq_header req)"
  using assms by (auto simp: doFilter_def requestIdOf_def split: if_splits)

end
