(* ===== verification/Logger.thy ===== *)
theory Logger
  imports RequestIdFilter
begin

text \<open>
  \<^verbatim>\<open>src/common/Logger.h\<close>, \<^verbatim>\<open>src/common/Logger.cc\<close>: initialisation, per-request loggers and shutdown of
  the logging facility, as a state machine over its static members. spdlog itself (sinks, queue,
  formatting) is not under \<^verbatim>\<open>src\<close>: a logger is its name, level and sinks. As documented by spdlog,
  \<open>set_pattern\<close> sets the formatter of the sinks of a logger; all loggers here share one list of sinks,
  so the pattern is part of the static state. Dereferencing the null \<open>logger_\<close> is undefined behaviour.
\<close>

section \<open>State\<close>

datatype log_level = Trace | Debug | Info | Warn | Err | Critical | Off

datatype log_sink = ConsoleSink | FileSink string nat nat \<comment> \<open>path, size and number of files\<close>

record spd_logger =
  sl_name :: string
  sl_level :: log_level
  sl_flush_on :: log_level
  sl_sinks :: "log_sink list"

record Logger =
  lg_initFlag :: bool \<comment> \<open>the \<open>once_flag\<close> of \<open>init\<close> is used up\<close>
  lg_logger :: "spd_logger option" \<comment> \<open>\<open>logger_\<close>\<close>
  lg_pool :: bool \<comment> \<open>\<open>pool_\<close> is not null\<close>
  lg_sinks :: "log_sink list" \<comment> \<open>\<open>sinks_\<close>\<close>
  lg_pattern :: string \<comment> \<open>the pattern last set on the sinks\<close>
  lg_shutdownFlag :: bool \<comment> \<open>\<open>shutdownFlag_\<close>\<close>
  lg_global_level :: log_level \<comment> \<open>the level of spdlog's registry\<close>
  lg_warnings :: nat \<comment> \<open>warnings about illegal request identifiers\<close>

type_synonym 'a log_act = "(Logger, exn, 'a) eff"

definition Logger_start :: Logger where
  "Logger_start = \<lparr>lg_initFlag = False, lg_logger = None, lg_pool = False, lg_sinks = [], lg_pattern = '''', lg_shutdownFlag = False,
     lg_global_level = Info, lg_warnings = 0\<rparr>"

definition kBasePattern :: string where "kBasePattern = ''[%Y-%m-%d %H:%M:%S.%e][%l][-] %v''"
definition kLoggerName :: string where "kLoggerName = ''trade''"
definition kLogFile :: string where "kLogFile = ''logs/trade_server.log''"
definition kMaxFileSize :: nat where "kMaxFileSize = 64 * 1024 * 1024"
definition kMaxFiles :: nat where "kMaxFiles = 5"
definition kMaxRequestIdLen :: nat where "kMaxRequestIdLen = 64"

section \<open>Operations\<close>

text \<open>\<open>file_ok\<close>: the file sink can be created; otherwise the logger writes to the console only.\<close>

definition initialSinks :: "bool \<Rightarrow> log_sink list" where
  "initialSinks file_ok = ConsoleSink # (if file_ok then [FileSink kLogFile kMaxFileSize kMaxFiles] else [])"

definition Logger_doInit :: "bool \<Rightarrow> log_level \<Rightarrow> unit log_act" where
  "Logger_doInit file_ok level =
     modify (\<lambda>s. s\<lparr>lg_pool := True,
       lg_logger := Some \<lparr>sl_name = kLoggerName, sl_level = level, sl_flush_on = Err,
         sl_sinks = initialSinks file_ok\<rparr>,
       lg_sinks := initialSinks file_ok, lg_pattern := kBasePattern, lg_global_level := level\<rparr>)"

definition Logger_init :: "bool \<Rightarrow> log_level \<Rightarrow> unit log_act" where
  "Logger_init file_ok level =
     bnd (gets lg_initFlag) (\<lambda>initialised.
       bnd (if initialised then ret ()
            else bnd (Logger_doInit file_ok level) (\<lambda>_. modify (\<lambda>s. s\<lparr>lg_initFlag := True\<rparr>))) (\<lambda>_.
         modify (\<lambda>s. s\<lparr>lg_logger := map_option (\<lambda>l. l\<lparr>sl_level := level\<rparr>) (lg_logger s), lg_global_level := level\<rparr>)))"

definition Logger_ensureInitialized :: "bool \<Rightarrow> unit log_act" where
  "Logger_ensureInitialized file_ok =
     bnd (gets lg_shutdownFlag) (\<lambda>down. if down then ret () else Logger_init file_ok Debug)"

definition Logger_get :: "bool \<Rightarrow> spd_logger option log_act" where
  "Logger_get file_ok = bnd (Logger_ensureInitialized file_ok) (\<lambda>_. gets lg_logger)"

definition is_allowed :: "char \<Rightarrow> bool" where
  "is_allowed c \<longleftrightarrow>
     char_in CHR ''0'' CHR ''9'' c \<or> char_in CHR ''a'' CHR ''z'' c \<or> char_in CHR ''A'' CHR ''Z'' c \<or>
     c = CHR ''-'' \<or> c = CHR ''_''"

fun sanitize_loop :: "string \<Rightarrow> string \<Rightarrow> string" where
  "sanitize_loop [] out = out"
| "sanitize_loop (c # cs) out = (if \<not> is_allowed c then '''' else sanitize_loop cs (out @ [c]))"

definition sanitizeRequestId :: "string \<Rightarrow> string" where
  "sanitizeRequestId raw = (if raw = '''' \<or> kMaxRequestIdLen < length raw then '''' else sanitize_loop raw '''')"

definition requestPattern :: "string \<Rightarrow> string" where
  "requestPattern safe = ''[%Y-%m-%d %H:%M:%S.%e][%l]['' @ safe @ ''] %v''"

definition deref_logger :: "spd_logger log_act" where
  "deref_logger = bnd (gets lg_logger) (\<lambda>l. case l of None \<Rightarrow> undefined_behaviour | Some x \<Rightarrow> ret x)"

definition Logger_withRequestId :: "bool \<Rightarrow> string \<Rightarrow> spd_logger option log_act" where
  "Logger_withRequestId file_ok requestId =
     bnd (Logger_ensureInitialized file_ok) (\<lambda>_.
       if sanitizeRequestId requestId = '''' then
         bnd (if requestId \<noteq> '''' then bnd deref_logger (\<lambda>_. modify (\<lambda>s. s\<lparr>lg_warnings := Suc (lg_warnings s)\<rparr>)) else ret ()) (\<lambda>_.
           gets lg_logger)
       else
         bnd (gets lg_sinks) (\<lambda>sinks.
           bnd (modify (\<lambda>s. s\<lparr>lg_pattern := requestPattern (sanitizeRequestId requestId)\<rparr>)) (\<lambda>_.
             bnd deref_logger (\<lambda>logger.
               ret (Some \<lparr>sl_name = kLoggerName @ ''.'' @ sanitizeRequestId requestId, sl_level = sl_level logger,
                 sl_flush_on = Err, sl_sinks = sinks\<rparr>)))))"

definition Logger_shutdown :: "unit log_act" where
  "Logger_shutdown =
     modify (\<lambda>s. s\<lparr>lg_shutdownFlag := True, lg_logger := None, lg_pool := False, lg_sinks := []\<rparr>)"

lemmas logger_defs = Logger_start_def initialSinks_def Logger_doInit_def Logger_init_def Logger_ensureInitialized_def Logger_get_def sanitizeRequestId_def
  requestPattern_def deref_logger_def Logger_withRequestId_def Logger_shutdown_def kBasePattern_def kLoggerName_def kLogFile_def
  kMaxFileSize_def kMaxFiles_def kMaxRequestIdLen_def is_allowed_def

declare logger_defs [eval_simps]
section \<open>The states of the logger\<close>

datatype log_op = InitOp log_level | GetOp | WithRequestIdOp string | ShutdownOp

fun log_op_act :: "bool \<Rightarrow> log_op \<Rightarrow> unit log_act" where
  "log_op_act file_ok (InitOp level) = Logger_init file_ok level"
| "log_op_act file_ok GetOp = bnd (Logger_get file_ok) (\<lambda>_. ret ())"
| "log_op_act file_ok (WithRequestIdOp rid) = bnd (Logger_withRequestId file_ok rid) (\<lambda>_. ret ())"
| "log_op_act file_ok ShutdownOp = Logger_shutdown"

text \<open>
  The identifiers that may appear in a pattern: up to 64 letters, digits, dashes and underscores,
  spelled out. The signs of a pattern are all its other characters: directives, brackets, blanks,
  line breaks and so on.
\<close>

definition id_chars :: string where
  "id_chars = ''0123456789abcdefghijklmnopqrstuvwxyzABCDEFGHIJKLMNOPQRSTUVWXYZ-_''"

definition usable_id :: "string \<Rightarrow> bool" where
  "usable_id rid \<longleftrightarrow> rid \<noteq> [] \<and> length rid \<le> 64 \<and> set rid \<subseteq> set id_chars"

definition pattern_signs :: "string \<Rightarrow> string" where
  "pattern_signs p = filter (\<lambda>c. c \<notin> set id_chars) p"

text \<open>
  Before the first use nothing exists; then the logger exists until the shutdown, with the shared
  sinks; after it the logger is null for good. Whatever pattern the sinks have, its signs are those
  of the base pattern.
\<close>

definition logger_ok :: "Logger \<Rightarrow> bool" where
  "logger_ok s \<longleftrightarrow>
     (case lg_logger s of
        None \<Rightarrow> lg_initFlag s \<longrightarrow> lg_shutdownFlag s
      | Some l \<Rightarrow> lg_initFlag s \<and> lg_pool s \<and> pattern_signs (lg_pattern s) = pattern_signs kBasePattern \<and> sl_sinks l = lg_sinks s \<and>
          ConsoleSink \<in> set (lg_sinks s) \<and> sl_level l = lg_global_level s)"

section \<open>Sanitised identifiers\<close>

lemma sanitize_loop_eq:
  "sanitize_loop cs out = (if list_all is_allowed cs then out @ cs else '''')"
  by (induction cs arbitrary: out) auto

lemma is_allowed_chars: "is_allowed c \<longleftrightarrow> c \<in> set id_chars"
proof -
  have "\<forall>c. is_allowed c \<longleftrightarrow> c \<in> set id_chars" by code_simp
  then show ?thesis by blast
qed

lemma sanitizeRequestId_eq: "sanitizeRequestId raw = (if usable_id raw then raw else '''')"
  by (auto simp: sanitizeRequestId_def sanitize_loop_eq kMaxRequestIdLen_def usable_id_def list_all_iff is_allowed_chars)

lemma usable_not_empty: "usable_id rid \<Longrightarrow> rid \<noteq> []"
  by (simp add: usable_id_def)

lemma is_hex_allowed: "is_hex c \<Longrightarrow> is_allowed c"
  by (auto simp: is_hex_def is_allowed_def char_in_def)

lemma valid_usable: "isValidRequestId rid \<Longrightarrow> usable_id rid"
proof -
  assume valid: "isValidRequestId rid"
  from valid have "\<forall>c \<in> set rid. is_hex c \<or> c = CHR ''-''" by (auto simp: isValidRequestId_iff)
  moreover have "is_hex c \<or> c = CHR ''-'' \<longrightarrow> is_allowed c" for c using is_hex_allowed [of c] by (auto simp: is_allowed_def)
  ultimately have "\<forall>c \<in> set rid. is_allowed c" by blast
  then have "set rid \<subseteq> set id_chars" unfolding is_allowed_chars subset_eq .
  with valid show ?thesis by (auto simp: isValidRequestId_iff usable_id_def)
qed

lemma pattern_signs_request:
  assumes "usable_id rid"
  shows "pattern_signs (requestPattern rid) = pattern_signs kBasePattern"
proof -
  from assms have "filter (\<lambda>c. c \<notin> set id_chars) rid = []" by (auto simp: usable_id_def filter_empty_conv)
  moreover have "filter (\<lambda>c. c \<notin> set id_chars) ''[%Y-%m-%d %H:%M:%S.%e][%l]['' @ filter (\<lambda>c. c \<notin> set id_chars) ''] %v'' =
    filter (\<lambda>c. c \<notin> set id_chars) ''[%Y-%m-%d %H:%M:%S.%e][%l][-] %v''" by code_simp
  ultimately show ?thesis by (simp only: pattern_signs_def requestPattern_def kBasePattern_def filter_append append_Nil)
qed

section \<open>The states of the logger are maintained\<close>

lemmas logger_step_defs = Logger_init_def Logger_doInit_def Logger_ensureInitialized_def Logger_get_def Logger_withRequestId_def
  deref_logger_def Logger_shutdown_def

lemma logger_ok_start: "logger_ok Logger_start"
  by (simp add: logger_ok_def Logger_start_def)

lemma logger_ok_init: "preserves logger_ok (Logger_init file_ok level)"
  by (rule preservesI)
    (auto simp: Logger_init_def Logger_doInit_def initialSinks_def bnd_def gets_def modify_def ret_def logger_ok_def split: option.splits if_splits)

lemma logger_ok_ensure [preserves_intro]: "preserves logger_ok (Logger_ensureInitialized file_ok)"
  unfolding Logger_ensureInitialized_def by (intro preserves_intro logger_ok_init)

lemma logger_ok_deref [preserves_intro]: "preserves logger_ok deref_logger"
  unfolding deref_logger_def by (intro preserves_intro)

lemma logger_ok_warn [preserves_intro]: "preserves logger_ok (modify (\<lambda>s. s\<lparr>lg_warnings := Suc (lg_warnings s)\<rparr>))"
  by (rule preserves_modify) (simp add: logger_ok_def split: option.splits)

lemma logger_ok_pattern [preserves_intro]:
  "usable_id rid \<Longrightarrow> preserves logger_ok (modify (\<lambda>s. s\<lparr>lg_pattern := requestPattern rid\<rparr>))"
  by (rule preserves_modify) (auto simp: logger_ok_def pattern_signs_request split: option.splits)

lemma logger_ok_withRequestId [preserves_intro]: "preserves logger_ok (Logger_withRequestId file_ok rid)"
  unfolding Logger_withRequestId_def sanitizeRequestId_eq
  by (cases "usable_id rid") (auto simp: usable_not_empty intro!: preserves_intro)

lemma logger_ok_op: "preserves logger_ok (log_op_act file_ok oper)"
proof (cases oper)
  case ShutdownOp
  then show ?thesis by (auto simp: Logger_shutdown_def logger_ok_def intro: preserves_modify)
qed (auto simp: Logger_get_def intro!: preserves_intro logger_ok_init)

interpretation logging: invariant_ops "log_op_act file_ok" logger_ok for file_ok
  by unfold_locales (rule preservesD [OF logger_ok_op])

text \<open>After the shutdown nothing brings the logger back.\<close>

definition logger_down :: "Logger \<Rightarrow> bool" where
  "logger_down s \<longleftrightarrow> lg_shutdownFlag s \<and> lg_initFlag s \<and> lg_logger s = None"

lemma logger_down_op: "logger_down s \<Longrightarrow> log_op_act file_ok oper s = Some (r, t) \<Longrightarrow> logger_down t"
  by (cases oper)
    (auto simp: logger_step_defs logger_down_def bnd_def gets_def modify_def ret_def undefined_behaviour_def split: if_splits)

interpretation logging_down: invariant_ops "log_op_act file_ok" logger_down for file_ok
  by unfold_locales (rule logger_down_op)

section \<open>The logger of a request\<close>

lemma withRequestId_usable:
  assumes "Logger_withRequestId file_ok rid s = Some (Inr (Some l), t)" and "usable_id rid"
  shows "lg_pattern t = requestPattern rid \<and> sl_name l = kLoggerName @ ''.'' @ rid \<and> sl_sinks l = lg_sinks t"
proof -
  from assms obtain u x where "deref_logger u = Some (Inr x, t)" "lg_pattern u = requestPattern rid"
    "sl_name l = kLoggerName @ ''.'' @ rid" "sl_sinks l = lg_sinks u"
    by (auto simp: Logger_withRequestId_def sanitizeRequestId_eq usable_not_empty bnd_eq_Inr gets_eq ret_eq modify_def)
  moreover from this(1) have "t = u" by (auto simp: deref_logger_def eff_simps split: option.splits)
  ultimately show ?thesis by simp
qed

lemma ensureInitialized_pattern:
  "Logger_ensureInitialized file_ok s = Some (r, t) \<Longrightarrow> logger_ok s \<Longrightarrow> lg_logger t = Some l \<Longrightarrow>
     lg_pattern t = (case lg_logger s of None \<Rightarrow> kBasePattern | Some _ \<Rightarrow> lg_pattern s)"
  by (auto simp: Logger_ensureInitialized_def Logger_init_def Logger_doInit_def eff_simps logger_ok_def split: if_splits option.splits)

lemma withRequestId_unusable:
  assumes "Logger_withRequestId file_ok rid s = Some (Inr (Some l), t)" and "\<not> usable_id rid" and "logger_ok s"
  shows "lg_logger t = Some l \<and> lg_pattern t = (case lg_logger s of None \<Rightarrow> kBasePattern | Some _ \<Rightarrow> lg_pattern s)"
proof -
  from assms(1,2) obtain r u where u: "Logger_ensureInitialized file_ok s = Some (r, u)" "lg_logger t = Some l"
    "lg_logger t = lg_logger u" "lg_pattern t = lg_pattern u"
    by (auto simp: Logger_withRequestId_def sanitizeRequestId_eq bnd_eq_Inr gets_eq ret_eq modify_def deref_logger_def undefined_behaviour_def
        split: if_splits option.splits)
  with ensureInitialized_pattern [OF u(1) assms(3)] show ?thesis by auto
qed

section \<open>Properties\<close>

text \<open>
  C36: request identifiers cannot forge log lines. In every state the operations of the logger lead
  to, whatever text the client sends as its identifier: an identifier of 1 to 64 letters, digits,
  dashes and underscores is put between the brackets of the pattern as it is; with any other the
  request gets the global logger and the pattern of the sinks is not touched (no part of the text is
  used). So apart from letters, digits, dashes and underscores the pattern of the sinks always has
  exactly the characters of the base pattern in their order: no further directive, bracket, blank,
  carriage return or line feed. The logger writes to the shared sinks, and every identifier the
  filter lets through is usable.
\<close>

theorem log_lines_unforged:
  assumes "run_ops (log_op_act file_ok) ops Logger_start = Some (rs, s)"
    and "Logger_withRequestId file_ok rid s = Some (Inr (Some l), t)"
  shows "(if usable_id rid then lg_pattern t = ''[%Y-%m-%d %H:%M:%S.%e][%l]['' @ rid @ ''] %v'' \<and> sl_name l = ''trade.'' @ rid
          else lg_logger t = Some l \<and> lg_pattern t = (case lg_logger s of None \<Rightarrow> kBasePattern | Some _ \<Rightarrow> lg_pattern s)) \<and>
    pattern_signs (lg_pattern t) = pattern_signs ''[%Y-%m-%d %H:%M:%S.%e][%l][-] %v'' \<and>
    sl_sinks l = lg_sinks t \<and> (isValidRequestId rid \<longrightarrow> usable_id rid)"
proof -
  from logging.inv_run_ops [OF logger_ok_start assms(1)] have s: "logger_ok s" .
  then have t: "logger_ok t" using assms(2) logger_ok_withRequestId by (blast dest: preservesD)
  show ?thesis
  proof (cases "usable_id rid")
    case True
    with withRequestId_usable [OF assms(2)] pattern_signs_request [OF True] show ?thesis
      by (simp add: requestPattern_def kLoggerName_def kBasePattern_def)
  next
    case False
    with withRequestId_unusable [OF assms(2) False s] t valid_usable [of rid] show ?thesis
      by (auto simp: logger_ok_def kBasePattern_def)
  qed
qed

text \<open>
  The pattern with the identifier is set on the sinks that all loggers share: after the logger of a
  request has been made, the global logger writes with that identifier too, although the base pattern
  is meant for lines without a request and loggers are meant to differ in their patterns.
\<close>

lemma request_pattern_shared:
  assumes "logger_ok s" and "usable_id rid" and "Logger_withRequestId file_ok rid s = Some (Inr (Some l), t)" and "lg_logger t = Some g"
  shows "sl_sinks g = sl_sinks l \<and> lg_pattern t = requestPattern rid"
proof -
  have "logger_ok t" using assms(1,3) logger_ok_withRequestId by (blast dest: preservesD)
  with withRequestId_usable [OF assms(3,2)] assms(4) show ?thesis by (simp add: logger_ok_def)
qed

text \<open>
  Logging after the shutdown. After any operations in between, the global logger is null, as its
  callers are told to expect; but asking for the logger of a request with a non-empty identifier
  dereferences the null pointer.
\<close>

theorem logger_after_shutdown:
  assumes "lg_initFlag s" and "Logger_shutdown s = Some (r, u)" and "run_ops (log_op_act file_ok) ops u = Some (rs, t)" and "rid \<noteq> ''''"
  shows "Logger_get file_ok t = Some (Inr None, t) \<and> Logger_withRequestId file_ok rid t = None"
proof -
  from assms(1,2) have "logger_down u" by (auto simp: logger_down_def Logger_shutdown_def eff_simps)
  from logging_down.inv_run_ops [OF this assms(3)] assms(4) show ?thesis
    by (simp add: logger_down_def Logger_get_def Logger_withRequestId_def Logger_ensureInitialized_def deref_logger_def
        bnd_def gets_def ret_def modify_def undefined_behaviour_def)
qed

text \<open>
  Every access sets the level back to debug, although the comment in \<open>ensureInitialized\<close> says that it
  does not touch the level.
\<close>

lemma get_resets_level:
  assumes "logger_ok s" and "\<not> lg_shutdownFlag s" and "Logger_get file_ok s = Some (Inr l, t)"
  shows "\<exists>x. l = Some x \<and> sl_level x = Debug"
  using assms
  by (auto simp: Logger_get_def Logger_ensureInitialized_def Logger_init_def Logger_doInit_def eff_simps logger_ok_def
      split: if_splits option.splits)

section \<open>Witnesses\<close>

theorem log_lines_unforged_witness:
  "\<exists>s l t l' t'. run_ops (log_op_act True) [InitOp Info, GetOp] Logger_start = Some ([Inr (), Inr ()], s) \<and>
     Logger_withRequestId True ''0123456789abcdef'' s = Some (Inr (Some l), t) \<and>
     lg_pattern t = ''[%Y-%m-%d %H:%M:%S.%e][%l][0123456789abcdef] %v'' \<and>
     Logger_withRequestId True ''abc%v'' s = Some (Inr (Some l'), t') \<and> lg_pattern t' = kBasePattern"
proof -
  have "\<exists>s l t l' t'. run_ops (log_op_act True) [InitOp Info, GetOp] Logger_start = Some ([Inr (), Inr ()], s) \<and>
     Logger_withRequestId True ''0123456789abcdef'' s = Some (Inr (Some l), t) \<and>
     Logger_withRequestId True ''abc%v'' s = Some (Inr (Some l'), t') \<and> lg_pattern s = kBasePattern"
    by (simp add: eval_simps cong: eval_cong)
  then obtain s l t l' t' where run: "run_ops (log_op_act True) [InitOp Info, GetOp] Logger_start = Some ([Inr (), Inr ()], s)"
     and w: "Logger_withRequestId True ''0123456789abcdef'' s = Some (Inr (Some l), t)"
       "Logger_withRequestId True ''abc%v'' s = Some (Inr (Some l'), t')" and s: "lg_pattern s = kBasePattern" by blast
  have u: "usable_id ''0123456789abcdef''" "\<not> usable_id ''abc%v''" by code_simp+
  from log_lines_unforged [OF run w(1)] u(1) have "lg_pattern t = ''[%Y-%m-%d %H:%M:%S.%e][%l][0123456789abcdef] %v''" by simp
  moreover from log_lines_unforged [OF run w(2)] u(2) s have "lg_pattern t' = kBasePattern" by (auto split: option.splits)
  ultimately show ?thesis using run w by blast
qed

theorem logger_after_shutdown_witness:
  "\<exists>s u. Logger_init True Info Logger_start = Some (Inr (), s) \<and> Logger_shutdown s = Some (Inr (), u) \<and>
     Logger_withRequestId True ''r'' u = None"
proof -
  have "\<exists>s u. Logger_init True Info Logger_start = Some (Inr (), s) \<and> lg_initFlag s \<and> Logger_shutdown s = Some (Inr (), u)"
    by (simp add: eval_simps cong: eval_cong)
  then obtain s u where su: "Logger_init True Info Logger_start = Some (Inr (), s)" "lg_initFlag s" "Logger_shutdown s = Some (Inr (), u)"
    by blast
  with logger_after_shutdown [OF su(2,3), of True "[]" "[]" u "''r''"] show ?thesis by auto
qed

end
