(* ===== verification/SignUtil.thy ===== *)
theory SignUtil
  imports Fixture
begin

text \<open>
  \<^verbatim>\<open>src/utils/SignUtil.cc\<close>: the signature of channel callbacks. The digest itself is OpenSSL's; the
  canonical text, the hexadecimal form and the comparison are the program's.
\<close>

definition kHex :: string where "kHex = ''0123456789abcdef''"

definition hex_byte :: "char \<Rightarrow> string" where
  "hex_byte b = [kHex ! ((of_char b :: nat) div 16), kHex ! ((of_char b :: nat) mod 16)]"

definition hmacSha256Hex :: "env \<Rightarrow> string \<Rightarrow> string \<Rightarrow> string" where
  "hmacSha256Hex e key data = concat (map hex_byte (hmac_sha256 e key data))"

definition mockCanonical :: "string \<Rightarrow> string \<Rightarrow> string \<Rightarrow> string \<Rightarrow> string" where
  "mockCanonical orderNo channelTradeNo amount timestamp =
     orderNo @ ''|'' @ channelTradeNo @ ''|'' @ amount @ ''|'' @ timestamp"

text \<open>\<open>CRYPTO_memcmp\<close> compares two buffers of the same length.\<close>

definition verifyMockSign :: "env \<Rightarrow> string \<Rightarrow> string \<Rightarrow> string \<Rightarrow> string \<Rightarrow> string \<Rightarrow> string \<Rightarrow> bool" where
  "verifyMockSign e secret orderNo channelTradeNo amount timestamp sign =
     (let expected = hmacSha256Hex e secret (mockCanonical orderNo channelTradeNo amount timestamp)
      in if length expected \<noteq> length sign then False else expected = sign)"

declare kHex_def [eval_simps] hex_byte_def [eval_simps] hmacSha256Hex_def [eval_simps]
  mockCanonical_def [eval_simps] verifyMockSign_def [eval_simps]

section \<open>Lemmas\<close>

lemma verifyMockSign_iff:
  "verifyMockSign e secret orderNo tradeNo amount ts sign \<longleftrightarrow>
     sign = hmacSha256Hex e secret (mockCanonical orderNo tradeNo amount ts)"
  by (auto simp: verifyMockSign_def Let_def)

lemma hex_byte_inj:
  assumes "hex_byte a = hex_byte b"
  shows "a = b"
proof -
  have distinct: "distinct kHex" and len: "length kHex = 16" by (simp_all add: kHex_def)
  have bound: "(of_char c :: nat) div 16 < 16" "(of_char c :: nat) mod 16 < 16" for c
    by (simp_all add: less_mult_imp_div_less)
  from assms have "(of_char a :: nat) div 16 = of_char b div 16" "(of_char a :: nat) mod 16 = of_char b mod 16"
    using nth_eq_iff_index_eq [OF distinct] len bound by (auto simp: hex_byte_def)
  then have "(of_char a :: nat) = of_char b" by (metis div_mult_mod_eq)
  then show ?thesis by simp
qed

text \<open>The hexadecimal form loses nothing of the digest.\<close>

lemma hex_bytes_inj: "concat (map hex_byte xs) = concat (map hex_byte ys) \<Longrightarrow> xs = ys"
proof (induction xs arbitrary: ys)
  case Nil
  then show ?case by (cases ys) (simp_all add: hex_byte_def)
next
  case (Cons x xs)
  then obtain y ys' where ys: "ys = y # ys'" by (cases ys) (auto simp: hex_byte_def)
  have "length (hex_byte x) = length (hex_byte y)" by (simp add: hex_byte_def)
  with Cons.prems ys have "hex_byte x = hex_byte y" "concat (map hex_byte xs) = concat (map hex_byte ys')"
    by simp_all
  with Cons.IH hex_byte_inj ys show ?case by blast
qed

lemma split_at_bar:
  assumes "CHR ''|'' \<notin> set a" "CHR ''|'' \<notin> set b" and "a @ CHR ''|'' # x = b @ CHR ''|'' # y"
  shows "a = b \<and> x = y"
  using assms
proof (induction a arbitrary: b)
  case Nil
  then show ?case by (cases b) auto
next
  case (Cons c a)
  then show ?case by (cases b) auto
qed

section \<open>The right signature\<close>

text \<open>
  What the channel signs, independently of the code that checks it: the lower-case hexadecimal digits
  of the HMAC of the four fields joined by bars.
\<close>

definition hex_digit :: "nat \<Rightarrow> char" where
  "hex_digit n = char_of (if n < 10 then 48 + n else 87 + n)"

definition right_signature :: "env \<Rightarrow> string \<Rightarrow> string \<Rightarrow> string \<Rightarrow> string \<Rightarrow> string \<Rightarrow> string" where
  "right_signature e secret orderNo tradeNo amount timestamp =
     concat (map (\<lambda>b. [hex_digit (of_char b div 16), hex_digit (of_char b mod 16)])
       (hmac_sha256 e secret (concat [orderNo, ''|'', tradeNo, ''|'', amount, ''|'', timestamp])))"

lemma kHex_nth: "n < 16 \<Longrightarrow> kHex ! n = hex_digit n"
proof -
  have "\<forall>n \<in> {0..<16}. kHex ! n = hex_digit n" by code_simp
  then show "n < 16 \<Longrightarrow> ?thesis" by simp
qed

lemma verifyMockSign_right:
  "verifyMockSign e secret orderNo tradeNo amount ts sign \<longleftrightarrow> sign = right_signature e secret orderNo tradeNo amount ts"
proof -
  have "hex_byte = (\<lambda>b. [hex_digit (of_char b div 16), hex_digit (of_char b mod 16)])"
    by (rule ext) (simp add: hex_byte_def kHex_nth less_mult_imp_div_less)
  then show ?thesis by (simp add: verifyMockSign_iff hmacSha256Hex_def right_signature_def mockCanonical_def)
qed

section \<open>Properties\<close>

text \<open>
  A valid signature binds the callback. Two callbacks that verify under the same secret with the
  same signature carry the same order, trade number, amount and timestamp, provided the digest does
  not collide on their canonical texts and no field before the timestamp contains the separator.
\<close>

theorem mock_sign_binds:
  assumes "verifyMockSign e secret o1 t1 a1 s1 sign" and "verifyMockSign e secret o2 t2 a2 s2 sign"
    and "hmac_sha256 e secret (mockCanonical o1 t1 a1 s1) = hmac_sha256 e secret (mockCanonical o2 t2 a2 s2) \<Longrightarrow>
         mockCanonical o1 t1 a1 s1 = mockCanonical o2 t2 a2 s2"
    and "CHR ''|'' \<notin> set o1 \<union> set t1 \<union> set a1" and "CHR ''|'' \<notin> set o2 \<union> set t2 \<union> set a2"
  shows "o1 = o2 \<and> t1 = t2 \<and> a1 = a2 \<and> s1 = s2"
proof -
  have "hmac_sha256 e secret (mockCanonical o1 t1 a1 s1) = hmac_sha256 e secret (mockCanonical o2 t2 a2 s2)"
    by (rule hex_bytes_inj) (use assms(1,2) in \<open>simp add: verifyMockSign_iff hmacSha256Hex_def\<close>)
  from assms(3) [OF this] have c: "mockCanonical o1 t1 a1 s1 = mockCanonical o2 t2 a2 s2" .
  from assms(4,5) have bars: "CHR ''|'' \<notin> set o1" "CHR ''|'' \<notin> set o2" "CHR ''|'' \<notin> set t1" "CHR ''|'' \<notin> set t2"
    "CHR ''|'' \<notin> set a1" "CHR ''|'' \<notin> set a2" by simp_all
  from split_at_bar [OF bars(1,2) c [unfolded mockCanonical_def append_Cons append_Nil]] have "o1 = o2"
    and 2: "t1 @ CHR ''|'' # a1 @ CHR ''|'' # s1 = t2 @ CHR ''|'' # a2 @ CHR ''|'' # s2" by blast+
  from split_at_bar [OF bars(3,4) 2] have "t1 = t2" and 3: "a1 @ CHR ''|'' # s1 = a2 @ CHR ''|'' # s2" by blast+
  from split_at_bar [OF bars(5,6) 3] have "a1 = a2" "s1 = s2" by blast+
  with \<open>o1 = o2\<close> \<open>t1 = t2\<close> show ?thesis by simp
qed

theorem mock_sign_binds_witness:
  "\<exists>sign. verifyMockSign demo_env ''k'' ''1'' ''T'' ''5.00'' ''0'' sign \<and>
     (''1'', ''T'', ''5.00'', ''0'') = (''1'', ''T'', ''5.00'', ''0'')"
proof -
  let ?sign = "hmacSha256Hex demo_env ''k'' (mockCanonical ''1'' ''T'' ''5.00'' ''0'')"
  have v: "verifyMockSign demo_env ''k'' ''1'' ''T'' ''5.00'' ''0'' ?sign" by (simp add: verifyMockSign_iff)
  from mock_sign_binds [OF v v] v show ?thesis by auto
qed

text \<open>With the separator inside a field two different callbacks have the same canonical text.\<close>

lemma mockCanonical_ambiguous:
  "mockCanonical ''1'' ''2|3'' ''5.00'' ''0'' = mockCanonical ''1|2'' ''3'' ''5.00'' ''0''"
  by (simp add: mockCanonical_def)

end
