(* ===== verification/ProductDao.thy ===== *)
theory ProductDao
  imports DaoContracts Fixture
begin

text \<open>
  \<^verbatim>\<open>src/dao/ProductDao.cc\<close>: the conditional decrement of the stock and the lookup by primary key. The
  decrement is interpreted as a \<open>conditional_store\<close>, which is what makes overselling impossible.
\<close>

text \<open>\<^verbatim>\<open>UPDATE t_product SET stock = stock - ?, version = version + 1 WHERE id = ? AND stock >= ? AND status = 1\<close>\<close>

definition product_dec :: "uint64 \<Rightarrow> int64 \<Rightarrow> db \<Rightarrow> db \<times> nat" where
  "product_dec productId quantity d =
     (case update_where
             (\<lambda>r. tp_id r = sint productId \<and> quantity \<le> tp_stock r \<and> tp_status r = 1)
             (\<lambda>r. r\<lparr>tp_stock := tp_stock r - quantity, tp_version := tp_version r + 1\<rparr>)
             (t_product d)
      of (rows, affected) \<Rightarrow> (d\<lparr>t_product := rows\<rparr>, affected))"

definition sql_deductStock :: "uint64 \<Rightarrow> int64 \<Rightarrow> nat stmt" where
  "sql_deductStock productId quantity n d = Some (product_dec productId quantity d)"

definition ProductDao_deductStock :: "env \<Rightarrow> uint64 \<Rightarrow> int64 \<Rightarrow> nat act" where
  "ProductDao_deductStock e productId quantity = execSqlSync_tx e (sql_deductStock productId quantity)"

text \<open>\<^verbatim>\<open>SELECT ... FROM t_product WHERE id = ?\<close>, the price read in fen.\<close>

definition product_of_row :: "product_row \<Rightarrow> Product" where
  "product_of_row r =
     \<lparr>prd_id = word_of_int (tp_id r), prd_productNo = tp_product_no r, prd_name = tp_name r,
      prd_priceFen = tp_price r, prd_stock = tp_stock r, prd_status = tp_status r\<rparr>"

definition product_row_of :: "uint64 \<Rightarrow> db \<Rightarrow> product_row option" where
  "product_row_of productId d = first_where (\<lambda>r. tp_id r = sint productId) (t_product d)"

definition ProductDao_getById :: "env \<Rightarrow> uint64 \<Rightarrow> Product option act" where
  "ProductDao_getById e productId =
     execSqlSync_tx e (query (\<lambda>d. map_option product_of_row (product_row_of productId d)))"

declare product_dec_def [eval_simps] sql_deductStock_def [eval_simps] ProductDao_deductStock_def [eval_simps]
  product_of_row_def [eval_simps] product_row_of_def [eval_simps] ProductDao_getById_def [eval_simps]

section \<open>The stock as a conditional store\<close>

text \<open>The stock that can be sold: that of an existing product on sale.\<close>

definition on_sale_stock :: "uint64 \<Rightarrow> db \<Rightarrow> int option" where
  "on_sale_stock productId d =
     (case product_row_of productId d of None \<Rightarrow> None
      | Some r \<Rightarrow> if tp_status r = 1 then Some (tp_stock r) else None)"

text \<open>What a decrement does to the tables, written without the row loop.\<close>

definition sell :: "uint64 \<Rightarrow> int \<Rightarrow> db \<Rightarrow> db" where
  "sell productId q d =
     d\<lparr>t_product := map (\<lambda>r. if tp_id r = sint productId
         then r\<lparr>tp_stock := tp_stock r - q, tp_version := tp_version r + 1\<rparr> else r) (t_product d)\<rparr>"

lemma product_dec_eq:
  assumes "product_ok (t_product d)"
  shows "product_dec productId q d =
    (case on_sale_stock productId d of
       None \<Rightarrow> (d, 0) | Some s \<Rightarrow> if q \<le> s then (sell productId q d, 1) else (d, 0))"
  using assms
  by (simp add: product_dec_def product_ok_def on_sale_stock_def product_row_of_def sell_def
      update_where_keyed [of tp_id _ _ "sint productId" "\<lambda>r. q \<le> tp_stock r \<and> tp_status r = 1"]
      split: option.split)

lemma product_row_of_sell:
  "product_row_of pid (sell productId q d) =
     map_option (\<lambda>r. if pid = productId then r\<lparr>tp_stock := tp_stock r - q, tp_version := tp_version r + 1\<rparr> else r)
       (product_row_of pid d)"
  by (simp add: product_row_of_def sell_def first_where_map_keyed sint_eq_iff)

lemma on_sale_stock_sell:
  "on_sale_stock pid (sell productId q d) =
     map_option (\<lambda>s. if pid = productId then s - q else s) (on_sale_stock pid d)"
  by (cases "product_row_of pid d") (auto simp: on_sale_stock_def product_row_of_sell)

lemma product_ok_sell:
  assumes "product_ok (t_product d)" and "\<And>s. product_row_of productId d = Some s \<Longrightarrow> q \<le> tp_stock s"
  shows "product_ok (t_product (sell productId q d))"
proof -
  have "q \<le> tp_stock r" if "r \<in> set (t_product d)" "tp_id r = sint productId" for r
    using first_where_unique [of tp_id, OF _ that] assms by (simp add: product_row_of_def product_ok_def)
  moreover have "map tp_id (t_product (sell productId q d)) = map tp_id (t_product d)"
    by (simp add: sell_def)
  moreover have "list_all (\<lambda>r. 0 \<le> tp_stock r) (t_product (sell productId q d))"
    using assms(1) calculation(1) by (auto simp: product_ok_def sell_def list_all_iff)
  ultimately show ?thesis using assms(1) by (simp add: product_ok_def)
qed

text \<open>The statement discharges the contract of a conditional store on every product.\<close>

interpretation stock: conditional_store "product_dec productId" "on_sale_stock productId"
    "\<lambda>d. product_ok (t_product d)" "\<lambda>_. True"
  for productId
proof (unfold_locales, goal_cases)
  case (1 d q s)
  then have "product_dec productId q d = (sell productId q d, 1)" by (simp add: product_dec_eq)
  moreover from 1 have "product_ok (t_product (sell productId q d))"
    by (intro product_ok_sell) (auto simp: on_sale_stock_def split: if_splits)
  ultimately show ?case using 1 by (simp add: on_sale_stock_sell)
next
  case (2 d q)
  then show ?case by (auto simp: product_dec_eq split: option.splits)
qed

lemma schema_ok_deductStock [preserves_intro]: "stmt_keeps (schema_ok e) (sql_deductStock productId q)"
proof (rule stmt_keepsI)
  fix n d d' x
  assume ok: "schema_ok e d" and st: "sql_deductStock productId q n d = Some (d', x)"
  from st have dec: "product_dec productId q d = (d', x)" by (simp add: sql_deductStock_def)
  from ok have "product_ok (t_product d)" by (simp add: schema_ok_def)
  from this TrueI dec show "schema_ok e d'"
  proof (cases rule: stock.dec_cases)
    case (hit s)
    from dec hit(1) have "d' = sell productId q d"
      using \<open>product_ok (t_product d)\<close> by (auto simp: product_dec_eq split: option.splits if_splits)
    with hit(5) ok show ?thesis by (simp add: schema_ok_def sell_def)
  qed (use ok in simp)
qed

section \<open>Runs\<close>

lemma ProductDao_getById_eq [eff_simps]:
  "ProductDao_getById e pid w = Some (Inr x, w') \<longleftrightarrow>
     \<not> sql_fault e (w_sql w) \<and> x = map_option product_of_row (product_row_of pid (w_tx w)) \<and>
     w' = w\<lparr>w_sql := Suc (w_sql w)\<rparr>"
  by (auto simp: ProductDao_getById_def query_def eff_simps)

lemma ProductDao_deductStock_eq [eff_simps]:
  "ProductDao_deductStock e pid q w = Some (Inr k, w') \<longleftrightarrow>
     \<not> sql_fault e (w_sql w) \<and> (\<exists>d. product_dec pid q (w_tx w) = (d, k) \<and>
     w' = w\<lparr>w_tx := d, w_sql := Suc (w_sql w)\<rparr>)"
  by (auto simp: ProductDao_deductStock_def sql_deductStock_def eff_simps)

lemma product_of_row_simps [simp]:
  "prd_status (product_of_row r) = tp_status r" "prd_priceFen (product_of_row r) = tp_price r"
  by (simp_all add: product_of_row_def)

lemma getById_run:
  "healthy_from e n \<Longrightarrow> n \<le> w_sql w \<Longrightarrow>
   ProductDao_getById e pid w = Some (Inr (map_option product_of_row (product_row_of pid (w_tx w))), w\<lparr>w_sql := Suc (w_sql w)\<rparr>)"
  by (simp add: ProductDao_getById_def execSqlSync_tx_def query_def healthy_fromD)

lemma deductStock_run:
  "healthy_from e n \<Longrightarrow> n \<le> w_sql w \<Longrightarrow>
   ProductDao_deductStock e pid q w = Some (Inr (snd (product_dec pid q (w_tx w))),
     w\<lparr>w_tx := fst (product_dec pid q (w_tx w)), w_sql := Suc (w_sql w)\<rparr>)"
  by (simp add: ProductDao_deductStock_def execSqlSync_tx_def sql_deductStock_def healthy_fromD split: prod.split)

section \<open>Properties\<close>

text \<open>
  no oversell at the level of the statement. Whatever quantities are asked for, in whatever
  order the server executes the conditional UPDATEs of \<open>deductStock\<close> on one product, the stock plus
  the accepted quantities is the initial stock, and the accepted quantities never exceed it; of
  \<open>n\<close> requests for one unit exactly \<open>min n stock\<close> are accepted.
\<close>

theorem deductStock_no_oversell:
  assumes "product_ok (t_product d)" and "on_sale_stock productId d = Some s" and "0 \<le> s"
    and "\<forall>q \<in> set qs. 0 \<le> q"
  shows "on_sale_stock productId (fst (run_decs (product_dec productId) qs d)) =
           Some (s - sum_list (snd (run_decs (product_dec productId) qs d))) \<and>
         sum_list (snd (run_decs (product_dec productId) qs d)) \<le> s \<and>
         length (snd (run_decs (product_dec productId) (replicate n 1) d)) = min n (nat s)"
  using stock.conservation [OF assms(1,2) prod.collapse [symmetric]]
    stock.never_oversold [OF assms(1-3) prod.collapse [symmetric] assms(4)]
    stock.unit_requests [OF assms(1-3), OF prod.collapse [symmetric]] by simp

theorem deductStock_no_oversell_witness:
  "on_sale_stock 1 (fst (run_decs (product_dec 1) [1, 3, 1, 1] demo_db)) = Some 0 \<and>
   snd (run_decs (product_dec 1) [1, 3, 1, 1] demo_db) = [1, 1] \<and>
   length (snd (run_decs (product_dec 1) (replicate 5 1) demo_db)) = 2"
proof -
  have "product_ok (t_product demo_db)" "on_sale_stock 1 demo_db = Some 2"
    by (simp_all add: demo_db_def on_sale_stock_def product_ok_def product_row_of_def first_where_def)
  moreover have "snd (run_decs (product_dec 1) [1, 3, 1, 1] demo_db) = [1, 1]"
    by (simp add: demo_db_def eval_simps)
  ultimately show ?thesis using deductStock_no_oversell [of demo_db 1 2 "[1, 3, 1, 1]" 5] by simp
qed

end
