(* ===== verification/OrderDao.thy ===== *)
theory OrderDao
  imports DaoContracts
begin

text \<open>
  \<^verbatim>\<open>src/dao/OrderDao.cc\<close>: inserting an order, reading it back and the conditional transition from
  pending to paid, which is interpreted as a \<open>one_shot\<close> transition of the order's row.
\<close>

section \<open>Statements\<close>

definition order_row_of :: "env \<Rightarrow> string \<Rightarrow> db \<Rightarrow> order_row option" where
  "order_row_of e orderNo d = first_where (\<lambda>r. sql_eq e (to_order_no r) orderNo) (t_order d)"

definition order_row_for :: "env \<Rightarrow> Order \<Rightarrow> int \<Rightarrow> order_row" where
  "order_row_for e order expire =
     \<lparr>to_order_no = ord_orderNo order, to_request_id = ord_requestId order,
      to_user_id = sint (ord_userId order), to_product_id = sint (ord_productId order),
      to_quantity = ord_quantity order,
      to_unit_price = castDecimal e (fenToYuanString (ord_unitPriceFen order)),
      to_total_amount = castDecimal e (fenToYuanString (ord_totalAmountFen order)),
      to_status = (if ord_status order = OrderStatus_kPendingPayment then 0 else OrderStatus_int (ord_status order)),
      to_expire_time = expire, to_paid_at = None\<rparr>"

text \<open>
  The INSERT is refused when the expiry is no DATETIME, an unsigned column would be negative, a
  CHECK constraint fails, or the order number or the request identifier is taken.
\<close>

definition sql_insertOrder :: "env \<Rightarrow> Order \<Rightarrow> unit stmt" where
  "sql_insertOrder e order n d =
     (case dt_parse e (ord_expireTime order) of
        None \<Rightarrow> None
      | Some expire \<Rightarrow>
          let row = order_row_for e order expire in
          if to_user_id row < 0 \<or> to_product_id row < 0 \<or> to_quantity row \<le> 0 \<or> to_total_amount row < 0 then None
          else if list_ex (\<lambda>r. sql_eq e (to_order_no r) (to_order_no row) \<or>
                               sql_eq e (to_request_id r) (to_request_id row)) (t_order d) then None
          else Some (d\<lparr>t_order := t_order d @ [row]\<rparr>, ()))"

definition OrderDao_insert :: "env \<Rightarrow> Order \<Rightarrow> unit act" where
  "OrderDao_insert e order = execSqlSync_tx e (sql_insertOrder e order)"

definition order_of_row :: "env \<Rightarrow> order_row \<Rightarrow> Order" where
  "order_of_row e r =
     \<lparr>ord_orderNo = to_order_no r, ord_requestId = to_request_id r,
      ord_userId = word_of_int (to_user_id r), ord_productId = word_of_int (to_product_id r),
      ord_quantity = to_quantity r, ord_unitPriceFen = to_unit_price r,
      ord_totalAmountFen = to_total_amount r, ord_status = OrderStatus_cast (to_status r),
      ord_expireTime = dt_format e (to_expire_time r),
      ord_paidAt = (case to_paid_at r of None \<Rightarrow> '''' | Some t \<Rightarrow> dt_format e t)\<rparr>"

definition OrderDao_getByOrderNo :: "env \<Rightarrow> string \<Rightarrow> Order option act" where
  "OrderDao_getByOrderNo e orderNo =
     execSqlSync_tx e (query (\<lambda>d. map_option (order_of_row e) (order_row_of e orderNo d)))"

text \<open>\<^verbatim>\<open>UPDATE t_order SET status = 1, paid_at = NOW() WHERE order_no = ? AND status = 0\<close>\<close>

definition order_markPaid :: "env \<Rightarrow> string \<Rightarrow> nat \<Rightarrow> db \<Rightarrow> db \<times> nat" where
  "order_markPaid e orderNo n d =
     (case update_where (\<lambda>r. sql_eq e (to_order_no r) orderNo \<and> to_status r = 0)
             (\<lambda>r. r\<lparr>to_status := 1, to_paid_at := Some (db_now e n)\<rparr>) (t_order d)
      of (rows, affected) \<Rightarrow> (d\<lparr>t_order := rows\<rparr>, affected))"

definition sql_markPaid :: "env \<Rightarrow> string \<Rightarrow> nat stmt" where
  "sql_markPaid e orderNo n d = Some (order_markPaid e orderNo n d)"

definition OrderDao_markPaid :: "env \<Rightarrow> string \<Rightarrow> nat act" where
  "OrderDao_markPaid e orderNo = execSqlSync_tx e (sql_markPaid e orderNo)"

declare order_row_of_def [eval_simps] order_row_for_def [eval_simps] sql_insertOrder_def [eval_simps]
  OrderDao_insert_def [eval_simps] order_of_row_def [eval_simps] OrderDao_getByOrderNo_def [eval_simps]
  order_markPaid_def [eval_simps] sql_markPaid_def [eval_simps] OrderDao_markPaid_def [eval_simps]

section \<open>Lemmas\<close>

lemma order_row_of_SomeD:
  "order_row_of e orderNo d = Some r \<Longrightarrow> r \<in> set (t_order d) \<and> ckey e (to_order_no r) = ckey e orderNo"
  by (auto simp: order_row_of_def sql_eq_def dest: first_where_Some)

lemma order_row_of_unique:
  assumes "order_ok e (t_order d)" and "r \<in> set (t_order d)" and "ckey e (to_order_no r) = ckey e orderNo"
  shows "order_row_of e orderNo d = Some r"
  using assms first_where_unique [of "\<lambda>r. ckey e (to_order_no r)" "t_order d" r "ckey e orderNo"]
  by (simp add: order_row_of_def sql_eq_def order_ok_def)

lemma sql_insertOrder_eq:
  "sql_insertOrder e order n d = Some (d', u) \<longleftrightarrow>
     (\<exists>expire row. dt_parse e (ord_expireTime order) = Some expire \<and> row = order_row_for e order expire \<and>
        0 \<le> to_user_id row \<and> 0 \<le> to_product_id row \<and> 0 < to_quantity row \<and> 0 \<le> to_total_amount row \<and>
        (\<forall>r \<in> set (t_order d). ckey e (to_order_no r) \<noteq> ckey e (to_order_no row) \<and>
           ckey e (to_request_id r) \<noteq> ckey e (to_request_id row)) \<and>
        d' = d\<lparr>t_order := t_order d @ [row]\<rparr>)"
  by (auto simp: sql_insertOrder_def Let_def list_ex_iff sql_eq_def not_less not_le split: option.splits)

lemma schema_ok_insertOrder [preserves_intro]: "stmt_keeps (schema_ok e) (sql_insertOrder e order)"
proof (rule stmt_keepsI)
  fix n d d' x
  assume ok: "schema_ok e d" and "sql_insertOrder e order n d = Some (d', x)"
  then obtain row where d': "d' = d\<lparr>t_order := t_order d @ [row]\<rparr>" and
    row: "0 < to_quantity row" "0 \<le> to_total_amount row" and
    new: "\<forall>r \<in> set (t_order d). ckey e (to_order_no r) \<noteq> ckey e (to_order_no row) \<and>
           ckey e (to_request_id r) \<noteq> ckey e (to_request_id row)"
    by (auto simp: sql_insertOrder_eq)
  from ok row new have "order_ok e (t_order d @ [row])" by (auto simp: schema_ok_def order_ok_def)
  with ok d' show "schema_ok e d'" by (simp add: schema_ok_def)
qed

text \<open>The transition to paid, written without the row loop.\<close>

definition pay_order :: "env \<Rightarrow> string \<Rightarrow> nat \<Rightarrow> db \<Rightarrow> db" where
  "pay_order e orderNo n d =
     d\<lparr>t_order := map (\<lambda>r. if ckey e (to_order_no r) = ckey e orderNo
         then r\<lparr>to_status := 1, to_paid_at := Some (db_now e n)\<rparr> else r) (t_order d)\<rparr>"

definition order_pending :: "env \<Rightarrow> string \<Rightarrow> db \<Rightarrow> bool" where
  "order_pending e orderNo d = (case order_row_of e orderNo d of None \<Rightarrow> False | Some r \<Rightarrow> to_status r = 0)"

lemma order_markPaid_eq:
  assumes "order_ok e (t_order d)"
  shows "order_markPaid e orderNo n d =
    (if order_pending e orderNo d then (pay_order e orderNo n d, 1) else (d, 0))"
  using assms
  by (simp add: order_markPaid_def order_ok_def order_pending_def order_row_of_def pay_order_def sql_eq_def
      update_where_keyed [of "\<lambda>r. ckey e (to_order_no r)" _ _ "ckey e orderNo" "\<lambda>r. to_status r = 0"]
      split: option.split)

lemma order_row_of_pay_order:
  "order_row_of e no (pay_order e orderNo n d) =
     map_option (\<lambda>r. if ckey e no = ckey e orderNo then r\<lparr>to_status := 1, to_paid_at := Some (db_now e n)\<rparr> else r)
       (order_row_of e no d)"
  by (simp add: order_row_of_def pay_order_def sql_eq_def first_where_map_keyed)

lemma order_ok_pay_order:
  assumes "order_ok e (t_order d)"
  shows "order_ok e (t_order (pay_order e orderNo n d))"
  using assms
  by (auto simp: order_ok_def pay_order_def map_key_if list_all_iff simp del: map_map)

interpretation payment_transition: one_shot "order_markPaid e orderNo n" "order_pending e orderNo"
    "\<lambda>d. order_ok e (t_order d)"
  for e orderNo n
proof (unfold_locales, goal_cases)
  case (1 d)
  then show ?case
    by (auto simp: order_markPaid_eq order_ok_pay_order order_pending_def order_row_of_pay_order split: option.splits)
next
  case (2 d)
  then show ?case by (simp add: order_markPaid_eq)
qed

lemma schema_ok_markPaid [preserves_intro]: "stmt_keeps (schema_ok e) (sql_markPaid e orderNo)"
proof (rule stmt_keepsI)
  fix n d d' x
  assume ok: "schema_ok e d" and st: "sql_markPaid e orderNo n d = Some (d', x)"
  then have "order_ok e (t_order d)" by (simp add: schema_ok_def)
  with st have "d' = d \<or> d' = pay_order e orderNo n d"
    by (auto simp: sql_markPaid_def order_markPaid_eq split: if_splits)
  with ok order_ok_pay_order [OF \<open>order_ok e (t_order d)\<close>] show "schema_ok e d'"
    by (auto simp: schema_ok_def pay_order_def)
qed

end
