(* ===== verification/IdempotentDao.thy ===== *)
theory IdempotentDao
  imports DaoContracts
begin

text \<open>
  \<^verbatim>\<open>src/dao/IdempotentDao.h\<close>, \<^verbatim>\<open>src/dao/IdempotentDao.cc\<close>: acquiring a request identifier by a
  deduplicated INSERT and storing the response snapshot. The INSERT is interpreted as a
  \<open>dedup_store\<close>.
\<close>

section \<open>Statements\<close>

datatype IdempotentKind = kAcquired | kProcessing | kCachedSuccess

record IdempotentOutcome =
  io_kind :: IdempotentKind
  io_cachedResponseBody :: string

definition idem_row_of :: "env \<Rightarrow> string \<Rightarrow> db \<Rightarrow> idempotent_row option" where
  "idem_row_of e requestId d = first_where (\<lambda>r. sql_eq e (ti_request_id r) requestId) (t_idempotent d)"

definition idem_row_for :: "Idempotent \<Rightarrow> int \<Rightarrow> idempotent_row" where
  "idem_row_for rec expire =
     \<lparr>ti_request_id = idm_requestId rec, ti_user_id = sint (idm_userId rec), ti_api_path = idm_apiPath rec,
      ti_request_hash = idm_requestHash rec, ti_response_body = None, ti_status = 0, ti_expire_time = expire\<rparr>"

text \<open>The INSERT with its \<^verbatim>\<open>ON DUPLICATE KEY UPDATE request_id = request_id\<close>: 1 row, or 0 on a conflict.\<close>

definition idem_ins :: "env \<Rightarrow> idempotent_row \<Rightarrow> db \<Rightarrow> db \<times> nat" where
  "idem_ins e row d =
     (if list_ex (\<lambda>r. sql_eq e (ti_request_id r) (ti_request_id row)) (t_idempotent d) then (d, 0)
      else (d\<lparr>t_idempotent := t_idempotent d @ [row]\<rparr>, 1))"

definition sql_acquire :: "env \<Rightarrow> Idempotent \<Rightarrow> nat stmt" where
  "sql_acquire e rec n d =
     (case dt_parse e (idm_expireTime rec) of
        None \<Rightarrow> None
      | Some expire \<Rightarrow>
          if sint (idm_userId rec) < 0 then None else Some (idem_ins e (idem_row_for rec expire) d))"

definition IdempotentDao_tryAcquire :: "env \<Rightarrow> Idempotent \<Rightarrow> IdempotentOutcome act" where
  "IdempotentDao_tryAcquire e rec =
     bnd (execSqlSync_tx e (sql_acquire e rec)) (\<lambda>affected.
       if affected = 1 then ret \<lparr>io_kind = kAcquired, io_cachedResponseBody = ''''\<rparr>
       else
         bnd (execSqlSync_tx e (query (idem_row_of e (idm_requestId rec)))) (\<lambda>found.
           case found of
             None \<Rightarrow> ret \<lparr>io_kind = kProcessing, io_cachedResponseBody = ''''\<rparr>
           | Some row \<Rightarrow>
               if ti_status row = 1
               then ret \<lparr>io_kind = kCachedSuccess,
                         io_cachedResponseBody = (case ti_response_body row of None \<Rightarrow> '''' | Some b \<Rightarrow> b)\<rparr>
               else ret \<lparr>io_kind = kProcessing, io_cachedResponseBody = ''''\<rparr>))"

text \<open>\<^verbatim>\<open>UPDATE t_idempotent SET status = 1, response_body = ? WHERE request_id = ? AND status = 0\<close>\<close>

definition idem_markSuccess :: "env \<Rightarrow> string \<Rightarrow> string \<Rightarrow> db \<Rightarrow> db" where
  "idem_markSuccess e requestId responseBody d =
     d\<lparr>t_idempotent := fst (update_where (\<lambda>r. sql_eq e (ti_request_id r) requestId \<and> ti_status r = 0)
         (\<lambda>r. r\<lparr>ti_status := 1, ti_response_body := Some responseBody\<rparr>) (t_idempotent d))\<rparr>"

definition sql_markSuccess :: "env \<Rightarrow> string \<Rightarrow> string \<Rightarrow> unit stmt" where
  "sql_markSuccess e requestId responseBody n d = Some (idem_markSuccess e requestId responseBody d, ())"

definition IdempotentDao_markSuccess :: "env \<Rightarrow> string \<Rightarrow> string \<Rightarrow> unit act" where
  "IdempotentDao_markSuccess e requestId responseBody =
     execSqlSync_tx e (sql_markSuccess e requestId responseBody)"

declare idem_row_of_def [eval_simps] idem_row_for_def [eval_simps] idem_ins_def [eval_simps]
  sql_acquire_def [eval_simps] IdempotentDao_tryAcquire_def [eval_simps] idem_markSuccess_def [eval_simps]
  sql_markSuccess_def [eval_simps] IdempotentDao_markSuccess_def [eval_simps]

section \<open>Lemmas\<close>

lemma idem_row_of_SomeD:
  "idem_row_of e k d = Some r \<Longrightarrow> r \<in> set (t_idempotent d) \<and> ckey e (ti_request_id r) = ckey e k"
  by (auto simp: idem_row_of_def sql_eq_def dest: first_where_Some)

definition idem_lookup :: "env \<Rightarrow> string \<Rightarrow> db \<Rightarrow> idempotent_row option" where
  "idem_lookup e key d = first_where (\<lambda>r. ckey e (ti_request_id r) = key) (t_idempotent d)"

lemma idem_row_of_lookup: "idem_row_of e requestId d = idem_lookup e (ckey e requestId) d"
  by (simp add: idem_row_of_def idem_lookup_def sql_eq_def)

lemma idem_ins_eq:
  "idem_ins e row d =
     (if idem_lookup e (ckey e (ti_request_id row)) d = None
      then (d\<lparr>t_idempotent := t_idempotent d @ [row]\<rparr>, 1) else (d, 0))"
  by (auto simp: idem_ins_def idem_lookup_def first_where_None list_ex_iff sql_eq_def)

interpretation idempotent_keys: dedup_store "idem_ins e" "idem_lookup e" "\<lambda>r. ckey e (ti_request_id r)"
  for e
  by unfold_locales
    (auto simp: idem_ins_eq idem_lookup_def first_where_append first_where_single split: option.splits if_splits)

lemma schema_ok_acquire [preserves_intro]: "stmt_keeps (schema_ok e) (sql_acquire e rec)"
proof (rule stmt_keepsI)
  fix n d d' x
  assume "schema_ok e d" and "sql_acquire e rec n d = Some (d', x)"
  then show "schema_ok e d'"
    by (auto simp: sql_acquire_def idem_ins_def list_ex_iff schema_ok_def idempotent_ok_def sql_eq_def
        split: option.splits if_splits; blast)
qed

lemma schema_ok_markSuccess [preserves_intro]: "stmt_keeps (schema_ok e) (sql_markSuccess e requestId body)"
  by (rule stmt_keepsI)
     (auto simp: sql_markSuccess_def idem_markSuccess_def schema_ok_def idempotent_ok_def map_update_where)

section \<open>Runs\<close>

lemma tryAcquire_kAcquired:
  "IdempotentDao_tryAcquire e rec w = Some (Inr a, w') \<Longrightarrow> io_kind a = kAcquired \<Longrightarrow>
   \<exists>expire. idem_lookup e (ckey e (idm_requestId rec)) (w_tx w) = None \<and> 
     w' = w\<lparr>w_tx := (w_tx w)\<lparr>t_idempotent := t_idempotent (w_tx w) @ [idem_row_for rec expire]\<rparr>, w_sql := Suc (w_sql w)\<rparr>"
  by (auto simp: IdempotentDao_tryAcquire_def eff_simps sql_acquire_def idem_ins_eq idem_row_for_def 
     split: option.splits if_splits)

lemma idem_markSuccess_new:
  assumes "idem_lookup e (ckey e requestId) d = None" "ti_request_id row = requestId" "ti_status row = 0"
  shows "idem_markSuccess e requestId body (d\<lparr>t_idempotent := t_idempotent d @ [row]\<rparr>) =
     d\<lparr>t_idempotent := t_idempotent d @ [row\<lparr>ti_status := 1, ti_response_body := Some body\<rparr>]\<rparr>"
proof -
  have "map (\<lambda>r. if ckey e (ti_request_id r) = ckey e requestId \<and> ti_status r = 0 then f r else r) (t_idempotent d) = t_idempotent d" for f
    using assms(1) by (auto simp: idem_lookup_def first_where_None intro!: map_idI)
  with assms(2,3) show ?thesis by (simp add: idem_markSuccess_def update_where_def sql_eq_def)
qed

lemma tryAcquire_known:
  assumes "healthy_from e (w_sql w)" and "idem_row_of e (idm_requestId rec) (w_tx w) = Some row"
    and "dt_parse e (idm_expireTime rec) \<noteq> None" and "0 \<le> sint (idm_userId rec)"
  shows "IdempotentDao_tryAcquire e rec w = Some (Inr
     (if ti_status row = 1
      then \<lparr>io_kind = kCachedSuccess, io_cachedResponseBody = (case ti_response_body row of None \<Rightarrow> '''' | Some b \<Rightarrow> b)\<rparr>
      else \<lparr>io_kind = kProcessing, io_cachedResponseBody = ''''\<rparr>), w\<lparr>w_sql := Suc (Suc (w_sql w))\<rparr>)"
  using assms
  by (auto simp: healthy_fromD [OF assms(1)] IdempotentDao_tryAcquire_def bnd_def execSqlSync_tx_def sql_acquire_def idem_ins_eq idem_row_of_lookup
     query_def idem_row_for_def ret_def)

lemma tryAcquire_fresh:
  assumes "healthy_from e (w_sql w)" and "idem_row_of e (idm_requestId rec) (w_tx w) = None"
    and "dt_parse e (idm_expireTime rec) = Some expire" and "0 \<le> sint (idm_userId rec)"
  shows "IdempotentDao_tryAcquire e rec w = Some (Inr \<lparr>io_kind = kAcquired, io_cachedResponseBody = ''''\<rparr>,
     w\<lparr>w_tx := (w_tx w)\<lparr>t_idempotent := t_idempotent (w_tx w) @ [idem_row_for rec expire]\<rparr>, w_sql := Suc (w_sql w)\<rparr>)"
  using assms
  by (auto simp: healthy_fromD [OF assms(1)] IdempotentDao_tryAcquire_def bnd_def execSqlSync_tx_def sql_acquire_def idem_ins_eq idem_row_of_lookup
     query_def idem_row_for_def ret_def)

section \<open>A stored snapshot is never changed\<close>

lemma keeps_idem_row_acquire [preserves_intro]:
  "stmt_keeps (\<lambda>d. idem_lookup e k d = Some row) (sql_acquire e rec)"
proof (rule stmt_keepsI)
  fix n d d' x
  assume "idem_lookup e k d = Some row" and "sql_acquire e rec n d = Some (d', x)"
  then show "idem_lookup e k d' = Some row"
    using idempotent_keys.lookup_ins [of e k d row]
    by (auto simp: sql_acquire_def split: option.splits if_splits) (metis fst_conv)
qed

lemma keeps_idem_row_markSuccess [preserves_intro]:
  assumes "ti_status row = 1"
  shows "stmt_keeps (\<lambda>d. idem_lookup e k d = Some row) (sql_markSuccess e rid body)"
  by (rule stmt_keepsI)
     (use assms in \<open>auto simp: sql_markSuccess_def idem_markSuccess_def idem_lookup_def update_where_def first_where_map_if\<close>)

end
