(* ===== verification/OrderService.thy ===== *)
theory OrderService
  imports ProductDao OrderDao IdempotentDao
begin

text \<open>
  \<^verbatim>\<open>src/services/OrderService.h\<close>, \<^verbatim>\<open>src/services/OrderService.cc\<close>: \<open>createOrder\<close>, one transaction
  that acquires the request identifier, checks the product, lowers the stock, inserts the order and
  stores the response snapshot. Logging is left out.
\<close>

section \<open>The service\<close>

datatype CreateOrderKind = kExecuted | kCached

record CreateOrderOutcome =
  coo_kind :: CreateOrderKind
  coo_result :: "Order Result"
  coo_cachedBody :: string

definition kCreateOrderApiPath :: string where "kCreateOrderApiPath = ''/api/v1/orders''"
definition kMaxQuantity :: int64 where "kMaxQuantity = 999"
definition kOrderExpireMinutes :: int where "kOrderExpireMinutes = 30"
definition kIdempotentExpireMinutes :: int where "kIdempotentExpireMinutes = 24 * 60"

text \<open>A default-constructed outcome with its result replaced.\<close>

definition executed :: "Order Result \<Rightarrow> CreateOrderOutcome" where
  "executed r = \<lparr>coo_kind = kExecuted, coo_result = r, coo_cachedBody = ''''\<rparr>"

definition cached :: "string \<Rightarrow> CreateOrderOutcome" where
  "cached body =
     \<lparr>coo_kind = kCached,
      coo_result = \<lparr>res_code = ErrCode_value kSuccess, res_message = '''', res_data = None, res_requestId = ''''\<rparr>,
      coo_cachedBody = body\<rparr>"

definition buildIdempotentRecord :: "env \<Rightarrow> CreateOrderReq \<Rightarrow> Idempotent act" where
  "buildIdempotentRecord e req =
     bnd (now_ns e) (\<lambda>t.
       ret \<lparr>idm_requestId = cor_requestId req, idm_userId = cor_userId req, idm_apiPath = kCreateOrderApiPath,
            idm_requestHash = cor_requestHash req, idm_expireTime = dbTimeAfter t kIdempotentExpireMinutes\<rparr>)"

definition orderOf :: "CreateOrderReq \<Rightarrow> Product \<Rightarrow> string \<Rightarrow> string \<Rightarrow> Order" where
  "orderOf req p orderNo expireTime =
     \<lparr>ord_orderNo = orderNo, ord_requestId = cor_requestId req, ord_userId = cor_userId req,
      ord_productId = cor_productId req, ord_quantity = cor_quantity req,
      ord_unitPriceFen = prd_priceFen p,
      ord_totalAmountFen = wrap64 (prd_priceFen p * cor_quantity req),
      ord_status = OrderStatus_kPendingPayment, ord_expireTime = expireTime, ord_paidAt = ''''\<rparr>"

definition orderSnapshot :: "env \<Rightarrow> Order \<Rightarrow> string \<Rightarrow> string" where
  "orderSnapshot e order requestId = json_compact e (Result_toJson Order_toJson (Result_ok order requestId))"

text \<open>Steps 2 to 6, after the request identifier has been acquired.\<close>

definition createOrder_execute :: "env \<Rightarrow> CreateOrderReq \<Rightarrow> CreateOrderOutcome act" where
  "createOrder_execute e req =
     bnd (ProductDao_getById e (cor_productId req)) (\<lambda>product.
       case product of
         None \<Rightarrow> throw (BizException kProductNotFound msg_product_missing)
       | Some p \<Rightarrow>
           if \<not> Product_onSale p then throw (BizException kProductNotFound msg_product_off_sale)
           else bnd (ProductDao_deductStock e (cor_productId req) (cor_quantity req)) (\<lambda>affected.
             if affected = 0 then throw (BizException kStockNotEnough msg_stock_short)
             else bnd (nextId e) (\<lambda>orderNo.
               bnd (now_ns e) (\<lambda>t.
                 bnd (OrderDao_insert e (orderOf req p orderNo (dbTimeAfter t kOrderExpireMinutes))) (\<lambda>_.
                   bnd (IdempotentDao_markSuccess e (cor_requestId req)
                          (orderSnapshot e (orderOf req p orderNo (dbTimeAfter t kOrderExpireMinutes)) (cor_requestId req))) (\<lambda>_.
                     bnd (TransactionGuard_commit e) (\<lambda>_.
                       ret (executed (Result_ok (orderOf req p orderNo (dbTimeAfter t kOrderExpireMinutes))
                                                (cor_requestId req))))))))))"

text \<open>The scope of the transaction guard.\<close>

definition createOrder_scope :: "env \<Rightarrow> CreateOrderReq \<Rightarrow> CreateOrderOutcome act" where
  "createOrder_scope e req =
     bnd (buildIdempotentRecord e req) (\<lambda>rec.
       bnd (IdempotentDao_tryAcquire e rec) (\<lambda>outcome.
         if io_kind outcome = kCachedSuccess then ret (cached (io_cachedResponseBody outcome))
         else if io_kind outcome = kProcessing
         then ret (executed (Result_fail kDuplicateRequest (toMessage kDuplicateRequest) (cor_requestId req)))
         else createOrder_execute e req))"

text \<open>The three catch clauses.\<close>

definition createOrder_catch :: "CreateOrderReq \<Rightarrow> exn \<Rightarrow> CreateOrderOutcome act" where
  "createOrder_catch req x =
     (case x of
        BizException code what \<Rightarrow> ret (executed (Result_fail code what (cor_requestId req)))
      | DrogonDbException \<Rightarrow> ret (executed (Result_fail kDbError (toMessage kDbError) (cor_requestId req)))
      | StdException \<Rightarrow> ret (executed (Result_fail kInternalError (toMessage kInternalError) (cor_requestId req))))"

definition OrderService_createOrder :: "env \<Rightarrow> CreateOrderReq \<Rightarrow> CreateOrderOutcome act" where
  "OrderService_createOrder e req =
     (if cor_quantity req \<le> 0 \<or> kMaxQuantity < cor_quantity req
      then ret (executed (Result_fail kParamInvalid msg_quantity_range (cor_requestId req)))
      else try_catch (with_guard e (createOrder_scope e req)) (createOrder_catch req))"

lemmas order_service_defs = executed_def cached_def buildIdempotentRecord_def orderOf_def orderSnapshot_def
  createOrder_execute_def createOrder_scope_def createOrder_catch_def OrderService_createOrder_def

declare order_service_defs [eval_simps] kCreateOrderApiPath_def [eval_simps] kMaxQuantity_def [eval_simps]
  kOrderExpireMinutes_def [eval_simps] kIdempotentExpireMinutes_def [eval_simps]

section \<open>Atomicity\<close>

text \<open>The outcome of a request that placed an order.\<close>

definition order_placed :: "CreateOrderOutcome \<Rightarrow> bool" where
  "order_placed o1 \<longleftrightarrow> coo_kind o1 = kExecuted \<and> Result_isOk (coo_result o1)"

lemma coo_result_executed [simp]: "coo_result (executed r) = r"
  by (simp add: executed_def)

lemma order_placed_simps [simp]:
  "order_placed (executed r) \<longleftrightarrow> Result_isOk r" "\<not> order_placed (cached b)"
  by (simp_all add: order_placed_def executed_def cached_def)

lemma tx_uncommitted [preserves_intro]:
  "preserves (uncommitted d) (buildIdempotentRecord e req)"
  "preserves (uncommitted d) (IdempotentDao_tryAcquire e rec)"
  "preserves (uncommitted d) (ProductDao_getById e pid)"
  "preserves (uncommitted d) (ProductDao_deductStock e pid q)"
  "preserves (uncommitted d) (OrderDao_insert e order)"
  "preserves (uncommitted d) (IdempotentDao_markSuccess e rid body)"
  unfolding buildIdempotentRecord_def IdempotentDao_tryAcquire_def ProductDao_getById_def
    ProductDao_deductStock_def OrderDao_insert_def IdempotentDao_markSuccess_def
  by (intro preserves_intro)+

lemma atomic_createOrder_execute [preserves_intro]: "atomic_body d order_placed (createOrder_execute e req)"
  unfolding createOrder_execute_def by (intro preserves_intro) (simp add: Result_isOk_def Result_ok_def)

lemma atomic_createOrder_scope: "atomic_body d order_placed (createOrder_scope e req)"
  unfolding createOrder_scope_def by (intro preserves_intro)

section \<open>The successful run\<close>

lemma createOrder_execute_success:
  assumes "createOrder_execute e req w = Some (Inr o1, w')" and "product_ok (t_product (w_tx w))"
  obtains p order n orderNo t d2 where
    "product_row_of (cor_productId req) (w_tx w) = Some p" "tp_status p = 1" "cor_quantity req \<le> tp_stock p"
    "order = orderOf req (product_of_row p) orderNo (dbTimeAfter t kOrderExpireMinutes)"
    "o1 = executed (Result_ok order (cor_requestId req))"
    "sql_insertOrder e order n (sell (cor_productId req) (cor_quantity req) (w_tx w)) = Some (d2, ())"
    "w_db w' = idem_markSuccess e (cor_requestId req) (orderSnapshot e order (cor_requestId req)) d2"
  using assms
  by (auto simp: createOrder_execute_def eff_simps OrderDao_insert_def IdempotentDao_markSuccess_def sql_markSuccess_def
      product_dec_eq on_sale_stock_def Product_onSale_def split: option.splits if_splits)

text \<open>The database after a successful request, the abstract effect of the transaction.\<close>

definition placed_db :: "env \<Rightarrow> CreateOrderReq \<Rightarrow> Order \<Rightarrow> Idempotent \<Rightarrow> int \<Rightarrow> int \<Rightarrow> db \<Rightarrow> db" where
  "placed_db e req order rec orderExpire keyExpire d =
     d\<lparr>t_product := t_product (sell (cor_productId req) (cor_quantity req) d),
       t_order := t_order d @ [order_row_for e order orderExpire],
       t_idempotent := t_idempotent d @
         [(idem_row_for rec keyExpire)\<lparr>ti_status := 1,
            ti_response_body := Some (orderSnapshot e order (cor_requestId req))\<rparr>]\<rparr>"

lemma buildIdempotentRecord_eq [eff_simps]:
  "buildIdempotentRecord e req w = Some (r, w') \<longleftrightarrow>
     r = Inr \<lparr>idm_requestId = cor_requestId req, idm_userId = cor_userId req, idm_apiPath = kCreateOrderApiPath,
            idm_requestHash = cor_requestHash req,
            idm_expireTime = dbTimeAfter (clock_ns e (w_clk w)) kIdempotentExpireMinutes\<rparr> \<and>
     w' = w\<lparr>w_clk := Suc (w_clk w)\<rparr>"
  by (auto simp: buildIdempotentRecord_def bnd_def now_ns_def ret_def)

lemma createOrder_scope_success:
  assumes run: "createOrder_scope e req w = Some (Inr o1, w')" and placed: "order_placed o1"
    and ok: "product_ok (t_product (w_tx w))"
  obtains p order rec orderExpire keyExpire orderNo t where
    "product_row_of (cor_productId req) (w_tx w) = Some p" "tp_status p = 1" "cor_quantity req \<le> tp_stock p"
    "order = orderOf req (product_of_row p) orderNo (dbTimeAfter t kOrderExpireMinutes)"
    "o1 = executed (Result_ok order (cor_requestId req))"
    "idem_lookup e (ckey e (cor_requestId req)) (w_tx w) = None"
    "idm_requestId rec = cor_requestId req" "idm_requestHash rec = cor_requestHash req"
    "list_all (\<lambda>r. ckey e (to_order_no r) \<noteq> ckey e orderNo \<and> ckey e (to_request_id r) \<noteq> ckey e (cor_requestId req)) (t_order (w_tx w))"
    "w_db w' = placed_db e req order rec orderExpire keyExpire (w_tx w)"
proof -
  from run placed obtain rec a w1 w2 where
      rec: "buildIdempotentRecord e req w = Some (Inr rec, w1)" and
      a: "IdempotentDao_tryAcquire e rec w1 = Some (Inr a, w2)" "io_kind a = kAcquired" and
      exec: "createOrder_execute e req w2 = Some (Inr o1, w')"
    by (auto simp: createOrder_scope_def eff_simps split: if_splits) (metis IdempotentKind.exhaust)
  from rec have idm: "idm_requestId rec = cor_requestId req" "idm_requestHash rec = cor_requestHash req" and w1: "w_tx w1 = w_tx w"
    by (auto simp: eff_simps)
  from tryAcquire_kAcquired [OF a] obtain keyExpire where
    new: "idem_lookup e (ckey e (cor_requestId req)) (w_tx w) = None" and
    w2: "w_tx w2 = (w_tx w)\<lparr>t_idempotent := t_idempotent (w_tx w) @ [idem_row_for rec keyExpire]\<rparr>"
    using idm w1 by auto
  from w2 ok have "product_ok (t_product (w_tx w2))" by simp
  from exec this show ?thesis
  proof (cases rule: createOrder_execute_success)
    case (1 p order n orderNo t d2)
    from 1(6) obtain orderExpire where 
       d2: "d2 = (sell (cor_productId req) (cor_quantity req) (w_tx w2))
          \<lparr>t_order := t_order (w_tx w) @ [order_row_for e order orderExpire]\<rparr>"
       and fresh: "list_all (\<lambda>r. ckey e (to_order_no r) \<noteq> ckey e orderNo \<and> ckey e (to_request_id r) \<noteq> ckey e (cor_requestId req)) (t_order (w_tx w))"
      using 1(4) w2 by (auto simp: sql_insertOrder_eq sell_def order_row_for_def orderOf_def list_all_iff)
    have row: "ti_request_id (idem_row_for rec keyExpire) = cor_requestId req" "ti_status (idem_row_for rec keyExpire) = 0"
      using idm by (simp_all add: idem_row_for_def)
    let ?d = "(w_tx w)\<lparr>t_product := t_product (sell (cor_productId req) (cor_quantity req) (w_tx w)),
                 t_order := t_order (w_tx w) @ [order_row_for e order orderExpire]\<rparr>"
    have "d2 = ?d\<lparr>t_idempotent := t_idempotent ?d @ [idem_row_for rec keyExpire]\<rparr>"
      using d2 w2 by (simp add: sell_def)
    moreover have "idem_lookup e (ckey e (cor_requestId req)) ?d = None"
      using new by (simp add: idem_lookup_def)
    ultimately have "w_db w' = placed_db e req order rec orderExpire keyExpire (w_tx w)"
      using 1(7) idem_markSuccess_new [OF _ row, of e ?d "orderSnapshot e order (cor_requestId req)"]
      by (simp add: placed_db_def)
    moreover have "product_row_of (cor_productId req) (w_tx w) = Some p"
      using 1(1) w2 by (simp add: product_row_of_def)
    ultimately show ?thesis using that 1(2-5) new idm fresh by blast
  qed
qed


section \<open>All outcomes\<close>

text \<open>The exceptions of the transaction; none of them reports success.\<close>

fun order_error :: "exn \<Rightarrow> bool" where
  "order_error (BizException c what) \<longleftrightarrow> c = kProductNotFound \<or> c = kStockNotEnough"
| "order_error x \<longleftrightarrow> True"

lemma raises_createOrder_scope: "raises_only order_error (createOrder_scope e req)"
  unfolding createOrder_scope_def createOrder_execute_def buildIdempotentRecord_def IdempotentDao_tryAcquire_def
    ProductDao_getById_def ProductDao_deductStock_def OrderDao_insert_def IdempotentDao_markSuccess_def
  by (intro preserves_intro) simp_all

text \<open>Every call ends in a rejection that changed nothing, or in the end of the guarded scope.\<close>

lemma createOrder_cases:
  assumes "OrderService_createOrder e req w = Some (r, w')"
  obtains (rejected) c m where "r = Inr (executed (Result_fail c m (cor_requestId req)))" 
        "c \<in> {kParamInvalid, kProductNotFound, kStockNotEnough, kDbError, kInternalError}" "w_db w' = w_db w"
    | (entered) o1 w1 w2 where "r = Inr o1" "0 < cor_quantity req" "cor_quantity req \<le> 999"
        "w1 = w\<lparr>w_tx := w_db w, w_sql := Suc (w_sql w), w_finished := False\<rparr>"
        "createOrder_scope e req w1 = Some (Inr o1, w2)" "w' = TransactionGuard_dtor w2"
proof (cases "cor_quantity req \<le> 0 \<or> kMaxQuantity < cor_quantity req")
  case True
  with assms show ?thesis
    by (intro rejected [of kParamInvalid msg_quantity_range]) (auto simp: OrderService_createOrder_def eff_simps)
next
  case False
  then have run: "try_catch (with_guard e (createOrder_scope e req)) (createOrder_catch req) w = Some (r, w')"
    using assms by (simp add: OrderService_createOrder_def)
  from this [unfolded try_catch_eq] consider 
      x u where "with_guard e (createOrder_scope e req) w = Some (Inl x, u)" "createOrder_catch req x u = Some (r, w')"
    | o1 where "with_guard e (createOrder_scope e req) w = Some (Inr o1, w')" "r = Inr o1"
    by blast
  then show ?thesis
  proof cases
    case 1
    have "raises_only order_error (with_guard e (createOrder_scope e req))"
      by (intro preserves_intro raises_createOrder_scope) simp_all
    from raises_onlyD [OF this 1(1)] have "order_error x" .
    moreover have "w_db u = w_db w"
      using with_guard_atomic [OF 1(1) atomic_createOrder_scope] by simp
    ultimately have "\<exists>c m. r = Inr (executed (Result_fail c m (cor_requestId req))) \<and>
        c \<in> {kParamInvalid, kProductNotFound, kStockNotEnough, kDbError, kInternalError} \<and> w_db w' = w_db w"
      using 1(2) by (cases x) (auto simp: createOrder_catch_def eff_simps)
    then show ?thesis using rejected by blast
  next
    case 2
    from 2(1) show ?thesis
    proof (cases rule: with_guard_cases)
      case (entered w1 w2)
      with 2(2) False that(2) show ?thesis by (simp add: kMaxQuantity_def)
    qed simp
  qed
qed

lemma createOrder_placed:
  assumes run: "OrderService_createOrder e req w = Some (r, w')" and r: "r = Inr o1" "order_placed o1"
    and ok: "product_ok (t_product (w_db w))"
  obtains p order rec orderExpire keyExpire orderNo t where
    "product_row_of (cor_productId req) (w_db w) = Some p" "tp_status p = 1" "cor_quantity req \<le> tp_stock p"
    "0 < cor_quantity req" "cor_quantity req \<le> 999"
    "order = orderOf req (product_of_row p) orderNo (dbTimeAfter t kOrderExpireMinutes)"
    "o1 = executed (Result_ok order (cor_requestId req))"
    "idem_lookup e (ckey e (cor_requestId req)) (w_db w) = None"
    "idm_requestId rec = cor_requestId req" "idm_requestHash rec = cor_requestHash req"
    "list_all (\<lambda>r. ckey e (to_order_no r) \<noteq> ckey e orderNo \<and> ckey e (to_request_id r) \<noteq> ckey e (cor_requestId req)) (t_order (w_db w))"
    "w_db w' = placed_db e req order rec orderExpire keyExpire (w_db w)"
  using run
proof (cases rule: createOrder_cases)
  case (rejected c m)
  with r show ?thesis by auto
next
  case (entered o2 w1 w2)
  then have "w_tx w1 = w_db w" "w_db w' = w_db w2" and scope: "createOrder_scope e req w1 = Some (Inr o1, w2)"
    using r by simp_all
  with ok have "product_ok (t_product (w_tx w1))" by simp
  from scope r(2) this show ?thesis
  proof (cases rule: createOrder_scope_success)
    case (1 p order rec orderExpire keyExpire orderNo t)
    with that entered(2,3) \<open>w_tx w1 = w_db w\<close> \<open>w_db w' = w_db w2\<close> show ?thesis by simp
  qed
qed

lemma createOrder_unplaced:
  assumes run: "OrderService_createOrder e req w = Some (r, w')" and "\<not> (\<exists>o1. r = Inr o1 \<and> order_placed o1)"
  shows "w_db w' = w_db w"
  using run
proof (cases rule: createOrder_cases)
  case (entered o1 w1 w2)
  then have "uncommitted (w_db w) w1" by simp
  with entered atomic_createOrder_scope [of "w_db w" e req, unfolded atomic_body_def] assms(2) show ?thesis
    by fastforce
qed

text \<open>A property of the tables that the four statements keep survives every call.\<close>

lemma createOrder_keeps:
  assumes "\<And>rec. stmt_keeps P (sql_acquire e rec)" and "\<And>pid q. stmt_keeps P (sql_deductStock pid q)"
    and "\<And>order. stmt_keeps P (sql_insertOrder e order)" and "\<And>rid body. stmt_keeps P (sql_markSuccess e rid body)"
  shows "preserves (committed P) (OrderService_createOrder e req)"
  unfolding OrderService_createOrder_def createOrder_scope_def createOrder_execute_def buildIdempotentRecord_def
    IdempotentDao_tryAcquire_def ProductDao_getById_def ProductDao_deductStock_def OrderDao_insert_def
    IdempotentDao_markSuccess_def createOrder_catch_def
  by (intro preserves_intro assms) (auto split: exn.split intro: preserves_intro)

lemma schema_createOrder: "preserves (committed (schema_ok e)) (OrderService_createOrder e req)"
  by (intro createOrder_keeps preserves_intro)


section \<open>Repeated requests\<close>

lemma keeps_idem_row_others [preserves_intro]:
  "stmt_keeps (\<lambda>d. idem_lookup e k d = Some row) (sql_deductStock pid q)"
  "stmt_keeps (\<lambda>d. idem_lookup e k d = Some row) (sql_insertOrder e order)"
  by (rule stmt_keepsI, auto simp: sql_deductStock_def product_dec_def sql_insertOrder_eq idem_lookup_def split: prod.splits)+

text \<open>A request that passes the service's own checks and the column checks of the first statement.\<close>

definition request_ok :: "env \<Rightarrow> CreateOrderReq \<Rightarrow> world \<Rightarrow> bool" where
  "request_ok e req w \<longleftrightarrow> 1 \<le> cor_quantity req \<and> cor_quantity req \<le> 999 \<and> 0 \<le> sint (cor_userId req) \<and>
     dt_parse e (dbTimeAfter (clock_ns e (w_clk w)) kIdempotentExpireMinutes) \<noteq> None"

lemma createOrder_known:
  assumes "healthy_from e (w_sql w)" and "request_ok e req w"
    and "idem_row_of e (cor_requestId req) (w_db w) = Some row" and "ti_status row = 1" "ti_response_body row = Some body"
  shows "\<exists>w'. OrderService_createOrder e req w = Some (Inr (cached body), w') \<and> w_db w' = w_db w"
proof -
  let ?w = "w\<lparr>w_tx := w_db w, w_sql := Suc (w_sql w), w_finished := False, w_clk := Suc (w_clk w)\<rparr>"
  let ?rec = "\<lparr>idm_requestId = cor_requestId req, idm_userId = cor_userId req, idm_apiPath = kCreateOrderApiPath,
            idm_requestHash = cor_requestHash req,
            idm_expireTime = dbTimeAfter (clock_ns e (w_clk w)) kIdempotentExpireMinutes\<rparr>"
  have "IdempotentDao_tryAcquire e ?rec ?w = Some (Inr \<lparr>io_kind = kCachedSuccess, io_cachedResponseBody = body\<rparr>,
      ?w\<lparr>w_sql := Suc (Suc (w_sql ?w))\<rparr>)"
    using assms by (subst tryAcquire_known [where row = row]) (auto simp: request_ok_def intro: healthy_from_mono)
  then show ?thesis
    using assms(1,2)
    by (simp add: OrderService_createOrder_def request_ok_def kMaxQuantity_def try_catch_def with_guard_run
        createOrder_scope_def buildIdempotentRecord_def now_ns_def bnd_def ret_def)
qed

interpretation snapshot_kept: invariant_ops "OrderService_createOrder e"
    "committed (\<lambda>d. idem_lookup e k d = Some row \<and> ti_status row = 1)" for e k row
proof unfold_locales
  fix w req r w'
  assume inv: "committed (\<lambda>d. idem_lookup e k d = Some row \<and> ti_status row = 1) w"
    and run: "OrderService_createOrder e req w = Some (r, w')"
  then have "ti_status row = 1" by (simp add: committed_def)
  then have "preserves (committed (\<lambda>d. idem_lookup e k d = Some row)) (OrderService_createOrder e req)"
    by (intro createOrder_keeps preserves_intro)
  from preservesD [OF this run] inv show "committed (\<lambda>d. idem_lookup e k d = Some row \<and> ti_status row = 1) w'"
    by (simp add: committed_def)
qed

interpretation schema_kept: invariant_ops "OrderService_createOrder e" "committed (schema_ok e)" for e
  by unfold_locales (rule preservesD [OF schema_createOrder])

lemma placed_db_idem:
  assumes "idem_lookup e (ckey e (cor_requestId req)) d = None" and "idm_requestId rec = cor_requestId req"
  shows "idem_lookup e (ckey e (cor_requestId req)) (placed_db e req order rec x y d) =
    Some ((idem_row_for rec y)\<lparr>ti_status := 1, ti_response_body := Some (orderSnapshot e order (cor_requestId req))\<rparr>)"
  using assms by (simp add: idem_lookup_def placed_db_def first_where_append first_where_single idem_row_for_def)

text \<open>Committed rows of the idempotency table are finished: key and snapshot are written by one transaction.\<close>

definition snapshots_ok :: "db \<Rightarrow> bool" where
  "snapshots_ok d \<longleftrightarrow> list_all (\<lambda>r. ti_status r = 1 \<and> ti_response_body r \<noteq> None) (t_idempotent d)"

lemma snapshots_ok_createOrder:
  assumes "schema_ok e (w_db w)" "snapshots_ok (w_db w)" and run: "OrderService_createOrder e req w = Some (r, w')"
  shows "snapshots_ok (w_db w')"
proof (cases "\<exists>o1. r = Inr o1 \<and> order_placed o1")
  case True
  then obtain o1 where o1: "r = Inr o1" "order_placed o1" by blast
  from assms(1) have "product_ok (t_product (w_db w))" by (simp add: schema_ok_def)
  from run o1 this show ?thesis
  proof (cases rule: createOrder_placed)
    case 1
    with assms(2) show ?thesis by (simp add: snapshots_ok_def placed_db_def)
  qed
next
  case False
  with createOrder_unplaced [OF run] assms(2) show ?thesis by simp
qed

lemma tryAcquire_not_processing:
  assumes "IdempotentDao_tryAcquire e rec w = Some (Inr a, w')" and "snapshots_ok (w_tx w)"
  shows "io_kind a \<noteq> kProcessing"
  using assms
  by (auto simp: IdempotentDao_tryAcquire_def eff_simps sql_acquire_def idem_ins_eq query_def idem_row_of_lookup
        idem_row_for_def snapshots_ok_def idem_lookup_def list_all_iff
      split: option.splits if_splits dest: first_where_Some)

lemma createOrder_never_duplicate:
  assumes "OrderService_createOrder e req w = Some (Inr o1, w')" and "snapshots_ok (w_db w)"
  shows "res_code (coo_result o1) \<noteq> ErrCode_value kDuplicateRequest"
  using assms(1)
proof (cases rule: createOrder_cases)
  case (rejected c m)
  then show ?thesis by (auto simp: executed_def)
next
  case (entered o2 w1 w2)
  from entered(5) obtain rec a u1 u2 where
      rec: "buildIdempotentRecord e req w1 = Some (Inr rec, u1)" and
      a: "IdempotentDao_tryAcquire e rec u1 = Some (Inr a, u2)" and
      rest: "(if io_kind a = kCachedSuccess then ret (cached (io_cachedResponseBody a))
         else if io_kind a = kProcessing
         then ret (executed (Result_fail kDuplicateRequest (toMessage kDuplicateRequest) (cor_requestId req)))
         else createOrder_execute e req) u2 = Some (Inr o2, w2)"
    by (auto simp: createOrder_scope_def eff_simps)
  from rec entered(4) assms(2) have "snapshots_ok (w_tx u1)" by (auto simp: eff_simps)
  from tryAcquire_not_processing [OF a this] rest show ?thesis
    using entered(1) by (auto simp: eff_simps cached_def executed_def createOrder_execute_def split: if_splits option.splits)
qed

section \<open>Runs without faults\<close>

text \<open>The state in which a request with an unused identifier enters the business part.\<close>

definition acquired_world :: "env \<Rightarrow> CreateOrderReq \<Rightarrow> world \<Rightarrow> int \<Rightarrow> world" where
  "acquired_world e req w expire =
     w\<lparr>w_tx := (w_db w)\<lparr>t_idempotent := t_idempotent (w_db w) @ [idem_row_for
         \<lparr>idm_requestId = cor_requestId req, idm_userId = cor_userId req, idm_apiPath = kCreateOrderApiPath,
            idm_requestHash = cor_requestHash req,
            idm_expireTime = dbTimeAfter (clock_ns e (w_clk w)) kIdempotentExpireMinutes\<rparr> expire]\<rparr>,
       w_sql := Suc (Suc (w_sql w)), w_finished := False, w_clk := Suc (w_clk w)\<rparr>"

lemma createOrder_fresh:
  assumes "healthy_from e (w_sql w)" and "request_ok e req w"
    and "idem_row_of e (cor_requestId req) (w_db w) = None"
  obtains expire where "OrderService_createOrder e req w =
      try_catch (\<lambda>_. map_option (\<lambda>(r, u). (r, TransactionGuard_dtor u)) (createOrder_execute e req (acquired_world e req w expire)))
        (createOrder_catch req) w"
proof -
  from assms(2) obtain expire where x: "dt_parse e (dbTimeAfter (clock_ns e (w_clk w)) kIdempotentExpireMinutes) = Some expire"
    by (auto simp: request_ok_def)
  let ?w = "w\<lparr>w_tx := w_db w, w_sql := Suc (w_sql w), w_finished := False, w_clk := Suc (w_clk w)\<rparr>"
  let ?rec = "\<lparr>idm_requestId = cor_requestId req, idm_userId = cor_userId req, idm_apiPath = kCreateOrderApiPath,
            idm_requestHash = cor_requestHash req,
            idm_expireTime = dbTimeAfter (clock_ns e (w_clk w)) kIdempotentExpireMinutes\<rparr>"
  have "IdempotentDao_tryAcquire e ?rec ?w = Some (Inr \<lparr>io_kind = kAcquired, io_cachedResponseBody = ''''\<rparr>,
      acquired_world e req w expire)"
    using assms x
    by (subst tryAcquire_fresh [where expire = expire]) (auto simp: request_ok_def acquired_world_def intro: healthy_from_mono)
  then have "createOrder_scope e req (w\<lparr>w_tx := w_db w, w_sql := Suc (w_sql w), w_finished := False\<rparr>) =
     createOrder_execute e req (acquired_world e req w expire)"
    by (simp add: createOrder_scope_def buildIdempotentRecord_def now_ns_def bnd_def ret_def)
  with assms(1,2) show ?thesis
    by (intro that [of expire])
       (simp add: OrderService_createOrder_def request_ok_def kMaxQuantity_def try_catch_def with_guard_run)
qed

lemma acquired_world_simps [simp]:
  "t_product (w_tx (acquired_world e req w expire)) = t_product (w_db w)"
  "t_order (w_tx (acquired_world e req w expire)) = t_order (w_db w)"
  "product_row_of pid (w_tx (acquired_world e req w expire)) = product_row_of pid (w_db w)"
  "w_db (acquired_world e req w expire) = w_db w" "w_gen (acquired_world e req w expire) = w_gen w"
  "w_clk (acquired_world e req w expire) = Suc (w_clk w)" "w_sql (acquired_world e req w expire) = Suc (Suc (w_sql w))"
  "\<not> w_finished (acquired_world e req w expire)"
  by (simp_all add: acquired_world_def product_row_of_def)

lemma createOrder_succeeds:
  assumes "healthy_from e (w_sql w)" and "request_ok e req w" and "schema_ok e (w_db w)"
    and "idem_row_of e (cor_requestId req) (w_db w) = None"
    and p: "product_row_of (cor_productId req) (w_db w) = Some p" "tp_status p = 1" "cor_quantity req \<le> tp_stock p"
    and price: "0 \<le> tp_price p" "tp_price p * cor_quantity req < 10 ^ 18" and "0 \<le> sint (cor_productId req)"
    and gen: "IdGenerator_nextId (clock_ns e) (w_gen w, Suc (w_clk w)) = Some (Inr no, g, k)"
    and expire: "dt_parse e (dbTimeAfter (clock_ns e k) kOrderExpireMinutes) = Some x"
    and fresh: "\<forall>r \<in> set (t_order (w_db w)). ckey e (to_order_no r) \<noteq> ckey e no \<and> ckey e (to_request_id r) \<noteq> ckey e (cor_requestId req)"
  shows "\<exists>order w'. OrderService_createOrder e req w = Some (Inr (executed (Result_ok order (cor_requestId req))), w') \<and>
    ord_orderNo order = no \<and> w_gen w' = g \<and> w_clk w' = Suc k \<and> w_sql w \<le> w_sql w'"
proof -
  from assms(3) have ok: "product_ok (t_product (w_db w))" by (simp add: schema_ok_def)
  note runs = getById_run [OF assms(1)] deductStock_run [OF assms(1)] healthy_fromD [OF assms(1)]
  from createOrder_fresh [OF assms(1,2,4)] obtain expire where
    eq: "OrderService_createOrder e req w =
      try_catch (\<lambda>_. map_option (\<lambda>(r, u). (r, TransactionGuard_dtor u)) (createOrder_execute e req (acquired_world e req w expire)))
        (createOrder_catch req) w" .
  let ?d = "w_tx (acquired_world e req w expire)"
  let ?order = "orderOf req (product_of_row p) no (dbTimeAfter (clock_ns e k) kOrderExpireMinutes)"
  have dec: "product_dec (cor_productId req) (cor_quantity req) ?d = (sell (cor_productId req) (cor_quantity req) ?d, 1)"
    using p ok by (simp add: product_dec_eq on_sale_stock_def)
  from assms(2) price(1) have "0 \<le> tp_price p * cor_quantity req" by (simp add: request_ok_def)
  with price(2) have total: "ord_totalAmountFen ?order = tp_price p * cor_quantity req" "\<bar>tp_price p * cor_quantity req\<bar> < 10 ^ 18"
    "0 \<le> tp_price p * cor_quantity req"
    by (simp_all add: orderOf_def in_i64_def)
  have ins: "sql_insertOrder e ?order n (sell (cor_productId req) (cor_quantity req) ?d) =
     Some ((sell (cor_productId req) (cor_quantity req) ?d)\<lparr>t_order := t_order (w_db w) @ [order_row_for e ?order x]\<rparr>, ())" for n
    unfolding sql_insertOrder_eq
    using expire assms(2,10) total fresh 
    by (intro exI [of _ x]) (auto simp: order_row_for_def request_ok_def sell_def, simp_all add: orderOf_def)
  show ?thesis
    using p gen
    by (simp add: eq try_catch_def createOrder_execute_def bnd_def runs Product_onSale_def dec nextId_def now_ns_def
       OrderDao_insert_def execSqlSync_tx_def ins IdempotentDao_markSuccess_def sql_markSuccess_def
       TransactionGuard_commit_def TransactionGuard_dtor_def ret_def)
       (rule exI [of _ ?order], simp add: orderOf_def)
qed

lemma createOrder_refused:
  assumes "healthy_from e (w_sql w)" and "request_ok e req w" and "schema_ok e (w_db w)"
    and "idem_row_of e (cor_requestId req) (w_db w) = None"
    and "case product_row_of (cor_productId req) (w_db w) of
           None \<Rightarrow> c = kProductNotFound \<and> m = msg_product_missing
         | Some p \<Rightarrow> if tp_status p \<noteq> 1 then c = kProductNotFound \<and> m = msg_product_off_sale
                     else tp_stock p < cor_quantity req \<and> c = kStockNotEnough \<and> m = msg_stock_short"
  shows "\<exists>w'. OrderService_createOrder e req w = Some (Inr (executed (Result_fail c m (cor_requestId req))), w') \<and>
    w_db w' = w_db w \<and> w_gen w' = w_gen w \<and> w_clk w' = Suc (w_clk w) \<and> w_sql w \<le> w_sql w'"
proof -
  from assms(3) have ok: "product_ok (t_product (w_db w))" by (simp add: schema_ok_def)
  note runs = getById_run [OF assms(1)] deductStock_run [OF assms(1)]
  from createOrder_fresh [OF assms(1,2,4)] obtain expire where
    eq: "OrderService_createOrder e req w =
      try_catch (\<lambda>_. map_option (\<lambda>(r, u). (r, TransactionGuard_dtor u)) (createOrder_execute e req (acquired_world e req w expire)))
        (createOrder_catch req) w" .
  show ?thesis
  proof (cases "product_row_of (cor_productId req) (w_db w)")
    case None
    with assms(5) show ?thesis
      by (simp add: eq try_catch_def createOrder_execute_def bnd_def runs throw_def createOrder_catch_def ret_def TransactionGuard_dtor_def)
  next
    case (Some p)
    with assms(5) ok show ?thesis
      by (auto simp: eq try_catch_def createOrder_execute_def bnd_def runs throw_def createOrder_catch_def ret_def TransactionGuard_dtor_def
         Product_onSale_def product_dec_eq on_sale_stock_def split: if_splits)
  qed
qed

text \<open>With a clock that passes every request is answered, whatever faults occur.\<close>

lemma createOrder_ends:
  assumes "clock_passes (clock_ns e)"
  shows "ends (OrderService_createOrder e req)"
  unfolding OrderService_createOrder_def createOrder_scope_def createOrder_execute_def buildIdempotentRecord_def
    IdempotentDao_tryAcquire_def ProductDao_getById_def ProductDao_deductStock_def OrderDao_insert_def IdempotentDao_markSuccess_def
    createOrder_catch_def
  by (intro preserves_intro assms) (auto split: exn.split intro: preserves_intro)

end
