(* ===== verification/PaymentDao.thy ===== *)
theory PaymentDao
  imports DaoContracts
begin

text \<open>
  \<^verbatim>\<open>src/dao/PaymentDao.h\<close>, \<^verbatim>\<open>src/dao/PaymentDao.cc\<close>: the deduplicated INSERT of a payment and its
  lookup by channel and trade number. The INSERT is interpreted as a \<open>dedup_store\<close> keyed by
  channel and trade number.
\<close>

section \<open>Statements\<close>

datatype PaymentInsertOutcome = kPaymentInserted | kPaymentDuplicate

definition payment_row_of :: "env \<Rightarrow> string \<Rightarrow> string \<Rightarrow> db \<Rightarrow> payment_row option" where
  "payment_row_of e channel tradeNo d =
     first_where (\<lambda>r. sql_eq e (ty_channel r) channel \<and> sql_eq e (ty_channel_trade_no r) tradeNo) (t_payment d)"

definition payment_row_for :: "env \<Rightarrow> Payment \<Rightarrow> int \<Rightarrow> payment_row" where
  "payment_row_for e p callback =
     \<lparr>ty_payment_no = pay_paymentNo p, ty_order_no = pay_orderNo p, ty_channel = pay_channel p,
      ty_channel_trade_no = pay_channelTradeNo p,
      ty_amount = castDecimal e (fenToYuanString (pay_amountFen p)), ty_status = 1,
      ty_callback_time = callback, ty_raw_body = pay_rawBody p\<rparr>"

text \<open>\<^verbatim>\<open>ON DUPLICATE KEY UPDATE payment_no = payment_no\<close> covers both unique keys of the table.\<close>

definition payment_ins :: "env \<Rightarrow> payment_row \<Rightarrow> db \<Rightarrow> db \<times> nat" where
  "payment_ins e row d =
     (if list_ex (\<lambda>r. sql_eq e (ty_payment_no r) (ty_payment_no row) \<or>
                      sql_eq e (ty_channel r) (ty_channel row) \<and>
                      sql_eq e (ty_channel_trade_no r) (ty_channel_trade_no row)) (t_payment d)
      then (d, 0) else (d\<lparr>t_payment := t_payment d @ [row]\<rparr>, 1))"

definition sql_insertPayment :: "env \<Rightarrow> Payment \<Rightarrow> nat stmt" where
  "sql_insertPayment e p n d =
     (case dt_parse e (pay_callbackTime p) of
        None \<Rightarrow> None | Some callback \<Rightarrow> Some (payment_ins e (payment_row_for e p callback) d))"

definition PaymentDao_insertWithDedup :: "env \<Rightarrow> Payment \<Rightarrow> PaymentInsertOutcome act" where
  "PaymentDao_insertWithDedup e p =
     bnd (execSqlSync_tx e (sql_insertPayment e p)) (\<lambda>affected.
       ret (if affected = 1 then kPaymentInserted else kPaymentDuplicate))"

text \<open>The SELECT leaves the callback time and the raw body of the result empty.\<close>

definition payment_of_row :: "payment_row \<Rightarrow> Payment" where
  "payment_of_row r =
     \<lparr>pay_paymentNo = ty_payment_no r, pay_orderNo = ty_order_no r, pay_channel = ty_channel r,
      pay_channelTradeNo = ty_channel_trade_no r, pay_amountFen = ty_amount r,
      pay_status = PaymentStatus_cast (ty_status r), pay_callbackTime = '''', pay_rawBody = ''''\<rparr>"

definition PaymentDao_getByChannelTradeNo :: "env \<Rightarrow> string \<Rightarrow> string \<Rightarrow> Payment option act" where
  "PaymentDao_getByChannelTradeNo e channel tradeNo =
     execSqlSync_tx e (query (\<lambda>d. map_option payment_of_row (payment_row_of e channel tradeNo d)))"

declare payment_row_of_def [eval_simps] payment_row_for_def [eval_simps] payment_ins_def [eval_simps]
  sql_insertPayment_def [eval_simps] PaymentDao_insertWithDedup_def [eval_simps]
  payment_of_row_def [eval_simps] PaymentDao_getByChannelTradeNo_def [eval_simps]

section \<open>Trade numbers are recorded once\<close>

definition trade_key :: "env \<Rightarrow> payment_row \<Rightarrow> string \<times> string" where
  "trade_key e r = (ckey e (ty_channel r), ckey e (ty_channel_trade_no r))"

definition payment_lookup :: "env \<Rightarrow> string \<times> string \<Rightarrow> db \<Rightarrow> payment_row option" where
  "payment_lookup e k d = first_where (\<lambda>r. trade_key e r = k) (t_payment d)"

lemma payment_row_of_lookup:
  "payment_row_of e channel tradeNo d = payment_lookup e (ckey e channel, ckey e tradeNo) d"
  by (simp add: payment_row_of_def payment_lookup_def trade_key_def sql_eq_def)

interpretation trades: dedup_store "payment_ins e" "payment_lookup e" "trade_key e"
  for e
proof (unfold_locales, goal_cases)
  case (1 r d)
  then have "\<not> (\<forall>r' \<in> set (t_payment d). trade_key e r' \<noteq> trade_key e r)"
    by (simp add: payment_lookup_def first_where_None)
  then show ?case by (auto simp: payment_ins_def list_ex_iff sql_eq_def trade_key_def)
next
  case (2 r d)
  then show ?case by (simp add: payment_ins_def)
next
  case (3 r d k)
  then have "payment_ins e r d = (d\<lparr>t_payment := t_payment d @ [r]\<rparr>, 1)"
    and "\<forall>r' \<in> set (t_payment d). trade_key e r' \<noteq> trade_key e r"
    by (auto simp: payment_ins_def list_ex_iff sql_eq_def trade_key_def split: if_splits)
  moreover from this(2) have "first_where (\<lambda>r'. trade_key e r' = trade_key e r) (t_payment d) = None"
    by (simp add: first_where_None)
  ultimately show ?case
    by (auto simp: payment_lookup_def first_where_append first_where_single split: option.split)
qed

lemma schema_ok_insertPayment [preserves_intro]: "stmt_keeps (schema_ok e) (sql_insertPayment e p)"
proof (rule stmt_keepsI)
  fix n d d' x
  assume "schema_ok e d" and "sql_insertPayment e p n d = Some (d', x)"
  then show "schema_ok e d'"
    by (auto simp: sql_insertPayment_def payment_ins_def list_ex_iff schema_ok_def payment_ok_def sql_eq_def
        split: option.splits if_splits; blast)
qed

end
