(* ===== verification/AccountDao.thy ===== *)
theory AccountDao
  imports DaoContracts
begin

text \<open>
  \<^verbatim>\<open>src/dao/AccountDao.cc\<close>: reading an account, the conditional decrement of its balance (interpreted
  as a \<open>conditional_store\<close>) and the append-only flow table.
\<close>

section \<open>Statements\<close>

definition account_of_row :: "account_row \<Rightarrow> Account" where
  "account_of_row r =
     \<lparr>acc_accountNo = ta_account_no r, acc_userId = word_of_int (ta_user_id r), acc_balanceFen = ta_balance r,
      acc_frozenAmountFen = ta_frozen_amount r, acc_status = ta_status r\<rparr>"

definition account_row_of :: "uint64 \<Rightarrow> db \<Rightarrow> account_row option" where
  "account_row_of userId d = first_where (\<lambda>r. ta_user_id r = sint userId) (t_account d)"

definition AccountDao_getByUserId :: "env \<Rightarrow> uint64 \<Rightarrow> Account option act" where
  "AccountDao_getByUserId e userId =
     execSqlSync_tx e (query (\<lambda>d. map_option account_of_row (account_row_of userId d)))"

text \<open>
  \<^verbatim>\<open>UPDATE t_account SET balance = balance - ?, version = version + 1 WHERE account_no = ? AND status = 0 AND balance >= ?\<close>
\<close>

definition account_dec :: "env \<Rightarrow> string \<Rightarrow> int64 \<Rightarrow> db \<Rightarrow> db \<times> nat" where
  "account_dec e accountNo amountFen d =
     (let amount = castDecimal e (fenToYuanString amountFen) in
      case update_where
             (\<lambda>r. sql_eq e (ta_account_no r) accountNo \<and> ta_status r = 0 \<and> amount \<le> ta_balance r)
             (\<lambda>r. r\<lparr>ta_balance := ta_balance r - amount, ta_version := ta_version r + 1\<rparr>)
             (t_account d)
      of (rows, affected) \<Rightarrow> (d\<lparr>t_account := rows\<rparr>, affected))"

definition sql_deduct :: "env \<Rightarrow> string \<Rightarrow> int64 \<Rightarrow> nat stmt" where
  "sql_deduct e accountNo amountFen n d = Some (account_dec e accountNo amountFen d)"

definition AccountDao_deduct :: "env \<Rightarrow> string \<Rightarrow> int64 \<Rightarrow> nat act" where
  "AccountDao_deduct e accountNo amountFen = execSqlSync_tx e (sql_deduct e accountNo amountFen)"

definition flow_row_for :: "env \<Rightarrow> AccountFlow \<Rightarrow> flow_row" where
  "flow_row_for e flow =
     \<lparr>tf_account_no = flw_accountNo flow, tf_biz_type = FlowBizType_int (flw_bizType flow),
      tf_direction = FlowDirection_int (flw_direction flow),
      tf_amount = castDecimal e (fenToYuanString (flw_amountFen flow)),
      tf_before_balance = castDecimal e (fenToYuanString (flw_beforeFen flow)),
      tf_after_balance = castDecimal e (fenToYuanString (flw_afterFen flow)),
      tf_order_no = flw_orderNo flow, tf_request_id = flw_requestId flow\<rparr>"

text \<open>Refused when the amount is not positive or the request already has a flow of that kind.\<close>

definition sql_insertFlow :: "env \<Rightarrow> AccountFlow \<Rightarrow> unit stmt" where
  "sql_insertFlow e flow n d =
     (if tf_amount (flow_row_for e flow) \<le> 0 then None
      else if list_ex (\<lambda>r. sql_eq e (tf_request_id r) (flw_requestId flow) \<and>
                           tf_biz_type r = FlowBizType_int (flw_bizType flow)) (t_account_flow d) then None
      else Some (d\<lparr>t_account_flow := t_account_flow d @ [flow_row_for e flow]\<rparr>, ()))"

definition AccountDao_insertFlow :: "env \<Rightarrow> AccountFlow \<Rightarrow> unit act" where
  "AccountDao_insertFlow e flow = execSqlSync_tx e (sql_insertFlow e flow)"

declare account_of_row_def [eval_simps] account_row_of_def [eval_simps] AccountDao_getByUserId_def [eval_simps]
  account_dec_def [eval_simps] sql_deduct_def [eval_simps] AccountDao_deduct_def [eval_simps]
  flow_row_for_def [eval_simps] sql_insertFlow_def [eval_simps] AccountDao_insertFlow_def [eval_simps]

section \<open>The balance as a conditional store\<close>

definition account_row_no :: "env \<Rightarrow> string \<Rightarrow> db \<Rightarrow> account_row option" where
  "account_row_no e accountNo d = first_where (\<lambda>r. ckey e (ta_account_no r) = ckey e accountNo) (t_account d)"

text \<open>The balance that can be spent: that of an existing account in normal status.\<close>

definition spendable :: "env \<Rightarrow> string \<Rightarrow> db \<Rightarrow> int option" where
  "spendable e accountNo d =
     (case account_row_no e accountNo d of None \<Rightarrow> None
      | Some r \<Rightarrow> if ta_status r = 0 then Some (ta_balance r) else None)"

definition debit :: "env \<Rightarrow> string \<Rightarrow> int \<Rightarrow> db \<Rightarrow> db" where
  "debit e accountNo q d =
     d\<lparr>t_account := map (\<lambda>r. if ckey e (ta_account_no r) = ckey e accountNo
         then r\<lparr>ta_balance := ta_balance r - q, ta_version := ta_version r + 1\<rparr> else r) (t_account d)\<rparr>"

lemma account_dec_eq:
  assumes "account_ok e (t_account d)"
  shows "account_dec e accountNo amountFen d =
    (let q = castDecimal e (fenToYuanString amountFen) in
     case spendable e accountNo d of
       None \<Rightarrow> (d, 0) | Some s \<Rightarrow> if q \<le> s then (debit e accountNo q d, 1) else (d, 0))"
  using assms
  by (simp add: account_dec_def account_ok_def spendable_def account_row_no_def debit_def sql_eq_def Let_def
      update_where_keyed [of "\<lambda>r. ckey e (ta_account_no r)" _ _ "ckey e accountNo"
        "\<lambda>r. ta_status r = 0 \<and> castDecimal e (fenToYuanString amountFen) \<le> ta_balance r"] split: option.split)

lemma account_row_no_debit:
  "account_row_no e no (debit e accountNo q d) =
     map_option (\<lambda>r. if ckey e no = ckey e accountNo
         then r\<lparr>ta_balance := ta_balance r - q, ta_version := ta_version r + 1\<rparr> else r) (account_row_no e no d)"
  by (simp add: account_row_no_def debit_def first_where_map_keyed)

lemma spendable_debit:
  "spendable e no (debit e accountNo q d) =
     map_option (\<lambda>s. if ckey e no = ckey e accountNo then s - q else s) (spendable e no d)"
  by (cases "account_row_no e no d") (auto simp: spendable_def account_row_no_debit)

lemma account_ok_debit:
  assumes "account_ok e (t_account d)" and "\<And>r. account_row_no e accountNo d = Some r \<Longrightarrow> q \<le> ta_balance r"
  shows "account_ok e (t_account (debit e accountNo q d))"
proof -
  have "q \<le> ta_balance r" if "r \<in> set (t_account d)" "ckey e (ta_account_no r) = ckey e accountNo" for r
    using first_where_unique [of "\<lambda>r. ckey e (ta_account_no r)", OF _ that] assms
    by (simp add: account_row_no_def account_ok_def)
  with assms(1) show ?thesis
    by (auto simp: account_ok_def debit_def map_key_if list_all_iff simp del: map_map)
qed

lemma account_ok_spent:
  "account_ok e (t_account d) \<Longrightarrow> spendable e accountNo d = Some s \<Longrightarrow> q \<le> s \<Longrightarrow>
   account_ok e (t_account (debit e accountNo q d))"
  by (rule account_ok_debit) (auto simp: spendable_def split: if_splits)

text \<open>The contract holds for the amounts that DECIMAL(18,2) can hold; a larger one is changed by the cast.\<close>

interpretation balance: conditional_store "account_dec e accountNo" "spendable e accountNo"
    "\<lambda>d. account_ok e (t_account d)" "\<lambda>q. \<bar>q\<bar> < 10 ^ 18"
  for e accountNo
proof (unfold_locales, goal_cases)
  case (1 d q s)
  then show ?case by (simp add: account_dec_eq account_ok_spent spendable_debit)
next
  case (2 d q)
  then show ?case by (auto simp: account_dec_eq split: option.splits)
qed

lemma schema_ok_deduct [preserves_intro]: "stmt_keeps (schema_ok e) (sql_deduct e accountNo amountFen)"
proof (rule stmt_keepsI)
  fix n d d' x
  assume ok: "schema_ok e d" and st: "sql_deduct e accountNo amountFen n d = Some (d', x)"
  define q where "q = castDecimal e (fenToYuanString amountFen)"
  from ok have acc: "account_ok e (t_account d)" by (simp add: schema_ok_def)
  with st have "d' = d \<or> (\<exists>s. spendable e accountNo d = Some s \<and> q \<le> s \<and> d' = debit e accountNo q d)"
    by (auto simp: sql_deduct_def account_dec_eq q_def Let_def split: option.splits if_splits)
  with ok account_ok_spent [OF acc] show "schema_ok e d'"
    by (auto simp: schema_ok_def debit_def)
qed

lemma schema_ok_insertFlow [preserves_intro]: "stmt_keeps (schema_ok e) (sql_insertFlow e flow)"
  by (rule stmt_keepsI)
     (auto simp: sql_insertFlow_def list_ex_iff sql_eq_def schema_ok_def flow_ok_def flow_row_for_def
       split: if_splits, blast)

end
