(* ===== verification/PaymentService.thy ===== *)
theory PaymentService
  imports SignUtil OrderDao PaymentDao AccountDao LocalMessageDao
begin

text \<open>
  \<^verbatim>\<open>src/services/PaymentService.h\<close>, \<^verbatim>\<open>src/services/PaymentService.cc\<close>: the payment callback. The
  channel and the signature are checked first; then one transaction records the payment, moves the
  order to paid, debits the account, writes the flow and puts the message into the outbox. Logging
  is left out.
\<close>

section \<open>The service\<close>

definition kSupportedChannel :: string where "kSupportedChannel = ''MOCK''"
definition kBizTypeOrderPaid :: string where "kBizTypeOrderPaid = ''ORDER_PAID''"

text \<open>\<open>None\<close>: jsoncpp throws, because a section or a value has the wrong type.\<close>

definition configValue :: "json \<Rightarrow> string \<Rightarrow> string \<Rightarrow> string \<Rightarrow> string option" where
  "configValue customConfig sec key fallback =
     (case isMember customConfig sec of
        None \<Rightarrow> None
      | Some False \<Rightarrow> Some fallback
      | Some True \<Rightarrow>
          (case jget customConfig sec of
             None \<Rightarrow> None
           | Some v \<Rightarrow>
               (case isMember v key of
                  None \<Rightarrow> None
                | Some False \<Rightarrow> Some fallback
                | Some True \<Rightarrow> (case jget v key of None \<Rightarrow> None | Some x \<Rightarrow> asString x))))"

definition paymentOf :: "PaymentCallbackReq \<Rightarrow> string \<Rightarrow> string \<Rightarrow> int64 \<Rightarrow> string \<Rightarrow> Payment" where
  "paymentOf req rawBody paymentNo amountFen callbackTime =
     \<lparr>pay_paymentNo = paymentNo, pay_orderNo = pcr_orderNo req, pay_channel = pcr_channel req,
      pay_channelTradeNo = pcr_channelTradeNo req, pay_amountFen = amountFen,
      pay_status = PaymentStatus_kSuccess, pay_callbackTime = callbackTime, pay_rawBody = rawBody\<rparr>"

definition flowOf :: "PaymentCallbackReq \<Rightarrow> string \<Rightarrow> int64 \<Rightarrow> int64 \<Rightarrow> AccountFlow" where
  "flowOf req accountNo amountFen afterBalance =
     \<lparr>flw_accountNo = accountNo, flw_bizType = kPayment, flw_direction = kOut, flw_amountFen = amountFen,
      flw_beforeFen = wrap64 (afterBalance + amountFen), flw_afterFen = afterBalance,
      flw_orderNo = pcr_orderNo req, flw_requestId = pcr_requestId req\<rparr>"

definition paidPayload :: "string \<Rightarrow> Order \<Rightarrow> json" where
  "paidPayload messageId order =
     jset ''status'' (JInt 1)
       (jset ''userId'' (JUInt (uint (ord_userId order)))
         (jset ''amount'' (JString (fenToYuanString (ord_totalAmountFen order)))
           (jset ''orderNo'' (JString (ord_orderNo order))
             (jset ''bizType'' (JString kBizTypeOrderPaid)
               (jset ''messageId'' (JString messageId) JNull)))))"

definition messageOf :: "env \<Rightarrow> PaymentCallbackReq \<Rightarrow> Order \<Rightarrow> string \<Rightarrow> string \<Rightarrow> string \<Rightarrow> LocalMessage" where
  "messageOf e req order messageId exchange routingKey =
     \<lparr>msg_messageId = messageId, msg_bizType = kBizTypeOrderPaid, msg_bizId = pcr_orderNo req,
      msg_exchange = exchange, msg_routingKey = routingKey,
      msg_payload = json_styled e (paidPayload messageId order), msg_retryCount = 0\<rparr>"

definition paidData :: "PaymentCallbackReq \<Rightarrow> json" where
  "paidData req = jset ''status'' (JInt 1) (jset ''orderNo'' (JString (pcr_orderNo req)) JNull)"

text \<open>Step 6: the message in the outbox.\<close>

definition handleCallback_message :: "env \<Rightarrow> PaymentCallbackReq \<Rightarrow> Order \<Rightarrow> unit act" where
  "handleCallback_message e req order =
     bnd (or_throw StdException (jget (custom_config e) ''rabbitmq'')) (\<lambda>rabbitCfg.
       bnd (nextId e) (\<lambda>messageId.
         bnd (or_throw StdException (memberOr rabbitCfg ''exchange'' ''trade.exchange'')) (\<lambda>exchange.
           bnd (or_throw StdException (memberOr rabbitCfg ''routing_key_notify'' ''order.paid'')) (\<lambda>routingKey.
             LocalMessageDao_insert e (messageOf e req order messageId exchange routingKey)))))"

text \<open>
  Step 5: the debit and its flow. The second read of the account is dereferenced unchecked.
\<close>

definition handleCallback_debit :: "env \<Rightarrow> PaymentCallbackReq \<Rightarrow> Order \<Rightarrow> int64 \<Rightarrow> unit act" where
  "handleCallback_debit e req order amountFen =
     bnd (AccountDao_getByUserId e (ord_userId order)) (\<lambda>account.
       case account of
         None \<Rightarrow> throw (BizException kAccountNotFound msg_account_missing)
       | Some a \<Rightarrow>
           bnd (AccountDao_deduct e (acc_accountNo a) amountFen) (\<lambda>affected.
             if affected = 0 then throw (BizException kBalanceNotEnough msg_balance_short)
             else bnd (AccountDao_getByUserId e (ord_userId order)) (\<lambda>after.
               case after of
                 None \<Rightarrow> undefined_behaviour
               | Some a' \<Rightarrow> AccountDao_insertFlow e (flowOf req (acc_accountNo a) amountFen (acc_balanceFen a')))))"

text \<open>Steps 4 to 7, after the payment has been recorded.\<close>

definition handleCallback_settle :: "env \<Rightarrow> PaymentCallbackReq \<Rightarrow> Order \<Rightarrow> int64 \<Rightarrow> json Result act" where
  "handleCallback_settle e req order amountFen =
     bnd (OrderDao_markPaid e (pcr_orderNo req)) (\<lambda>affected.
       if affected = 0
       then bnd (OrderDao_getByOrderNo e (pcr_orderNo req)) (\<lambda>current.
         case current of
           None \<Rightarrow> throw (BizException kOrderStatusInvalid msg_order_status)
         | Some c \<Rightarrow>
             if ord_status c = OrderStatus_kPaid then ret (Result_ok JNull (pcr_requestId req))
             else throw (BizException kOrderStatusInvalid msg_order_status))
       else bnd (handleCallback_debit e req order amountFen) (\<lambda>_.
         bnd (handleCallback_message e req order) (\<lambda>_.
           bnd (TransactionGuard_commit e) (\<lambda>_.
             ret (Result_ok (paidData req) (pcr_requestId req))))))"

text \<open>The scope of the transaction guard: steps 2 and 3, then the settlement.\<close>

definition handleCallback_scope :: "env \<Rightarrow> PaymentCallbackReq \<Rightarrow> string \<Rightarrow> json Result act" where
  "handleCallback_scope e req rawBody =
     bnd (OrderDao_getByOrderNo e (pcr_orderNo req)) (\<lambda>found.
       case found of
         None \<Rightarrow> throw (BizException kOrderNotFound msg_order_missing)
       | Some order \<Rightarrow>
           (case yuanStringToFen (pcr_amount req) of
              None \<Rightarrow> throw (BizException kAmountMismatch msg_amount_mismatch)
            | Some amountFen \<Rightarrow>
                if amountFen \<noteq> ord_totalAmountFen order
                then throw (BizException kAmountMismatch msg_amount_mismatch)
                else bnd (nextId e) (\<lambda>paymentNo.
                  bnd (or_throw StdException (epochToBeijing (pcr_timestamp req))) (\<lambda>callbackTime.
                    bnd (PaymentDao_insertWithDedup e (paymentOf req rawBody paymentNo amountFen callbackTime)) (\<lambda>dedup.
                      if dedup = kPaymentDuplicate
                      then bnd (PaymentDao_getByChannelTradeNo e (pcr_channel req) (pcr_channelTradeNo req)) (\<lambda>existing.
                        case existing of
                          None \<Rightarrow> throw (BizException kChannelTradeConflict msg_trade_conflict)
                        | Some p \<Rightarrow>
                            if pay_orderNo p = pcr_orderNo req then ret (Result_ok JNull (pcr_requestId req))
                            else throw (BizException kChannelTradeConflict msg_trade_conflict))
                      else handleCallback_settle e req order amountFen)))))"

definition handleCallback_catch :: "PaymentCallbackReq \<Rightarrow> exn \<Rightarrow> json Result act" where
  "handleCallback_catch req x =
     (case x of
        BizException code what \<Rightarrow> ret (Result_fail code what (pcr_requestId req))
      | DrogonDbException \<Rightarrow> ret (Result_fail kDbError (toMessage kDbError) (pcr_requestId req))
      | StdException \<Rightarrow> ret (Result_fail kInternalError (toMessage kInternalError) (pcr_requestId req)))"

text \<open>Reading the secret is outside the \<open>try\<close> block.\<close>

definition PaymentService_handleCallback :: "env \<Rightarrow> PaymentCallbackReq \<Rightarrow> string \<Rightarrow> json Result act" where
  "PaymentService_handleCallback e req rawBody =
     (if pcr_channel req \<noteq> kSupportedChannel
      then ret (Result_fail kUnsupportedChannel msg_channel_unsupported (pcr_requestId req))
      else bnd (or_throw StdException (configValue (custom_config e) ''mock_channel'' ''secret'' '''')) (\<lambda>secret.
        if secret = '''' \<or> \<not> verifyMockSign e secret (pcr_orderNo req) (pcr_channelTradeNo req)
                                 (pcr_amount req) (pcr_timestamp req) (pcr_sign req)
        then ret (Result_fail kSignVerifyFailed msg_sign_failed (pcr_requestId req))
        else try_catch (with_guard e (handleCallback_scope e req rawBody)) (handleCallback_catch req)))"

lemmas payment_record_defs = paymentOf_def flowOf_def paidPayload_def messageOf_def paidData_def
lemmas payment_service_defs = handleCallback_message_def handleCallback_debit_def handleCallback_settle_def
  handleCallback_scope_def handleCallback_catch_def PaymentService_handleCallback_def

declare payment_record_defs [eval_simps] payment_service_defs [eval_simps] configValue_def [eval_simps]
  kSupportedChannel_def [eval_simps] kBizTypeOrderPaid_def [eval_simps]

section \<open>Atomicity\<close>

text \<open>The result that reports a payment; a replay is answered without data.\<close>

definition order_settled :: "PaymentCallbackReq \<Rightarrow> json Result \<Rightarrow> bool" where
  "order_settled req r \<longleftrightarrow> r = Result_ok (paidData req) (pcr_requestId req)"

lemma order_settled_simps [simp]:
  "order_settled req (Result_ok (paidData req) (pcr_requestId req))"
  "\<not> order_settled req (Result_ok JNull rid)" "c \<noteq> kSuccess \<Longrightarrow> \<not> order_settled req (Result_fail c m rid)"
  by (simp_all add: order_settled_def paidData_def)

lemma callback_uncommitted [preserves_intro]:
  "preserves (uncommitted d) (OrderDao_getByOrderNo e no)"
  "preserves (uncommitted d) (OrderDao_markPaid e no)"
  "preserves (uncommitted d) (PaymentDao_insertWithDedup e p)"
  "preserves (uncommitted d) (PaymentDao_getByChannelTradeNo e ch tr)"
  "preserves (uncommitted d) (AccountDao_getByUserId e u)"
  "preserves (uncommitted d) (AccountDao_deduct e no q)"
  "preserves (uncommitted d) (AccountDao_insertFlow e flow)"
  "preserves (uncommitted d) (LocalMessageDao_insert e m)"
  unfolding OrderDao_getByOrderNo_def OrderDao_markPaid_def PaymentDao_insertWithDedup_def
    PaymentDao_getByChannelTradeNo_def AccountDao_getByUserId_def AccountDao_deduct_def
    AccountDao_insertFlow_def LocalMessageDao_insert_def
  by (intro preserves_intro)+

lemma atomic_handleCallback_scope: "atomic_body d (order_settled req) (handleCallback_scope e req rawBody)"
  unfolding handleCallback_scope_def handleCallback_settle_def handleCallback_debit_def handleCallback_message_def
  by (intro preserves_intro) simp

text \<open>The exceptions of the transaction; none of them reports success.\<close>

fun payment_error :: "exn \<Rightarrow> bool" where
  "payment_error (BizException c what) \<longleftrightarrow>
     c \<in> {kOrderNotFound, kAmountMismatch, kChannelTradeConflict, kOrderStatusInvalid, kAccountNotFound, kBalanceNotEnough}"
| "payment_error x \<longleftrightarrow> True"

lemma raises_handleCallback_scope: "raises_only payment_error (handleCallback_scope e req rawBody)"
  unfolding handleCallback_scope_def handleCallback_settle_def handleCallback_debit_def handleCallback_message_def
    OrderDao_getByOrderNo_def OrderDao_markPaid_def PaymentDao_insertWithDedup_def
    PaymentDao_getByChannelTradeNo_def AccountDao_getByUserId_def AccountDao_deduct_def
    AccountDao_insertFlow_def LocalMessageDao_insert_def
  by (intro preserves_intro) simp_all

text \<open>The codes of answers that changed nothing.\<close>

definition rejection_codes :: "ErrCode set" where
  "rejection_codes = {kUnsupportedChannel, kSignVerifyFailed, kOrderNotFound, kAmountMismatch, kChannelTradeConflict,
     kOrderStatusInvalid, kAccountNotFound, kBalanceNotEnough, kDbError, kInternalError}"

text \<open>A callback of the channel that carries the right signature under the configured secret.\<close>

definition callback_signed :: "env \<Rightarrow> PaymentCallbackReq \<Rightarrow> bool" where
  "callback_signed e req \<longleftrightarrow> pcr_channel req = ''MOCK'' \<and>
     (\<exists>secret. configValue (custom_config e) ''mock_channel'' ''secret'' '''' = Some secret \<and> secret \<noteq> '''' \<and>
        pcr_sign req = right_signature e secret (pcr_orderNo req) (pcr_channelTradeNo req) (pcr_amount req) (pcr_timestamp req))"

lemma callback_signed_guard:
  "callback_signed e req \<longleftrightarrow> pcr_channel req = kSupportedChannel \<and>
     (\<exists>secret. configValue (custom_config e) ''mock_channel'' ''secret'' '''' = Some secret \<and> secret \<noteq> '''' \<and>
        verifyMockSign e secret (pcr_orderNo req) (pcr_channelTradeNo req) (pcr_amount req) (pcr_timestamp req) (pcr_sign req))"
  by (simp add: callback_signed_def kSupportedChannel_def verifyMockSign_right)

lemma handleCallback_signed:
  "callback_signed e req \<Longrightarrow> PaymentService_handleCallback e req rawBody =
     try_catch (with_guard e (handleCallback_scope e req rawBody)) (handleCallback_catch req)"
  by (auto simp: callback_signed_guard PaymentService_handleCallback_def or_throw_def)

lemma handleCallback_cases:
  assumes "PaymentService_handleCallback e req rawBody w = Some (r, w')"
  obtains (misconfigured) "r = Inl StdException" "w' = w" "configValue (custom_config e) ''mock_channel'' ''secret'' '''' = None"
    | (forged) c m where "\<not> callback_signed e req" "r = Inr (Result_fail c m (pcr_requestId req))" "c \<in> {kUnsupportedChannel, kSignVerifyFailed}" "w' = w"
    | (failed) c m where "callback_signed e req" "r = Inr (Result_fail c m (pcr_requestId req))" "c \<in> rejection_codes" "w_db w' = w_db w"
    | (entered) res w1 w2 where "callback_signed e req" "r = Inr res"
        "w1 = w\<lparr>w_tx := w_db w, w_sql := Suc (w_sql w), w_finished := False\<rparr>"
        "handleCallback_scope e req rawBody w1 = Some (Inr res, w2)" "w' = TransactionGuard_dtor w2"
proof (cases "callback_signed e req")
  case False
  with assms misconfigured forged show ?thesis
    by (auto simp: PaymentService_handleCallback_def callback_signed_guard eff_simps or_throw_def throw_def ret_def split: option.splits if_splits)
next
  case True
  with assms have "try_catch (with_guard e (handleCallback_scope e req rawBody)) (handleCallback_catch req) w = Some (r, w')"
    by (simp add: handleCallback_signed)
  from this [unfolded try_catch_eq] consider
      x u where "with_guard e (handleCallback_scope e req rawBody) w = Some (Inl x, u)" "handleCallback_catch req x u = Some (r, w')"
    | res where "with_guard e (handleCallback_scope e req rawBody) w = Some (Inr res, w')" "r = Inr res"
    by blast
  then show ?thesis
  proof cases
    case 1
    have "raises_only payment_error (with_guard e (handleCallback_scope e req rawBody))"
      by (intro preserves_intro raises_handleCallback_scope) simp_all
    from raises_onlyD [OF this 1(1)] have "payment_error x" .
    moreover have "w_db u = w_db w"
      using with_guard_atomic [OF 1(1) atomic_handleCallback_scope] by simp
    ultimately have "\<exists>c m. r = Inr (Result_fail c m (pcr_requestId req)) \<and> c \<in> rejection_codes \<and> w_db w' = w_db w"
      using 1(2) by (cases x) (auto simp: handleCallback_catch_def eff_simps rejection_codes_def)
    then show ?thesis using failed True by blast
  next
    case 2
    from 2(1) show ?thesis
    proof (cases rule: with_guard_cases)
      case (entered w1 w2)
      with 2(2) True that(4) show ?thesis by blast
    qed simp
  qed
qed

section \<open>The successful run\<close>

text \<open>The database after a payment, the abstract effect of the transaction.\<close>

definition paid_db :: "env \<Rightarrow> string \<Rightarrow> nat \<Rightarrow> string \<Rightarrow> int \<Rightarrow> payment_row \<Rightarrow> flow_row \<Rightarrow> message_row \<Rightarrow> db \<Rightarrow> db" where
  "paid_db e orderNo n accountNo amountFen payment flow message d =
     d\<lparr>t_payment := t_payment d @ [payment], t_order := t_order (pay_order e orderNo n d),
       t_account := t_account (debit e accountNo amountFen d),
       t_account_flow := t_account_flow d @ [flow], t_local_message := t_local_message d @ [message]\<rparr>"


text \<open>The new rows, for the order row \<open>o\<close> and the account row \<open>a\<close> the transaction found.\<close>

definition paid_payment :: "PaymentCallbackReq \<Rightarrow> order_row \<Rightarrow> payment_row \<Rightarrow> bool" where
  "paid_payment req ord p \<longleftrightarrow> ty_order_no p = pcr_orderNo req \<and> ty_channel p = pcr_channel req \<and>
     ty_channel_trade_no p = pcr_channelTradeNo req \<and> ty_amount p = to_total_amount ord \<and> ty_status p = 1"

definition paid_flow :: "PaymentCallbackReq \<Rightarrow> order_row \<Rightarrow> account_row \<Rightarrow> flow_row \<Rightarrow> bool" where
  "paid_flow req ord a f \<longleftrightarrow> tf_account_no f = ta_account_no a \<and> tf_biz_type f = 2 \<and> tf_direction f = 2 \<and>
     tf_amount f = to_total_amount ord \<and> tf_order_no f = pcr_orderNo req \<and> tf_request_id f = pcr_requestId req \<and>
     (ta_balance a < 10 ^ 18 \<longrightarrow>
        tf_before_balance f = ta_balance a \<and> tf_after_balance f = ta_balance a - to_total_amount ord)"

definition paid_message :: "env \<Rightarrow> PaymentCallbackReq \<Rightarrow> order_row \<Rightarrow> message_row \<Rightarrow> bool" where
  "paid_message e req ord m \<longleftrightarrow> tl_biz_type m = kBizTypeOrderPaid \<and> tl_biz_id m = pcr_orderNo req \<and>
     tl_status m = 0 \<and> tl_retry_count m = 0 \<and>
     tl_payload m = json_styled e (paidPayload (tl_message_id m) (order_of_row e ord))"

lemma order_of_row_simps [simp]:
  "ord_userId (order_of_row e r) = word_of_int (to_user_id r)" "ord_totalAmountFen (order_of_row e r) = to_total_amount r"
  "ord_orderNo (order_of_row e r) = to_order_no r" "ord_status (order_of_row e r) = OrderStatus_cast (to_status r)"
  by (simp_all add: order_of_row_def)

lemma handleCallback_message_success:
  assumes "handleCallback_message e req (order_of_row e ord) w = Some (Inr u, w')"
  obtains m where "paid_message e req ord m" "w_db w' = w_db w"
    "w_tx w' = (w_tx w)\<lparr>t_local_message := t_local_message (w_tx w) @ [m]\<rparr>" 
    "w_finished w' = w_finished w"
proof -
  from assms obtain mid ex rk n where
    "w_tx w' = (w_tx w)\<lparr>t_local_message := t_local_message (w_tx w) @ [message_row_for e (messageOf e req (order_of_row e ord) mid ex rk) n]\<rparr>"
    "w_db w' = w_db w" "w_finished w' = w_finished w"
    by (auto simp: handleCallback_message_def eff_simps LocalMessageDao_insert_def sql_insertMessage_def split: option.splits if_splits)
  then show ?thesis by (intro that) (auto simp: paid_message_def message_row_for_def messageOf_def)
qed

lemma account_row_of_debit:
  assumes "account_row_of u d = Some a" and "account_ok e (t_account d)"
  shows "account_row_of u (debit e (ta_account_no a) q d) =
    Some (a\<lparr>ta_balance := ta_balance a - q, ta_version := ta_version a + 1\<rparr>)"
  using assms by (simp add: account_row_of_def debit_def first_where_map_if first_where_Some)

lemma spendable_user:
  assumes "account_row_of u d = Some a" and "account_ok e (t_account d)"
  shows "spendable e (ta_account_no a) d = (if ta_status a = 0 then Some (ta_balance a) else None)"
proof -
  from assms have "account_row_no e (ta_account_no a) d = Some a"
    using first_where_Some [of "\<lambda>r. ta_user_id r = sint u" "t_account d" a]
    by (simp add: account_row_no_def account_row_of_def account_ok_def first_where_unique)
  then show ?thesis by (simp add: spendable_def)
qed

lemma handleCallback_debit_success:
  assumes run: "handleCallback_debit e req (order_of_row e ord) (to_total_amount ord) w = Some (Inr u, w')"
    and ok: "account_ok e (t_account (w_tx w))" and amount: "\<bar>to_total_amount ord\<bar> < 10 ^ 18"
  obtains a f where "account_row_of (word_of_int (to_user_id ord)) (w_tx w) = Some a" "ta_status a = 0"
    "to_total_amount ord \<le> ta_balance a" "0 < to_total_amount ord" "paid_flow req ord a f"
    "\<forall>r \<in> set (t_account_flow (w_tx w)). ckey e (tf_request_id r) \<noteq> ckey e (pcr_requestId req) \<or> tf_biz_type r \<noteq> 2"
    "w_tx w' = (debit e (ta_account_no a) (to_total_amount ord) (w_tx w))\<lparr>t_account_flow := t_account_flow (w_tx w) @ [f]\<rparr>"
    "w_db w' = w_db w" "w_finished w' = w_finished w"
proof -
  from run ok amount obtain a where a: "account_row_of (word_of_int (to_user_id ord)) (w_tx w) = Some a"
    "ta_status a = 0" "to_total_amount ord \<le> ta_balance a" and w': "w_db w' = w_db w" "w_finished w' = w_finished w"
    and ins: "\<exists>n. sql_insertFlow e (flowOf req (ta_account_no a) (to_total_amount ord) (ta_balance a - to_total_amount ord)) n
      (debit e (ta_account_no a) (to_total_amount ord) (w_tx w)) = Some (w_tx w', ())"
    by (auto simp: handleCallback_debit_def eff_simps AccountDao_getByUserId_def query_def Let_def
        account_of_row_def AccountDao_deduct_def sql_deduct_def account_dec_eq spendable_user account_row_of_debit
        AccountDao_insertFlow_def split: option.splits if_splits; blast)
  let ?f = "flow_row_for e (flowOf req (ta_account_no a) (to_total_amount ord) (ta_balance a - to_total_amount ord))"
  from ins have "w_tx w' = (debit e (ta_account_no a) (to_total_amount ord) (w_tx w))\<lparr>t_account_flow := t_account_flow (w_tx w) @ [?f]\<rparr>"
    "0 < tf_amount ?f" "\<forall>r \<in> set (t_account_flow (w_tx w)). ckey e (tf_request_id r) \<noteq> ckey e (pcr_requestId req) \<or> tf_biz_type r \<noteq> 2"
    by (auto simp: sql_insertFlow_def list_ex_iff sql_eq_def flowOf_def debit_def split: if_splits)
  moreover from this(2) amount a(3) have "paid_flow req ord a ?f"
    by (simp add: paid_flow_def flow_row_for_def flowOf_def in_i64_def)
  moreover from calculation(2) amount have "0 < to_total_amount ord" by (simp add: flow_row_for_def flowOf_def)
  ultimately show ?thesis using a w' that by blast
qed

lemma handleCallback_settle_success:
  assumes run: "handleCallback_settle e req (order_of_row e ord) (to_total_amount ord) w = Some (Inr res, w')"
    and settled: "order_settled req res"
    and ok: "order_ok e (t_order (w_tx w))" "account_ok e (t_account (w_tx w))" and amount: "\<bar>to_total_amount ord\<bar> < 10 ^ 18"
  obtains a f m n where "order_pending e (pcr_orderNo req) (w_tx w)"
    "account_row_of (word_of_int (to_user_id ord)) (w_tx w) = Some a" "ta_status a = 0"
    "to_total_amount ord \<le> ta_balance a" "0 < to_total_amount ord"
    "paid_flow req ord a f" "paid_message e req ord m"
    "\<forall>r \<in> set (t_account_flow (w_tx w)). ckey e (tf_request_id r) \<noteq> ckey e (pcr_requestId req) \<or> tf_biz_type r \<noteq> 2"
    "w_db w' = (w_tx w)\<lparr>t_order := t_order (pay_order e (pcr_orderNo req) n (w_tx w)),
       t_account := t_account (debit e (ta_account_no a) (to_total_amount ord) (w_tx w)),
       t_account_flow := t_account_flow (w_tx w) @ [f], t_local_message := t_local_message (w_tx w) @ [m]\<rparr>"
proof -
  from run settled obtain w1 w2 w3 where
    mark: "OrderDao_markPaid e (pcr_orderNo req) w = Some (Inr 1, w1)" and
    deb: "handleCallback_debit e req (order_of_row e ord) (to_total_amount ord) w1 = Some (Inr (), w2)" and
    msg: "handleCallback_message e req (order_of_row e ord) w2 = Some (Inr (), w3)" and w': "w_db w' = w_tx w3"
    using ok(1)
    by (auto simp: handleCallback_settle_def eff_simps OrderDao_markPaid_def sql_markPaid_def order_markPaid_eq
      split: if_splits option.splits)
  from mark ok(1) have pend: "order_pending e (pcr_orderNo req) (w_tx w)"
    and w1: "w_tx w1 = pay_order e (pcr_orderNo req) (w_sql w) (w_tx w)"
    by (auto simp: eff_simps OrderDao_markPaid_def sql_markPaid_def order_markPaid_eq split: if_splits)
  from w1 ok(2) have "account_ok e (t_account (w_tx w1))" by (simp add: pay_order_def)
  from deb this amount show ?thesis
  proof (cases rule: handleCallback_debit_success)
    case (1 a f)
    from msg show ?thesis
    proof (cases rule: handleCallback_message_success)
      case (1 m)
      have "w_db w' = (w_tx w)\<lparr>t_order := t_order (pay_order e (pcr_orderNo req) (w_sql w) (w_tx w)),
       t_account := t_account (debit e (ta_account_no a) (to_total_amount ord) (w_tx w)),
       t_account_flow := t_account_flow (w_tx w) @ [f], t_local_message := t_local_message (w_tx w) @ [m]\<rparr>"
        using 1(3) w' w1 \<open>w_tx w2 = _\<close> by (simp add: pay_order_def debit_def)
      with 1(1) \<open>account_row_of _ _ = _\<close> \<open>ta_status a = 0\<close> \<open>to_total_amount ord \<le> _\<close> \<open>0 < _\<close> \<open>paid_flow _ _ _ _\<close>
        \<open>\<forall>r \<in> _. _\<close> pend w1 show ?thesis
        by (intro that [of a f m "w_sql w"]) (simp_all add: pay_order_def account_row_of_def)
    qed
  qed
qed

lemma handleCallback_scope_success:
  assumes run: "handleCallback_scope e req rawBody w = Some (Inr res, w')"
    and settled: "order_settled req res" and ok: "schema_ok e (w_tx w)"
  obtains ord a p f m n where "order_row_of e (pcr_orderNo req) (w_tx w) = Some ord" "to_status ord = 0"
    "yuanStringToFen (pcr_amount req) = Some (to_total_amount ord)"
    "account_row_of (word_of_int (to_user_id ord)) (w_tx w) = Some a" "ta_status a = 0"
    "to_total_amount ord \<le> ta_balance a" "0 < to_total_amount ord"
    "paid_payment req ord p" "paid_flow req ord a f" "paid_message e req ord m"
    "payment_row_of e (pcr_channel req) (pcr_channelTradeNo req) (w_tx w) = None"
    "\<forall>r \<in> set (t_account_flow (w_tx w)). ckey e (tf_request_id r) \<noteq> ckey e (pcr_requestId req) \<or> tf_biz_type r \<noteq> 2"
    "w_db w' = paid_db e (pcr_orderNo req) n (ta_account_no a) (to_total_amount ord) p f m (w_tx w)"
proof -
  from run settled obtain ord no cb callback g k n d where
    ord: "order_row_of e (pcr_orderNo req) (w_tx w) = Some ord"
      "yuanStringToFen (pcr_amount req) = Some (to_total_amount ord)" and
    ins: "payment_ins e (payment_row_for e (paymentOf req rawBody no (to_total_amount ord) cb) callback) (w_tx w) = (d, Suc 0)" and
    settle: "handleCallback_settle e req (order_of_row e ord) (to_total_amount ord)
      (w\<lparr>w_gen := g, w_clk := k, w_tx := d, w_sql := n\<rparr>) = Some (Inr res, w')"
    by (auto simp: handleCallback_scope_def eff_simps OrderDao_getByOrderNo_def query_def PaymentDao_insertWithDedup_def
      sql_insertPayment_def PaymentDao_getByChannelTradeNo_def split: option.splits if_splits; blast)
  let ?p = "payment_row_for e (paymentOf req rawBody no (to_total_amount ord) cb) callback"
  have amount: "\<bar>to_total_amount ord\<bar> < 10 ^ 18" using yuanStringToFen_bound [OF ord(2)] by simp
  from ins have w2: "d = (w_tx w)\<lparr>t_payment := t_payment (w_tx w) @ [?p]\<rparr>"
    by (auto simp: payment_ins_def split: if_splits)
  have new: "payment_row_of e (pcr_channel req) (pcr_channelTradeNo req) (w_tx w) = None"
    using trades.ins_dup [of e ?p "w_tx w"] ins by (force simp: payment_row_of_lookup trade_key_def payment_row_for_def paymentOf_def)
  have p: "paid_payment req ord ?p" using amount by (simp add: paid_payment_def payment_row_for_def paymentOf_def)
  from ok w2 have "order_ok e (t_order d)" "account_ok e (t_account d)" by (simp_all add: schema_ok_def)
  then have "order_ok e (t_order (w_tx (w\<lparr>w_gen := g, w_clk := k, w_tx := d, w_sql := n\<rparr>)))"
    "account_ok e (t_account (w_tx (w\<lparr>w_gen := g, w_clk := k, w_tx := d, w_sql := n\<rparr>)))" by simp_all
  from settle settled this amount show ?thesis
  proof (cases rule: handleCallback_settle_success)
    case (1 a f m n)
    from 1(1) ord(1) w2 have "to_status ord = 0" by (simp add: order_pending_def order_row_of_def)
    moreover from 1(9) have "w_db w' = paid_db e (pcr_orderNo req) n (ta_account_no a) (to_total_amount ord) ?p f m (w_tx w)"
      by (simp add: w2 paid_db_def pay_order_def debit_def)
    moreover from 1(2) w2 have "account_row_of (word_of_int (to_user_id ord)) (w_tx w) = Some a" by (simp add: account_row_of_def)
    ultimately show ?thesis using 1 w2 ord p new by (intro that [of ord a ?p f m n]) simp_all
  qed
qed

section \<open>All outcomes\<close>

lemma handleCallback_paid:
  assumes run: "PaymentService_handleCallback e req rawBody w = Some (r, w')" and r: "r = Inr res" "order_settled req res"
    and ok: "schema_ok e (w_db w)"
  obtains ord a p f m n where "callback_signed e req" "order_row_of e (pcr_orderNo req) (w_db w) = Some ord" "to_status ord = 0"
    "yuanStringToFen (pcr_amount req) = Some (to_total_amount ord)"
    "account_row_of (word_of_int (to_user_id ord)) (w_db w) = Some a" "ta_status a = 0"
    "to_total_amount ord \<le> ta_balance a" "0 < to_total_amount ord"
    "paid_payment req ord p" "paid_flow req ord a f" "paid_message e req ord m"
    "payment_row_of e (pcr_channel req) (pcr_channelTradeNo req) (w_db w) = None"
    "\<forall>r \<in> set (t_account_flow (w_db w)). ckey e (tf_request_id r) \<noteq> ckey e (pcr_requestId req) \<or> tf_biz_type r \<noteq> 2"
    "w_db w' = paid_db e (pcr_orderNo req) n (ta_account_no a) (to_total_amount ord) p f m (w_db w)"
  using run
proof (cases rule: handleCallback_cases)
  case misconfigured
  with r show ?thesis by simp
next
  case (forged c m)
  with r show ?thesis by auto
next
  case (failed c m)
  with r show ?thesis by (auto simp: rejection_codes_def)
next
  case (entered res' w1 w2)
  then have w1: "w_tx w1 = w_db w" and w': "w_db w' = w_db w2" and scope: "handleCallback_scope e req rawBody w1 = Some (Inr res, w2)"
    using r by simp_all
  with ok have "schema_ok e (w_tx w1)" by simp
  from scope r(2) this show ?thesis
  proof (cases rule: handleCallback_scope_success)
    case (1 ord a p f m n)
    with that entered(1) w1 w' show ?thesis by simp
  qed
qed

lemma handleCallback_unsettled:
  assumes run: "PaymentService_handleCallback e req rawBody w = Some (r, w')" and "\<not> (\<exists>res. r = Inr res \<and> order_settled req res)"
  shows "w_db w' = w_db w"
  using run
proof (cases rule: handleCallback_cases)
  case (entered res w1 w2)
  then have "uncommitted (w_db w) w1" by simp
  with entered atomic_handleCallback_scope [of "w_db w" req e rawBody, unfolded atomic_body_def] assms(2) show ?thesis
    by fastforce
qed simp_all

lemma handleCallback_keeps:
  assumes "\<And>no. stmt_keeps P (sql_markPaid e no)" and "\<And>p. stmt_keeps P (sql_insertPayment e p)"
    and "\<And>no q. stmt_keeps P (sql_deduct e no q)" and "\<And>flow. stmt_keeps P (sql_insertFlow e flow)"
    and "\<And>m. stmt_keeps P (sql_insertMessage e m)"
  shows "preserves (committed P) (PaymentService_handleCallback e req rawBody)"
  unfolding payment_service_defs OrderDao_getByOrderNo_def OrderDao_markPaid_def PaymentDao_insertWithDedup_def
    PaymentDao_getByChannelTradeNo_def AccountDao_getByUserId_def AccountDao_deduct_def
    AccountDao_insertFlow_def LocalMessageDao_insert_def
  by (intro preserves_intro assms) (auto split: exn.split intro: preserves_intro)

lemma schema_handleCallback: "preserves (committed (schema_ok e)) (PaymentService_handleCallback e req rawBody)"
  by (intro handleCallback_keeps preserves_intro)

section \<open>Runs without faults\<close>

lemma payment_dao_runs:
  assumes "healthy_from e n" and "n \<le> w_sql w"
  shows
    "OrderDao_getByOrderNo e no w = Some (Inr (map_option (order_of_row e) (order_row_of e no (w_tx w))), w\<lparr>w_sql := Suc (w_sql w)\<rparr>)"
    "PaymentDao_getByChannelTradeNo e ch tr w =
       Some (Inr (map_option payment_of_row (payment_row_of e ch tr (w_tx w))), w\<lparr>w_sql := Suc (w_sql w)\<rparr>)"
    "AccountDao_getByUserId e u w = Some (Inr (map_option account_of_row (account_row_of u (w_tx w))), w\<lparr>w_sql := Suc (w_sql w)\<rparr>)"
    "OrderDao_markPaid e no w = Some (Inr (snd (order_markPaid e no (w_sql w) (w_tx w))),
       w\<lparr>w_tx := fst (order_markPaid e no (w_sql w) (w_tx w)), w_sql := Suc (w_sql w)\<rparr>)"
    "AccountDao_deduct e acc q w = Some (Inr (snd (account_dec e acc q (w_tx w))),
       w\<lparr>w_tx := fst (account_dec e acc q (w_tx w)), w_sql := Suc (w_sql w)\<rparr>)"
    "sql_insertPayment e p (w_sql w) (w_tx w) = Some (d, k) \<Longrightarrow>
     PaymentDao_insertWithDedup e p w =
       Some (Inr (if k = 1 then kPaymentInserted else kPaymentDuplicate), w\<lparr>w_tx := d, w_sql := Suc (w_sql w)\<rparr>)"
    "sql_insertFlow e flow (w_sql w) (w_tx w) = Some (d, ()) \<Longrightarrow>
     AccountDao_insertFlow e flow w = Some (Inr (), w\<lparr>w_tx := d, w_sql := Suc (w_sql w)\<rparr>)"
    "sql_insertMessage e m (w_sql w) (w_tx w) = Some (d, ()) \<Longrightarrow>
     LocalMessageDao_insert e m w = Some (Inr (), w\<lparr>w_tx := d, w_sql := Suc (w_sql w)\<rparr>)"
    "\<not> w_finished w \<Longrightarrow> TransactionGuard_commit e w =
       Some (Inr (), w\<lparr>w_db := w_tx w, w_finished := True, w_sql := Suc (w_sql w)\<rparr>)"
  using healthy_fromD [OF assms]
  by (simp_all add: OrderDao_getByOrderNo_def PaymentDao_getByChannelTradeNo_def AccountDao_getByUserId_def query_def
      execSqlSync_tx_def OrderDao_markPaid_def sql_markPaid_def AccountDao_deduct_def sql_deduct_def
      PaymentDao_insertWithDedup_def bnd_def ret_def AccountDao_insertFlow_def LocalMessageDao_insert_def
      TransactionGuard_commit_def split: prod.split)

text \<open>
  A signed callback on a healthy server that can draw its payment number; and one whose timestamp is
  readable besides.
\<close>

definition callback_entered :: "env \<Rightarrow> PaymentCallbackReq \<Rightarrow> string \<Rightarrow> idgen \<Rightarrow> nat \<Rightarrow> world \<Rightarrow> bool" where
  "callback_entered e req no g k w \<longleftrightarrow> healthy_from e (w_sql w) \<and> callback_signed e req \<and>
     IdGenerator_nextId (clock_ns e) (w_gen w, w_clk w) = Some (Inr no, g, k)"

definition callback_ready :: "env \<Rightarrow> PaymentCallbackReq \<Rightarrow> string \<Rightarrow> idgen \<Rightarrow> nat \<Rightarrow> world \<Rightarrow> bool" where
  "callback_ready e req no g k w \<longleftrightarrow> healthy_from e (w_sql w) \<and> callback_signed e req \<and>
     IdGenerator_nextId (clock_ns e) (w_gen w, w_clk w) = Some (Inr no, g, k) \<and>
     (\<exists>t c. epochToBeijing (pcr_timestamp req) = Some t \<and> dt_parse e t = Some c)"

lemma callback_ready_entered: "callback_ready e req no g k w \<Longrightarrow> callback_entered e req no g k w"
  by (simp add: callback_ready_def callback_entered_def)

lemma handleCallback_run:
  "healthy_from e (w_sql w) \<Longrightarrow> callback_signed e req \<Longrightarrow> PaymentService_handleCallback e req rawBody w =
     try_catch (\<lambda>_. map_option (\<lambda>(r, u). (r, TransactionGuard_dtor u))
       (handleCallback_scope e req rawBody (w\<lparr>w_tx := w_db w, w_sql := Suc (w_sql w), w_finished := False\<rparr>)))
       (handleCallback_catch req) w"
  by (simp add: handleCallback_signed try_catch_def with_guard_run)

text \<open>
  The decision of a callback as a function of tables and configuration, in the order in which the code
  tests: the branches before the payment is recorded, and those after. \<open>None\<close> means that the callback
  goes on. An unreadable timestamp is an exception of the conversion or of the server; an amount that
  is not positive and a request identifier that already has a flow are refused by the constraints of
  the flow table, after the debit; an unreadable broker configuration throws when the message is made.
\<close>

definition early_outcome :: "env \<Rightarrow> PaymentCallbackReq \<Rightarrow> db \<Rightarrow> (exn + json Result) option" where
  "early_outcome e req d =
     (case order_row_of e (pcr_orderNo req) d of
        None \<Rightarrow> Some (Inl (BizException kOrderNotFound msg_order_missing))
      | Some ord \<Rightarrow>
          if yuanStringToFen (pcr_amount req) \<noteq> Some (to_total_amount ord)
          then Some (Inl (BizException kAmountMismatch msg_amount_mismatch))
          else (case epochToBeijing (pcr_timestamp req) of
                  None \<Rightarrow> Some (Inl StdException)
                | Some t \<Rightarrow>
                    if dt_parse e t = None then Some (Inl DrogonDbException)
                    else (case payment_row_of e (pcr_channel req) (pcr_channelTradeNo req) d of
                            None \<Rightarrow> None
                          | Some p \<Rightarrow> if ty_order_no p = pcr_orderNo req then Some (Inr (Result_ok JNull (pcr_requestId req)))
                                      else Some (Inl (BizException kChannelTradeConflict msg_trade_conflict)))))"

definition flow_used :: "env \<Rightarrow> PaymentCallbackReq \<Rightarrow> db \<Rightarrow> bool" where
  "flow_used e req d \<longleftrightarrow> list_ex (\<lambda>f. ckey e (tf_request_id f) = ckey e (pcr_requestId req) \<and> tf_biz_type f = 2) (t_account_flow d)"

definition broker_config :: "env \<Rightarrow> (string \<times> string) option" where
  "broker_config e =
     (case jget (custom_config e) ''rabbitmq'' of
        None \<Rightarrow> None
      | Some cfg \<Rightarrow>
          (case memberOr cfg ''exchange'' ''trade.exchange'' of
             None \<Rightarrow> None
           | Some ex \<Rightarrow> map_option (Pair ex) (memberOr cfg ''routing_key_notify'' ''order.paid'')))"

definition late_outcome :: "env \<Rightarrow> PaymentCallbackReq \<Rightarrow> order_row \<Rightarrow> db \<Rightarrow> (exn + json Result) option" where
  "late_outcome e req ord d =
     (if to_status ord = 1 then Some (Inr (Result_ok JNull (pcr_requestId req)))
      else if to_status ord \<noteq> 0 then Some (Inl (BizException kOrderStatusInvalid msg_order_status))
      else case account_row_of (word_of_int (to_user_id ord)) d of
             None \<Rightarrow> Some (Inl (BizException kAccountNotFound msg_account_missing))
           | Some a \<Rightarrow>
               if ta_status a \<noteq> 0 \<or> ta_balance a < to_total_amount ord
               then Some (Inl (BizException kBalanceNotEnough msg_balance_short))
               else if to_total_amount ord \<le> 0 \<or> flow_used e req d then Some (Inl DrogonDbException)
               else if broker_config e = None then Some (Inl StdException)
               else None)"

definition callback_outcome :: "env \<Rightarrow> PaymentCallbackReq \<Rightarrow> db \<Rightarrow> (exn + json Result) option" where
  "callback_outcome e req d =
     (case early_outcome e req d of
        Some r \<Rightarrow> Some r
      | None \<Rightarrow> (case order_row_of e (pcr_orderNo req) d of None \<Rightarrow> None | Some ord \<Rightarrow> late_outcome e req ord d))"

fun answer_of :: "PaymentCallbackReq \<Rightarrow> exn + json Result \<Rightarrow> json Result" where
  "answer_of req (Inr res) = res"
| "answer_of req (Inl (BizException c m)) = Result_fail c m (pcr_requestId req)"
| "answer_of req (Inl DrogonDbException) = Result_fail kDbError (toMessage kDbError) (pcr_requestId req)"
| "answer_of req (Inl StdException) = Result_fail kInternalError (toMessage kInternalError) (pcr_requestId req)"

lemma early_outcome_None:
  assumes "early_outcome e req d = None"
  obtains ord where "order_row_of e (pcr_orderNo req) d = Some ord" "yuanStringToFen (pcr_amount req) = Some (to_total_amount ord)"
    "payment_row_of e (pcr_channel req) (pcr_channelTradeNo req) d = None"
    "\<exists>t c. epochToBeijing (pcr_timestamp req) = Some t \<and> dt_parse e t = Some c"
  using assms by (auto simp: early_outcome_def split: option.splits if_splits)

lemma payment_ins_new:
  assumes "payment_row_of e (ty_channel row) (ty_channel_trade_no row) d = None"
    and "\<forall>r \<in> set (t_payment d). ckey e (ty_payment_no r) \<noteq> ckey e (ty_payment_no row)"
  shows "payment_ins e row d = (d\<lparr>t_payment := t_payment d @ [row]\<rparr>, 1)"
  using assms by (auto simp: payment_ins_def payment_row_of_def first_where_None list_ex_iff sql_eq_def)

lemma payment_ins_known:
  assumes "payment_row_of e (ty_channel row) (ty_channel_trade_no row) d \<noteq> None"
  shows "payment_ins e row d = (d, 0)"
  using trades.ins_dup [of e row d] assms by (simp add: payment_row_of_lookup trade_key_def)

lemma account_row_of_frame [simp]:
  "account_row_of u (d\<lparr>t_payment := ps\<rparr>) = account_row_of u d" "account_row_of u (pay_order e no n d) = account_row_of u d"
  "order_row_of e no (d\<lparr>t_payment := ps\<rparr>) = order_row_of e no d"
  "t_account (pay_order e no n d) = t_account d" "t_payment (pay_order e no n d) = t_payment d"
  by (simp_all add: account_row_of_def order_row_of_def pay_order_def)

lemma late_outcome_frame [simp]:
  "late_outcome e req ord (d\<lparr>t_payment := ps\<rparr>) = late_outcome e req ord d"
  "flow_used e req (d\<lparr>t_payment := ps\<rparr>) = flow_used e req d" "flow_used e req (pay_order e' no n d) = flow_used e req d"
  by (simp_all add: late_outcome_def flow_used_def pay_order_def)

text \<open>The write part of a callback, statement by statement.\<close>

lemma sql_insertFlow_payment:
  assumes "\<bar>q\<bar> < 10 ^ 18"
  shows "sql_insertFlow e (flowOf req accountNo q after) n d =
    (if q \<le> 0 \<or> flow_used e req d then None
     else Some (d\<lparr>t_account_flow := t_account_flow d @ [flow_row_for e (flowOf req accountNo q after)]\<rparr>, ()))"
  using assms by (simp add: sql_insertFlow_def flow_used_def flow_row_for_def flowOf_def sql_eq_def)

lemma handleCallback_debit_run:
  assumes healthy: "healthy_from e n" "n \<le> w_sql w" and ok: "account_ok e (t_account (w_tx w))"
    and a: "account_row_of (word_of_int (to_user_id ord)) (w_tx w) = Some a" "ta_status a = 0" "to_total_amount ord \<le> ta_balance a"
    and q: "\<bar>to_total_amount ord\<bar> < 10 ^ 18"
  obtains f where "handleCallback_debit e req (order_of_row e ord) (to_total_amount ord) w =
    (if to_total_amount ord \<le> 0 \<or> flow_used e req (w_tx w)
     then Some (Inl DrogonDbException, w\<lparr>w_tx := debit e (ta_account_no a) (to_total_amount ord) (w_tx w),
       w_sql := Suc (Suc (Suc (Suc (w_sql w))))\<rparr>)
     else Some (Inr (), w\<lparr>w_tx := (debit e (ta_account_no a) (to_total_amount ord) (w_tx w))\<lparr>t_account_flow := t_account_flow (w_tx w) @ [f]\<rparr>,
       w_sql := Suc (Suc (Suc (Suc (w_sql w))))\<rparr>))"
proof -
  let ?d = "debit e (ta_account_no a) (to_total_amount ord) (w_tx w)"
  let ?flow = "flowOf req (ta_account_no a) (to_total_amount ord) (ta_balance a - to_total_amount ord)"
  have dec: "account_dec e (ta_account_no a) (to_total_amount ord) (w_tx w) = (?d, 1)"
    using ok a q by (simp add: account_dec_eq spendable_user)
  have frame: "flow_used e req ?d = flow_used e req (w_tx w)" "t_account_flow ?d = t_account_flow (w_tx w)"
    by (simp_all add: flow_used_def debit_def)
  have ins: "AccountDao_insertFlow e ?flow (w\<lparr>w_tx := ?d, w_sql := m\<rparr>) =
      (if to_total_amount ord \<le> 0 \<or> flow_used e req (w_tx w)
       then Some (Inl DrogonDbException, w\<lparr>w_tx := ?d, w_sql := Suc m\<rparr>)
       else Some (Inr (), w\<lparr>w_tx := ?d\<lparr>t_account_flow := t_account_flow (w_tx w) @ [flow_row_for e ?flow]\<rparr>, w_sql := Suc m\<rparr>))"
    if "n \<le> m" for m
    using healthy_fromD [OF healthy(1) that]
    by (simp add: AccountDao_insertFlow_def execSqlSync_tx_def sql_insertFlow_payment [OF q] frame)
  show ?thesis
    using healthy(2) a ok dec ins account_row_of_debit [OF a(1) ok, of "to_total_amount ord"]
    by (intro that [of "flow_row_for e ?flow"])
       (simp add: handleCallback_debit_def bnd_def payment_dao_runs [OF healthy(1)] account_of_row_def)
qed

text \<open>A second identifier can be drawn for the message, and it is new.\<close>

definition message_id_new :: "env \<Rightarrow> idgen \<Rightarrow> nat \<Rightarrow> db \<Rightarrow> bool" where
  "message_id_new e g k d \<longleftrightarrow>
     (\<exists>mid g' k'. IdGenerator_nextId (clock_ns e) (g, k) = Some (Inr mid, g', k') \<and>
        (\<forall>m \<in> set (t_local_message d). ckey e (tl_message_id m) \<noteq> ckey e mid))"

lemma handleCallback_message_run:
  assumes healthy: "healthy_from e n" "n \<le> w_sql w" and ready: "message_id_new e (w_gen w) (w_clk w) (w_tx w)"
  obtains w' where "handleCallback_message e req order w = Some (if broker_config e = None then Inl StdException else Inr (), w')"
    "w_sql w \<le> w_sql w'" "w_finished w' = w_finished w" "w_db w' = w_db w"
proof -
  from ready obtain mid g k where gen: "IdGenerator_nextId (clock_ns e) (w_gen w, w_clk w) = Some (Inr mid, g, k)" and
    new: "\<forall>m \<in> set (t_local_message (w_tx w)). ckey e (tl_message_id m) \<noteq> ckey e mid"
    unfolding message_id_new_def by blast
  have "sql_insertMessage e (messageOf e req order mid ex rk) j (w_tx w) =
      Some ((w_tx w)\<lparr>t_local_message := t_local_message (w_tx w) @ [message_row_for e (messageOf e req order mid ex rk) j]\<rparr>, ())" for ex rk j
    using new by (auto simp: sql_insertMessage_def list_ex_iff sql_eq_def messageOf_def)
  with healthy(2) have "\<exists>w'. handleCallback_message e req order w = Some (if broker_config e = None then Inl StdException else Inr (), w') \<and>
      w_sql w \<le> w_sql w' \<and> w_finished w' = w_finished w \<and> w_db w' = w_db w"
    by (auto simp: handleCallback_message_def bnd_def payment_dao_runs [OF healthy(1)] or_throw_def throw_def broker_config_def nextId_def gen ret_def
        split: option.split)
  then show ?thesis using that by blast
qed

text \<open>The settlement of a pending order whose account covers it.\<close>

lemma handleCallback_settle_writes:
  assumes healthy: "healthy_from e n" "n \<le> w_sql w" and ok: "order_ok e (t_order (w_tx w))" "account_ok e (t_account (w_tx w))"
    and ord: "order_row_of e (pcr_orderNo req) (w_tx w) = Some ord" and q: "\<bar>to_total_amount ord\<bar> < 10 ^ 18"
    and a: "to_status ord = 0" "account_row_of (word_of_int (to_user_id ord)) (w_tx w) = Some a" "ta_status a = 0" "to_total_amount ord \<le> ta_balance a"
    and ident: "0 < to_total_amount ord \<and> \<not> flow_used e req (w_tx w) \<longrightarrow> message_id_new e (w_gen w) (w_clk w) (w_tx w)"
    and fin: "\<not> w_finished w"
  shows "\<exists>w'. handleCallback_settle e req (order_of_row e ord) (to_total_amount ord) w =
    Some (case late_outcome e req ord (w_tx w) of Some r \<Rightarrow> r | None \<Rightarrow> Inr (Result_ok (paidData req) (pcr_requestId req)), w') \<and>
    (late_outcome e req ord (w_tx w) \<noteq> None \<longrightarrow> w_db w' = w_db w \<and> \<not> w_finished w')"
proof -
  define w1 where "w1 = w\<lparr>w_tx := pay_order e (pcr_orderNo req) (w_sql w) (w_tx w), w_sql := Suc (w_sql w)\<rparr>"
  have mark: "OrderDao_markPaid e (pcr_orderNo req) w = Some (Inr 1, w1)"
    using healthy(2) ok ord a(1) by (simp add: w1_def payment_dao_runs [OF healthy(1)] order_markPaid_eq order_pending_def)
  have w1: "account_ok e (t_account (w_tx w1))" "n \<le> w_sql w1" "account_row_of (word_of_int (to_user_id ord)) (w_tx w1) = Some a"
    "flow_used e req (w_tx w1) = flow_used e req (w_tx w)" using ok a healthy(2) by (simp_all add: w1_def)
  from handleCallback_debit_run [OF healthy(1) w1(2,1,3) a(3,4) q, of req] obtain f where
    deb: "handleCallback_debit e req (order_of_row e ord) (to_total_amount ord) w1 =
    (if to_total_amount ord \<le> 0 \<or> flow_used e req (w_tx w)
     then Some (Inl DrogonDbException, w1\<lparr>w_tx := debit e (ta_account_no a) (to_total_amount ord) (w_tx w1),
       w_sql := Suc (Suc (Suc (Suc (w_sql w1))))\<rparr>)
     else Some (Inr (), w1\<lparr>w_tx := (debit e (ta_account_no a) (to_total_amount ord) (w_tx w1))\<lparr>t_account_flow := t_account_flow (w_tx w1) @ [f]\<rparr>,
       w_sql := Suc (Suc (Suc (Suc (w_sql w1))))\<rparr>))" unfolding w1(4) .
  show ?thesis
  proof (cases "to_total_amount ord \<le> 0 \<or> flow_used e req (w_tx w)")
    case True
    then have "late_outcome e req ord (w_tx w) = Some (Inl DrogonDbException)" using a by (simp add: late_outcome_def)
    with True fin show ?thesis by (simp add: handleCallback_settle_def bnd_def mark deb) (simp add: w1_def)
  next
    case False
    define w2 where "w2 = w1\<lparr>w_tx := (debit e (ta_account_no a) (to_total_amount ord) (w_tx w1))\<lparr>t_account_flow := t_account_flow (w_tx w1) @ [f]\<rparr>,
       w_sql := Suc (Suc (Suc (Suc (w_sql w1))))\<rparr>"
    from False deb have deb': "handleCallback_debit e req (order_of_row e ord) (to_total_amount ord) w1 = Some (Inr (), w2)" by (simp add: w2_def)
    have "message_id_new e (w_gen w2) (w_clk w2) (w_tx w2)" "n \<le> w_sql w2"
      using ident False healthy(2) by (auto simp: w1_def w2_def message_id_new_def debit_def pay_order_def)
    from handleCallback_message_run [OF healthy(1) this(2,1), of req "order_of_row e ord"] obtain w3 where
      msg: "handleCallback_message e req (order_of_row e ord) w2 = Some (if broker_config e = None then Inl StdException else Inr (), w3)" and
      w3: "w_sql w2 \<le> w_sql w3" "w_finished w3 = w_finished w2" "w_db w3 = w_db w2" .
    have late: "late_outcome e req ord (w_tx w) = (if broker_config e = None then Some (Inl StdException) else None)"
      using False a by (simp add: late_outcome_def)
    have w: "\<not> w_finished w2" "w_db w2 = w_db w" "n \<le> w_sql w3" using fin w3(1) healthy(2) by (simp_all add: w2_def w1_def)
    then have "TransactionGuard_commit e w3 = Some (Inr (), w3\<lparr>w_db := w_tx w3, w_finished := True, w_sql := Suc (w_sql w3)\<rparr>)"
      using w3 by (simp add: payment_dao_runs [OF healthy(1)])
    with w w3 late show ?thesis by (simp add: handleCallback_settle_def bnd_def mark deb' msg ret_def)
  qed
qed

lemma handleCallback_settle_decides:
  assumes healthy: "healthy_from e n" "n \<le> w_sql w" and ok: "order_ok e (t_order (w_tx w))" "account_ok e (t_account (w_tx w))"
    and ord: "order_row_of e (pcr_orderNo req) (w_tx w) = Some ord" and q: "\<bar>to_total_amount ord\<bar> < 10 ^ 18"
    and ident: "late_outcome e req ord (w_tx w) \<in> {None, Some (Inl StdException)} \<longrightarrow> message_id_new e (w_gen w) (w_clk w) (w_tx w)"
    and fin: "\<not> w_finished w"
  shows "\<exists>w'. handleCallback_settle e req (order_of_row e ord) (to_total_amount ord) w =
    Some (case late_outcome e req ord (w_tx w) of Some r \<Rightarrow> r | None \<Rightarrow> Inr (Result_ok (paidData req) (pcr_requestId req)), w') \<and>
    (late_outcome e req ord (w_tx w) \<noteq> None \<longrightarrow> w_db w' = w_db w \<and> \<not> w_finished w')"
proof (cases "to_status ord = 0")
  case True
  have acc: "account_ok e (t_account (pay_order e (pcr_orderNo req) (w_sql w) (w_tx w)))" using ok by simp
  from True ord ok(1) have mark: "order_markPaid e (pcr_orderNo req) (w_sql w) (w_tx w) = (pay_order e (pcr_orderNo req) (w_sql w) (w_tx w), 1)"
    by (simp add: order_markPaid_eq order_pending_def)
  show ?thesis
  proof (cases "account_row_of (word_of_int (to_user_id ord)) (w_tx w)")
    case None
    with True mark healthy(2) fin show ?thesis
      by (simp add: handleCallback_settle_def handleCallback_debit_def bnd_def payment_dao_runs [OF healthy(1)] throw_def late_outcome_def)
  next
    case (Some a)
    show ?thesis
    proof (cases "ta_status a \<noteq> 0 \<or> ta_balance a < to_total_amount ord")
      case short: True
      from Some have "spendable e (ta_account_no a) (pay_order e (pcr_orderNo req) (w_sql w) (w_tx w)) =
          (if ta_status a = 0 then Some (ta_balance a) else None)"
        by (intro spendable_user [OF _ acc]) simp
      with short have "account_dec e (ta_account_no a) (to_total_amount ord) (pay_order e (pcr_orderNo req) (w_sql w) (w_tx w)) =
          (pay_order e (pcr_orderNo req) (w_sql w) (w_tx w), 0)"
        using q by (auto simp: account_dec_eq [OF acc])
      with Some True short mark healthy(2) fin show ?thesis
        by (simp add: handleCallback_settle_def handleCallback_debit_def bnd_def payment_dao_runs [OF healthy(1)] throw_def account_of_row_def
            late_outcome_def)
    next
      case False
      have "0 < to_total_amount ord \<and> \<not> flow_used e req (w_tx w) \<longrightarrow> message_id_new e (w_gen w) (w_clk w) (w_tx w)"
        using ident False True Some by (auto simp: late_outcome_def split: if_splits)
      with handleCallback_settle_writes [OF healthy ok ord q True Some _ _ _ fin] False show ?thesis by simp
    qed
  qed
next
  case False
  with ord ok(1) have "order_markPaid e (pcr_orderNo req) (w_sql w) (w_tx w) = (w_tx w, 0)"
    by (simp add: order_markPaid_eq order_pending_def)
  with False ord healthy(2) fin show ?thesis
    by (auto simp: handleCallback_settle_def bnd_def payment_dao_runs [OF healthy(1)] throw_def ret_def OrderStatus_cast_def late_outcome_def)
qed

text \<open>The state of the transaction when it begins and when the payment has been recorded.\<close>

definition begun :: "world \<Rightarrow> world" where
  "begun w = w\<lparr>w_tx := w_db w, w_sql := Suc (w_sql w), w_finished := False\<rparr>"

definition recorded :: "payment_row \<Rightarrow> idgen \<Rightarrow> nat \<Rightarrow> world \<Rightarrow> world" where
  "recorded p g k w = w\<lparr>w_finished := False, w_gen := g, w_clk := k,
     w_tx := (w_db w)\<lparr>t_payment := t_payment (w_db w) @ [p]\<rparr>, w_sql := Suc (Suc (Suc (w_sql w)))\<rparr>"

lemma recorded_simps [simp]:
  "w_db (recorded p g k w) = w_db w" "\<not> w_finished (recorded p g k w)" "w_gen (recorded p g k w) = g"
  "w_clk (recorded p g k w) = k" "w_sql (recorded p g k w) = Suc (Suc (Suc (w_sql w)))"
  "w_tx (recorded p g k w) = (w_db w)\<lparr>t_payment := t_payment (w_db w) @ [p]\<rparr>"
  by (simp_all add: recorded_def)

lemma handleCallback_scope_early:
  assumes "callback_entered e req no g k w"
    and "early_outcome e req (w_db w) = Some r"
  shows "\<exists>w'. handleCallback_scope e req rawBody (begun w) = Some (r, w') \<and> w_db w' = w_db w \<and> \<not> w_finished w'"
proof -
  from assms(1) have healthy: "healthy_from e (w_sql w)" and
    gen: "IdGenerator_nextId (clock_ns e) (w_gen w, w_clk w) = Some (Inr no, g, k)"
    by (auto simp: callback_entered_def)
  have known: "sql_insertPayment e (paymentOf req rawBody no q cb) n (w_db w) = Some (w_db w, 0)"
    if "payment_row_of e (pcr_channel req) (pcr_channelTradeNo req) (w_db w) = Some p" "dt_parse e cb = Some c" for p q n cb c
    using payment_ins_known [of e "payment_row_for e (paymentOf req rawBody no q cb) c" "w_db w"] that
    by (simp add: sql_insertPayment_def payment_row_for_def paymentOf_def)
  have refused: "PaymentDao_insertWithDedup e (paymentOf req rawBody no q cb) u = Some (Inl DrogonDbException, u\<lparr>w_sql := Suc (w_sql u)\<rparr>)"
    if "dt_parse e cb = None" "w_sql w \<le> w_sql u" for q cb u
    using healthy_fromD [OF healthy that(2)] that(1)
    by (simp add: PaymentDao_insertWithDedup_def bnd_def execSqlSync_tx_def sql_insertPayment_def paymentOf_def)
  from assms(2) [unfolded early_outcome_def] known refused show ?thesis
    by (auto simp: handleCallback_scope_def begun_def bnd_def payment_dao_runs [OF healthy] throw_def ret_def nextId_def gen
        or_throw_def payment_of_row_def split: option.splits if_splits)
qed

lemma handleCallback_scope_recorded:
  assumes "callback_entered e req no g k w"
    and "order_row_of e (pcr_orderNo req) (w_db w) = Some ord"
    and "yuanStringToFen (pcr_amount req) = Some (to_total_amount ord)"
    and "payment_row_of e (pcr_channel req) (pcr_channelTradeNo req) (w_db w) = None"
    and "\<exists>t c. epochToBeijing (pcr_timestamp req) = Some t \<and> dt_parse e t = Some c"
    and "\<forall>r \<in> set (t_payment (w_db w)). ckey e (ty_payment_no r) \<noteq> ckey e no"
  obtains p where "handleCallback_scope e req rawBody (begun w) =
    handleCallback_settle e req (order_of_row e ord) (to_total_amount ord) (recorded p g k w)"
proof -
  from assms(1,5) obtain cb c where healthy: "healthy_from e (w_sql w)" and
    gen: "IdGenerator_nextId (clock_ns e) (w_gen w, w_clk w) = Some (Inr no, g, k)" and
    cb: "epochToBeijing (pcr_timestamp req) = Some cb" "dt_parse e cb = Some c"
    by (auto simp: callback_entered_def)
  let ?p = "payment_row_for e (paymentOf req rawBody no (to_total_amount ord) cb) c"
  have "sql_insertPayment e (paymentOf req rawBody no (to_total_amount ord) cb) n (w_db w) =
     Some ((w_db w)\<lparr>t_payment := t_payment (w_db w) @ [?p]\<rparr>, 1)" for n
    using payment_ins_new [of e ?p "w_db w"] assms(4,6)
    by (simp add: sql_insertPayment_def cb payment_row_for_def paymentOf_def)
  with assms(2,3) show ?thesis
    by (intro that [of ?p])
       (simp add: handleCallback_scope_def begun_def recorded_def bnd_def payment_dao_runs [OF healthy] nextId_def gen or_throw_def cb ret_def)
qed

lemma handleCallback_answer:
  assumes ready: "callback_entered e req no g k w" and run: "handleCallback_scope e req rawBody (begun w) = Some (r, w')"
  shows "PaymentService_handleCallback e req rawBody w = Some (Inr (answer_of req r), TransactionGuard_dtor w')"
proof -
  from ready have "healthy_from e (w_sql w)" and "callback_signed e req" by (simp_all add: callback_entered_def)
  with run show ?thesis
    by (auto simp: handleCallback_run begun_def try_catch_def handleCallback_catch_def ret_def split: sum.split exn.split)
qed

lemma handleCallback_decides:
  assumes ready: "callback_entered e req no g k w" and ok: "schema_ok e (w_db w)"
    and fresh: "\<forall>r \<in> set (t_payment (w_db w)). ckey e (ty_payment_no r) \<noteq> ckey e no"
    and ident: "callback_outcome e req (w_db w) \<in> {None, Some (Inl StdException)} \<longrightarrow> message_id_new e g k (w_db w)"
  shows "\<exists>w'. PaymentService_handleCallback e req rawBody w =
      Some (Inr (case callback_outcome e req (w_db w) of
         Some r \<Rightarrow> answer_of req r | None \<Rightarrow> Result_ok (paidData req) (pcr_requestId req)), w') \<and>
    (callback_outcome e req (w_db w) = None \<or> w_db w' = w_db w)"
proof (cases "early_outcome e req (w_db w)")
  case (Some r)
  from handleCallback_scope_early [OF ready Some, of rawBody] obtain w' where
    run: "handleCallback_scope e req rawBody (begun w) = Some (r, w')" "w_db w' = w_db w" by blast
  from handleCallback_answer [OF ready run(1)] run(2) Some show ?thesis by (simp add: callback_outcome_def)
next
  case None
  then show ?thesis
  proof (cases rule: early_outcome_None)
    case (1 ord)
    from handleCallback_scope_recorded [OF ready 1 fresh] obtain p where
      eq: "handleCallback_scope e req rawBody (begun w) = handleCallback_settle e req (order_of_row e ord) (to_total_amount ord) (recorded p g k w)" .
    have q: "\<bar>to_total_amount ord\<bar> < 10 ^ 18" using yuanStringToFen_bound [OF 1(2)] by simp
    from None 1(1) have out: "callback_outcome e req (w_db w) = late_outcome e req ord (w_tx (recorded p g k w))"
      by (simp add: callback_outcome_def)
    let ?w = "recorded p g k w"
    have "healthy_from e (w_sql w)" "w_sql w \<le> w_sql ?w" "order_ok e (t_order (w_tx ?w))" "account_ok e (t_account (w_tx ?w))"
      "order_row_of e (pcr_orderNo req) (w_tx ?w) = Some ord" "\<not> w_finished ?w"
      using ready ok 1(1) by (simp_all add: callback_entered_def schema_ok_def)
    moreover have "late_outcome e req ord (w_tx ?w) \<in> {None, Some (Inl StdException)} \<longrightarrow> message_id_new e (w_gen ?w) (w_clk ?w) (w_tx ?w)"
      using ident unfolding out by (simp add: message_id_new_def)
    ultimately obtain w' where
      run: "handleCallback_scope e req rawBody (begun w) = Some (case late_outcome e req ord (w_tx ?w) of
          Some r \<Rightarrow> r | None \<Rightarrow> Inr (Result_ok (paidData req) (pcr_requestId req)), w')"
        "late_outcome e req ord (w_tx ?w) \<noteq> None \<longrightarrow> w_db w' = w_db w"
      using handleCallback_settle_decides [of e "w_sql w" ?w req ord] q unfolding eq by auto
    from handleCallback_answer [OF ready run(1)] run(2) show ?thesis
      unfolding out by (cases "late_outcome e req ord (w_tx ?w)") auto
  qed
qed

end
