(* ===== verification/Controllers.thy ===== *)
theory Controllers
  imports Logger SignUtil OrderService PaymentService ReconcileService ThreadPool
begin

text \<open>
  \<^verbatim>\<open>src/controllers/\<close>: the HTTP handlers. A handler checks the parameters on the I/O thread and hands the
  service call to the pool, which sends the response. The result \<open>None\<close> of a handler says that no
  response is ever sent, an exception that the handler threw on the I/O thread, where drogon's
  exception handler answers. Logging is left out, including the logger of the request that a handler
  asks for first: \<open>withRequestId\<close> is harmless until \<open>Logger::shutdown\<close> (\<open>Logger\<close>), and the pool is
  stopped only after it, so the answer 503 of a stopped pool (\<open>stopped\<close>) is reached by handlers only in
  a process whose logger has already gone, where they would dereference a null pointer first.
\<close>

section \<open>Shared parts\<close>

definition badRequest :: "env \<Rightarrow> ErrCode \<Rightarrow> string \<Rightarrow> string \<Rightarrow> http_response" where
  "badRequest e code message requestId = failResponse e 400 code message requestId"

definition shuttingDown :: "env \<Rightarrow> string \<Rightarrow> http_response" where
  "shuttingDown e requestId = failResponse e 503 kInternalError msg_shutting_down requestId"

text \<open>The operator \<open>&&\<close> on conditions that can throw (\<open>None\<close>).\<close>

fun and_also :: "bool option \<Rightarrow> bool option \<Rightarrow> bool option" where
  "and_also None y = None"
| "and_also (Some False) y = Some False"
| "and_also (Some True) y = y"

text \<open>
  A job of the pool that computes a response and queues it on the I/O loop. An exception ends the job
  in the catch clauses of the worker and the response is lost.
\<close>

definition in_pool :: "http_response act \<Rightarrow> http_response option act" where
  "in_pool job = try_catch (bnd job (\<lambda>resp. ret (Some resp))) (\<lambda>_. ret None)"

text \<open>\<open>stopped\<close>: the pool refuses the job.\<close>

definition submitToPool :: "env \<Rightarrow> bool \<Rightarrow> string \<Rightarrow> http_response act \<Rightarrow> http_response option act" where
  "submitToPool e stopped requestId job = (if stopped then ret (Some (shuttingDown e requestId)) else in_pool job)"

definition jsonJob :: "env \<Rightarrow> json Result act \<Rightarrow> http_response act" where
  "jsonJob e work = bnd work (\<lambda>result. ret (newHttpJsonResponse e (Result_toJson (\<lambda>v. v) result)))"

text \<open>A member of a JSON object as a string or number; the accessors throw on other values.\<close>

definition memberString :: "json \<Rightarrow> string \<Rightarrow> string option" where
  "memberString json key = (case jget json key of None \<Rightarrow> None | Some v \<Rightarrow> asString v)"

definition memberInt64 :: "json \<Rightarrow> string \<Rightarrow> int64 option" where
  "memberInt64 json key = (case jget json key of None \<Rightarrow> None | Some v \<Rightarrow> asInt64 v)"

definition memberSatisfies :: "(json \<Rightarrow> bool) \<Rightarrow> json \<Rightarrow> string \<Rightarrow> bool option" where
  "memberSatisfies P json key = map_option P (jget json key)"

section \<open>OrderController\<close>

definition hasPositiveInt :: "json \<Rightarrow> string \<Rightarrow> bool option" where
  "hasPositiveInt json key =
     and_also (isMember json key)
       (and_also (memberSatisfies isNumeric json key) (map_option (\<lambda>i. 0 < i) (memberInt64 json key)))"

definition sha256Hex :: "env \<Rightarrow> string \<Rightarrow> string" where
  "sha256Hex e data = concat (map hex_byte (sha256 e data))"

definition orderParams :: "json option \<Rightarrow> bool option" where
  "orderParams json =
     (case json of
        None \<Rightarrow> Some False
      | Some v \<Rightarrow> and_also (hasPositiveInt v ''productId'') (and_also (hasPositiveInt v ''quantity'') (hasPositiveInt v ''userId'')))"

definition orderReqOf :: "env \<Rightarrow> http_req \<Rightarrow> CreateOrderReq option" where
  "orderReqOf e request =
     (case rq_json request of None \<Rightarrow> None | Some v \<Rightarrow>
     (case memberInt64 v ''productId'' of None \<Rightarrow> None | Some productId \<Rightarrow>
     (case memberInt64 v ''quantity'' of None \<Rightarrow> None | Some quantity \<Rightarrow>
     (case memberInt64 v ''userId'' of None \<Rightarrow> None | Some userId \<Rightarrow>
       Some \<lparr>cor_requestId = requestIdOf request, cor_requestHash = sha256Hex e (rq_body request),
         cor_userId = word_of_int userId, cor_productId = word_of_int productId, cor_quantity = quantity\<rparr>))))"

definition orderJob :: "env \<Rightarrow> CreateOrderReq \<Rightarrow> http_response act" where
  "orderJob e req =
     bnd (OrderService_createOrder e req) (\<lambda>outcome.
       ret (if coo_kind outcome = kCached then \<lparr>rs_status = 200, rs_body = coo_cachedBody outcome\<rparr>
            else newHttpJsonResponse e (Result_toJson Order_toJson (coo_result outcome))))"

definition OrderController_createOrder :: "env \<Rightarrow> bool \<Rightarrow> http_req \<Rightarrow> http_response option act" where
  "OrderController_createOrder e stopped request =
     bnd (or_throw StdException (orderParams (rq_json request))) (\<lambda>good.
       if \<not> good then ret (Some (badRequest e kParamInvalid msg_order_params (requestIdOf request)))
       else bnd (or_throw StdException (orderReqOf e request)) (\<lambda>req.
         submitToPool e stopped (requestIdOf request) (orderJob e req)))"

section \<open>PaymentCallbackController\<close>

definition hasNonEmptyString :: "json \<Rightarrow> string \<Rightarrow> bool option" where
  "hasNonEmptyString json key =
     and_also (isMember json key)
       (and_also (memberSatisfies isString json key) (map_option (\<lambda>s. s \<noteq> '''') (memberString json key)))"

definition callbackParams :: "json option \<Rightarrow> bool option" where
  "callbackParams json =
     (case json of
        None \<Rightarrow> Some False
      | Some v \<Rightarrow>
          and_also (hasNonEmptyString v ''orderNo'') (and_also (hasNonEmptyString v ''channel'')
            (and_also (hasNonEmptyString v ''channelTradeNo'') (and_also (hasNonEmptyString v ''amount'')
              (and_also (hasNonEmptyString v ''sign'') (and_also (isMember v ''timestamp'') (memberSatisfies isNumeric v ''timestamp'')))))))"

definition callbackReqOf :: "http_req \<Rightarrow> PaymentCallbackReq option" where
  "callbackReqOf request =
     (case rq_json request of None \<Rightarrow> None | Some v \<Rightarrow>
     (case memberString v ''orderNo'' of None \<Rightarrow> None | Some orderNo \<Rightarrow>
     (case memberString v ''channel'' of None \<Rightarrow> None | Some channel \<Rightarrow>
     (case memberString v ''channelTradeNo'' of None \<Rightarrow> None | Some channelTradeNo \<Rightarrow>
     (case memberString v ''amount'' of None \<Rightarrow> None | Some amount \<Rightarrow>
     (case memberInt64 v ''timestamp'' of None \<Rightarrow> None | Some timestamp \<Rightarrow>
     (case memberString v ''sign'' of None \<Rightarrow> None | Some sign \<Rightarrow>
       Some \<lparr>pcr_requestId = requestIdOf request, pcr_orderNo = orderNo, pcr_channel = channel, pcr_channelTradeNo = channelTradeNo,
         pcr_amount = amount, pcr_timestamp = string_of_int timestamp, pcr_sign = sign\<rparr>)))))))"

definition PaymentCallbackController_handleCallback :: "env \<Rightarrow> bool \<Rightarrow> http_req \<Rightarrow> http_response option act" where
  "PaymentCallbackController_handleCallback e stopped request =
     bnd (or_throw StdException (callbackParams (rq_json request))) (\<lambda>good.
       if \<not> good then ret (Some (badRequest e kParamInvalid msg_callback_params (requestIdOf request)))
       else bnd (or_throw StdException (callbackReqOf request)) (\<lambda>req.
         submitToPool e stopped (requestIdOf request) (jsonJob e (PaymentService_handleCallback e req (rq_body request)))))"

section \<open>AdminController\<close>

definition AdminController_runReconcile :: "env \<Rightarrow> bool \<Rightarrow> http_req \<Rightarrow> http_response option act" where
  "AdminController_runReconcile e stopped request =
     bnd (or_throw StdException (case rq_json request of None \<Rightarrow> Some False | Some v \<Rightarrow> hasNonEmptyString v ''billDate'')) (\<lambda>good.
       if \<not> good then ret (Some (badRequest e kParamInvalid msg_bill_date (requestIdOf request)))
       else bnd (or_throw StdException (case rq_json request of None \<Rightarrow> None | Some v \<Rightarrow> memberString v ''billDate'')) (\<lambda>billDate.
         submitToPool e stopped (requestIdOf request) (jsonJob e (ReconcileService_run e billDate))))"

definition AdminController_listDiffs :: "env \<Rightarrow> bool \<Rightarrow> http_req \<Rightarrow> http_response option act" where
  "AdminController_listDiffs e stopped request =
     (if rq_batchNo request = '''' then ret (Some (badRequest e kParamInvalid msg_batch_no (requestIdOf request)))
      else submitToPool e stopped (requestIdOf request) (jsonJob e (ReconcileService_listDiffs e (rq_batchNo request) 200)))"

definition AdminController_handleDiff :: "env \<Rightarrow> bool \<Rightarrow> int64 \<Rightarrow> http_req \<Rightarrow> http_response option act" where
  "AdminController_handleDiff e stopped diffId request =
     bnd (or_throw StdException (case rq_json request of None \<Rightarrow> Some False
            | Some v \<Rightarrow> and_also (isMember v ''action'') (memberSatisfies isString v ''action''))) (\<lambda>good.
       if \<not> good then ret (Some (badRequest e kParamInvalid msg_action_required (requestIdOf request)))
       else bnd (or_throw StdException (case rq_json request of None \<Rightarrow> None | Some v \<Rightarrow> memberString v ''action'')) (\<lambda>action.
         bnd (or_throw StdException (case rq_json request of None \<Rightarrow> None | Some v \<Rightarrow> memberOr v ''remark'' '''')) (\<lambda>remark.
           submitToPool e stopped (requestIdOf request) (jsonJob e (ReconcileService_handleDiff e diffId action remark)))))"

section \<open>HealthController and MockNotifyController\<close>

definition HealthController_health :: "env \<Rightarrow> http_req \<Rightarrow> http_response option act" where
  "HealthController_health e request =
     ret (Some (newHttpJsonResponse e
       (Result_toJson (\<lambda>v. v) (Result_ok (jset ''status'' (JString ''up'') JNull) (rq_header request)))))"

definition notifyOrderNo :: "json option \<Rightarrow> string option" where
  "notifyOrderNo json = (case json of None \<Rightarrow> Some ''unknown'' | Some v \<Rightarrow> memberOr v ''orderNo'' ''unknown'')"

definition simulateFailure :: "json option \<Rightarrow> bool option" where
  "simulateFailure json =
     (case json of None \<Rightarrow> Some False
      | Some v \<Rightarrow> and_also (isMember v ''fail'') (case jget v ''fail'' of None \<Rightarrow> None | Some x \<Rightarrow> asBool x))"

definition MockNotifyController_notify :: "env \<Rightarrow> http_req \<Rightarrow> http_response option act" where
  "MockNotifyController_notify e request =
     bnd (or_throw StdException (notifyOrderNo (rq_json request))) (\<lambda>orderNo.
       bnd (or_throw StdException (simulateFailure (rq_json request))) (\<lambda>fail.
         if fail then ret (Some (failResponse e 500 kInternalError ''mock merchant internal error'' (requestIdOf request)))
         else ret (Some (newHttpJsonResponse e (Result_toJson JInt (Result_ok 1 (requestIdOf request)))))))"

section \<open>Routes\<close>

text \<open>
  The entries of the method lists in the controllers' headers: path, method and filters. Matching a
  path to its entry is drogon's part.
\<close>

record registration =
  rg_path :: string
  rg_method :: HttpMethod
  rg_filters :: "string list"

definition HealthController_methods :: "registration list" where
  "HealthController_methods = [\<lparr>rg_path = ''/health'', rg_method = Get, rg_filters = []\<rparr>]"

definition OrderController_methods :: "registration list" where
  "OrderController_methods = [\<lparr>rg_path = ''/api/v1/orders'', rg_method = Post, rg_filters = [''common::RequestIdFilter'']\<rparr>]"

definition PaymentCallbackController_methods :: "registration list" where
  "PaymentCallbackController_methods =
     [\<lparr>rg_path = ''/api/v1/payment/callback'', rg_method = Post, rg_filters = [''common::RequestIdFilter'']\<rparr>]"

definition AdminController_methods :: "registration list" where
  "AdminController_methods =
     [\<lparr>rg_path = ''/api/v1/reconcile/run'', rg_method = Post, rg_filters = [''common::RequestIdFilter'']\<rparr>,
      \<lparr>rg_path = ''/api/v1/reconcile/diffs'', rg_method = Get, rg_filters = []\<rparr>,
      \<lparr>rg_path = ''/api/v1/reconcile/diffs/{1}/handle'', rg_method = Post, rg_filters = [''common::RequestIdFilter'']\<rparr>]"

definition MockNotifyController_methods :: "registration list" where
  "MockNotifyController_methods = [\<lparr>rg_path = ''/api/v1/mock/notify'', rg_method = Post, rg_filters = [''common::RequestIdFilter'']\<rparr>]"

lemmas method_lists = HealthController_methods_def OrderController_methods_def PaymentCallbackController_methods_def
  AdminController_methods_def MockNotifyController_methods_def

datatype route = HealthRoute | OrdersRoute | CallbackRoute | RunRoute | DiffsRoute | HandleDiffRoute int64 | NotifyRoute

fun registration_of :: "route \<Rightarrow> registration" where
  "registration_of HealthRoute = HealthController_methods ! 0"
| "registration_of OrdersRoute = OrderController_methods ! 0"
| "registration_of CallbackRoute = PaymentCallbackController_methods ! 0"
| "registration_of RunRoute = AdminController_methods ! 0"
| "registration_of DiffsRoute = AdminController_methods ! 1"
| "registration_of (HandleDiffRoute diffId) = AdminController_methods ! 2"
| "registration_of NotifyRoute = MockNotifyController_methods ! 0"

definition route_method :: "route \<Rightarrow> HttpMethod" where
  "route_method r = rg_method (registration_of r)"

definition route_filtered :: "route \<Rightarrow> bool" where
  "route_filtered r \<longleftrightarrow> ''common::RequestIdFilter'' \<in> set (rg_filters (registration_of r))"

lemma route_simps [simp]:
  "route_method HealthRoute = Get" "route_method OrdersRoute = Post" "route_method CallbackRoute = Post" "route_method RunRoute = Post"
  "route_method DiffsRoute = Get" "route_method (HandleDiffRoute i) = Post" "route_method NotifyRoute = Post"
  "\<not> route_filtered HealthRoute" "route_filtered OrdersRoute" "route_filtered CallbackRoute" "route_filtered RunRoute"
  "\<not> route_filtered DiffsRoute" "route_filtered (HandleDiffRoute i)" "route_filtered NotifyRoute"
  by (simp_all add: route_method_def route_filtered_def method_lists)

fun handler :: "env \<Rightarrow> bool \<Rightarrow> route \<Rightarrow> http_req \<Rightarrow> http_response option act" where
  "handler e stopped HealthRoute = HealthController_health e"
| "handler e stopped OrdersRoute = OrderController_createOrder e stopped"
| "handler e stopped CallbackRoute = PaymentCallbackController_handleCallback e stopped"
| "handler e stopped RunRoute = AdminController_runReconcile e stopped"
| "handler e stopped DiffsRoute = AdminController_listDiffs e stopped"
| "handler e stopped (HandleDiffRoute diffId) = AdminController_handleDiff e stopped diffId"
| "handler e stopped NotifyRoute = MockNotifyController_notify e"

text \<open>A request that arrives on a route: its filters, then its handler.\<close>

definition serve :: "env \<Rightarrow> bool \<Rightarrow> route \<Rightarrow> http_req \<Rightarrow> http_response option act" where
  "serve e stopped r request =
     (if route_filtered r then (case doFilter e request of Inl resp \<Rightarrow> ret (Some resp) | Inr request' \<Rightarrow> handler e stopped r request')
      else handler e stopped r request)"

lemmas controller_defs = badRequest_def shuttingDown_def in_pool_def submitToPool_def jsonJob_def memberString_def memberInt64_def
  memberSatisfies_def hasPositiveInt_def sha256Hex_def orderParams_def orderReqOf_def orderJob_def OrderController_createOrder_def
  hasNonEmptyString_def callbackParams_def callbackReqOf_def PaymentCallbackController_handleCallback_def
  AdminController_runReconcile_def AdminController_listDiffs_def AdminController_handleDiff_def HealthController_health_def
  notifyOrderNo_def simulateFailure_def MockNotifyController_notify_def serve_def

declare controller_defs [eval_simps]

section \<open>Jobs and handlers\<close>

lemma preserves_in_pool [preserves_intro]: "preserves P job \<Longrightarrow> preserves P (in_pool job)"
  unfolding in_pool_def by (intro preserves_intro)

lemma preserves_submit [preserves_intro]: "(\<not> stopped \<Longrightarrow> preserves P job) \<Longrightarrow> preserves P (submitToPool e stopped rid job)"
  unfolding submitToPool_def by (intro preserves_intro)

lemma preserves_jsonJob [preserves_intro]: "preserves P work \<Longrightarrow> preserves P (jsonJob e work)"
  unfolding jsonJob_def by (intro preserves_intro)

lemma preserves_orderJob [preserves_intro]: "preserves P (OrderService_createOrder e req) \<Longrightarrow> preserves P (orderJob e req)"
  unfolding orderJob_def by (intro preserves_intro)

text \<open>What the services keep, the HTTP interface keeps.\<close>

lemma handler_keeps:
  assumes "\<And>req. preserves P (OrderService_createOrder e req)" and "\<And>req body. preserves P (PaymentService_handleCallback e req body)"
    and "\<And>dt. preserves P (ReconcileService_run e dt)" and "\<And>no k. preserves P (ReconcileService_listDiffs e no k)"
    and "\<And>i act rem. preserves P (ReconcileService_handleDiff e i act rem)"
  shows "preserves P (handler e stopped r request)"
  by (cases r)
    (auto simp: OrderController_createOrder_def PaymentCallbackController_handleCallback_def AdminController_runReconcile_def
      AdminController_listDiffs_def AdminController_handleDiff_def HealthController_health_def MockNotifyController_notify_def
      intro!: preserves_intro assms)

lemma serve_keeps:
  assumes "\<And>request. preserves P (handler e stopped r request)"
  shows "preserves P (serve e stopped r request)"
  unfolding serve_def by (auto split: sum.split intro: assms preserves_intro)

lemma handler_stopped_keeps:
  "preserves P (handler e True r request)"
  by (cases r)
    (auto simp: OrderController_createOrder_def PaymentCallbackController_handleCallback_def AdminController_runReconcile_def
      AdminController_listDiffs_def AdminController_handleDiff_def HealthController_health_def MockNotifyController_notify_def
      intro!: preserves_intro)

lemma and_also_True [simp]: "and_also a b = Some True \<longleftrightarrow> a = Some True \<and> b = Some True"
  by (cases "(a, b)" rule: and_also.cases) auto

lemma orderReqOf_params: "orderParams (rq_json request) = Some True \<Longrightarrow> \<exists>req. orderReqOf e request = Some req"
  by (auto simp: orderParams_def orderReqOf_def hasPositiveInt_def split: option.splits)

lemma createOrder_returns_value: "OrderService_createOrder e req w = Some (r, w') \<Longrightarrow> \<exists>out. r = Inr out"
  by (erule createOrder_cases) auto

section \<open>Properties\<close>

text \<open>
  C27: writes need a request identifier. A request that changes the tables, on whatever route and
  whatever happens, came by POST through the filter with an identifier of 16 to 64 hexadecimal digits
  and dashes, and while the pool was accepting jobs; an invalid identifier on such a route is answered
  with status 400 and the code for a missing identifier.
\<close>

theorem http_write_guard:
  assumes "rq_method request = route_method r" and "serve e stopped r request w = Some (res, w')"
  shows "(w_db w' \<noteq> w_db w \<longrightarrow> rq_method request = Post \<and> isValidRequestId (rq_header request) \<and> \<not> stopped) \<and>
    (rq_method request = Post \<and> \<not> isValidRequestId (rq_header request) \<longrightarrow>
      res = Inr (Some (failResponse e 400 kMissingRequestId (toMessage kMissingRequestId) (rq_header request))) \<and> w' = w)"
proof -
  have filtered: "route_filtered r \<longleftrightarrow> route_method r = Post" by (cases r) simp_all
  have same: "w_db w' = w_db w" if "preserves (committed (\<lambda>d. d = w_db w)) (serve e stopped r request)"
    using preservesD [OF that assms(2)] by (simp add: committed_def)
  have "route_method r = Get \<Longrightarrow> preserves (committed (\<lambda>d. d = w_db w)) (serve e stopped r request)"
    by (rule serve_keeps, cases r)
      (auto simp: AdminController_listDiffs_def HealthController_health_def intro!: preserves_intro listDiffs_keeps)
  moreover have "stopped \<Longrightarrow> preserves (committed (\<lambda>d. d = w_db w)) (serve e stopped r request)"
    by (rule serve_keeps) (simp add: handler_stopped_keeps)
  moreover have "serve e stopped r request w = Some (Inr (Some (failResponse e 400 kMissingRequestId (toMessage kMissingRequestId) (rq_header request))), w)"
    if "rq_method request = Post" "\<not> isValidRequestId (rq_header request)"
    using that assms(1) filtered by (simp add: serve_def doFilter_def ret_def)
  moreover have "route_method r = Get \<or> route_method r = Post" by (cases r) simp_all
  ultimately show ?thesis using same assms by auto
qed

text \<open>
  C28: every order request is answered. While the pool runs and the clock goes on, a request to create
  an order whose JSON the accessors can read gets a response, whatever faults the database has: 400
  without any change for missing or non-positive parameters, else 200 with what the service answered,
  a stored response as its bytes and a new one as its envelope, after exactly the effect of the service.
\<close>

theorem orders_answered:
  assumes "clock_passes (clock_ns e)" and "orderParams (rq_json request) \<noteq> None"
  shows "\<exists>resp w'. OrderController_createOrder e False request w = Some (Inr (Some resp), w') \<and>
    (if orderParams (rq_json request) = Some False then rs_status resp = 400 \<and> w' = w
     else rs_status resp = 200 \<and> (\<exists>req out. orderReqOf e request = Some req \<and> OrderService_createOrder e req w = Some (Inr out, w') \<and>
       rs_body resp = (if coo_kind out = kCached then coo_cachedBody out
                       else json_http e (Result_toJson Order_toJson (coo_result out)))))"
proof (cases "orderParams (rq_json request) = Some True")
  case False
  with assms(2) show ?thesis
    by (cases "orderParams (rq_json request)")
      (auto simp: OrderController_createOrder_def or_throw_def ret_def bnd_def badRequest_def failResponse_def)
next
  case True
  from orderReqOf_params [OF this] obtain req where req: "orderReqOf e request = Some req" ..
  from createOrder_ends [OF assms(1)] obtain r w' where run: "OrderService_createOrder e req w = Some (r, w')" by (rule endsE)
  from createOrder_returns_value [OF run] obtain out where "r = Inr out" ..
  with run req True show ?thesis
    by (auto simp: OrderController_createOrder_def or_throw_def submitToPool_def in_pool_def orderJob_def try_catch_def bnd_def ret_def
        newHttpJsonResponse_def)
qed

text \<open>
  A database fault while a difference is handled: the service does not catch it, the worker does, and
  the client waits for a response that is never sent.
\<close>

lemma handleDiff_unanswered:
  assumes "db_configured e" and "sql_fault e (w_sql w)"
    and "rq_json request = Some (JObject [(''action'', JString ''verify'')])"
  shows "\<exists>w'. AdminController_handleDiff e False diffId request w = Some (Inr None, w')"
  using assms
  by (simp add: controller_defs or_throw_def memberOr_def ReconcileService_handleDiff_def handleStatus_of_def ReconcileDao_getDiffById_def
      execSqlSync_auto_def bnd_def try_catch_def ret_def omap_find_def)

section \<open>Witnesses\<close>

definition order_request :: "string \<Rightarrow> http_req" where
  "order_request rid = \<lparr>rq_method = Post, rq_header = rid, rq_attr = None, rq_batchNo = '''', rq_body = ''b'',
     rq_json = Some (JObject [(''productId'', JInt 1), (''quantity'', JInt 2), (''userId'', JInt 7)])\<rparr>"

theorem http_write_guard_witness:
  "\<exists>res w'. serve demo_env False OrdersRoute (order_request ''0123456789abcdef'') demo_world = Some (res, w') \<and>
     w_db w' \<noteq> w_db demo_world \<and> isValidRequestId ''0123456789abcdef''"
proof -
  have "\<exists>res w'. serve demo_env False OrdersRoute (order_request ''0123456789abcdef'') demo_world = Some (res, w') \<and> w_db w' \<noteq> w_db demo_world"
    by (simp add: order_request_def eval_simps demo_defs omap_find_def cong: eval_cong)
  then obtain res w' where run: "serve demo_env False OrdersRoute (order_request ''0123456789abcdef'') demo_world = Some (res, w')"
    "w_db w' \<noteq> w_db demo_world" by blast
  from http_write_guard [OF _ run(1)] run show ?thesis by (auto simp: order_request_def)
qed

lemma demo_clock_passes: "clock_passes (clock_ns demo_env)"
  unfolding clock_passes_def
proof (intro allI)
  fix x :: int and k :: nat
  have "x < currentTimeMs (clock_ns demo_env) (k + nat x)"
    by (simp add: currentTimeMs_def cdiv_def demo_env_def)
  then show "\<exists>j. x < currentTimeMs (clock_ns demo_env) (k + j)" by blast
qed

theorem orders_answered_witness:
  "\<exists>resp w'. OrderController_createOrder (demo_env\<lparr>sql_fault := (\<lambda>n. n = 5)\<rparr>) False (order_request ''0123456789abcdef'') demo_world =
     Some (Inr (Some resp), w') \<and> rs_status resp = 200"
proof -
  have "orderParams (rq_json (order_request ''0123456789abcdef'')) = Some True"
    by (simp add: order_request_def eval_simps omap_find_def)
  moreover have "clock_passes (clock_ns (demo_env\<lparr>sql_fault := (\<lambda>n. n = 5)\<rparr>))" using demo_clock_passes by simp
  ultimately show ?thesis
    using orders_answered [of "demo_env\<lparr>sql_fault := (\<lambda>n. n = 5)\<rparr>" "order_request ''0123456789abcdef''" demo_world] by auto
qed

end
