(* ===== verification/OrderProperties.thy ===== *)
theory OrderProperties
  imports OrderService Fixture
begin

text \<open>
  What \<open>createOrder\<close> guarantees: its effect, atomicity, the exactly-once behaviour of repeated
  requests, the refusals, and the two promises about stock, that it is never oversold and that it
  is served completely.
\<close>

section \<open>Units of a product\<close>

text \<open>Units in stock and units bound in orders.\<close>

definition stock_of :: "uint64 \<Rightarrow> db \<Rightarrow> int" where
  "stock_of pid d = (case product_row_of pid d of None \<Rightarrow> 0 | Some r \<Rightarrow> tp_stock r)"

definition sold :: "uint64 \<Rightarrow> db \<Rightarrow> int" where
  "sold pid d = sum_list (map to_quantity (filter (\<lambda>r. to_product_id r = sint pid) (t_order d)))"

lemma product_row_of_placed:
  "product_row_of pid (placed_db e req order rec x y d) = product_row_of pid (sell (cor_productId req) (cor_quantity req) d)"
  by (simp add: placed_db_def product_row_of_def)

lemma stock_of_placed:
  "product_row_of (cor_productId req) d = Some p \<Longrightarrow>
   stock_of pid (placed_db e req order rec x y d) = stock_of pid d - (if pid = cor_productId req then cor_quantity req else 0)"
  by (auto simp: stock_of_def product_row_of_placed product_row_of_sell split: option.split)

lemma sold_placed:
  "ord_productId order = cor_productId req \<Longrightarrow> ord_quantity order = cor_quantity req \<Longrightarrow>
   sold pid (placed_db e req order rec x y d) = sold pid d + (if pid = cor_productId req then cor_quantity req else 0)"
  by (simp add: sold_def placed_db_def order_row_for_def sint_eq_iff)

lemma stock_of_nonneg: "product_ok (t_product d) \<Longrightarrow> 0 \<le> stock_of pid d"
  by (auto simp: stock_of_def product_ok_def product_row_of_def list_all_iff split: option.split dest: first_where_Some)

interpretation units_kept: invariant_ops "OrderService_createOrder e"
    "committed (\<lambda>d. schema_ok e d \<and> stock_of pid d + sold pid d = K)" for e pid K
proof unfold_locales
  fix w req r w'
  assume inv: "committed (\<lambda>d. schema_ok e d \<and> stock_of pid d + sold pid d = K) w"
    and run: "OrderService_createOrder e req w = Some (r, w')"
  then have ok: "schema_ok e (w_db w)" "product_ok (t_product (w_db w))" by (simp_all add: committed_def schema_ok_def)
  from preservesD [OF schema_createOrder run] ok have "schema_ok e (w_db w')" by (simp add: committed_def)
  moreover have "stock_of pid (w_db w') + sold pid (w_db w') = stock_of pid (w_db w) + sold pid (w_db w)"
  proof (cases "\<exists>o1. r = Inr o1 \<and> order_placed o1")
    case True
    then obtain o1 where "r = Inr o1" "order_placed o1" by blast
    from run this ok(2) show ?thesis
    proof (cases rule: createOrder_placed)
      case 1
      then show ?thesis by (simp add: stock_of_placed sold_placed orderOf_def)
    qed
  qed (use createOrder_unplaced [OF run] in simp)
  ultimately show "committed (\<lambda>d. schema_ok e d \<and> stock_of pid d + sold pid d = K) w'"
    using inv by (simp add: committed_def)
qed

section \<open>Serving requests for one unit\<close>

text \<open>
  What a run of requests needs in order to be served: a healthy server, a generator that is not
  about to exhaust its millisecond, a product on sale, unused and pairwise different request
  identifiers, and order numbers that the generator handed out before.
\<close>

definition serve_ready :: "env \<Rightarrow> uint64 \<Rightarrow> CreateOrderReq list \<Rightarrow> world \<Rightarrow> bool" where
  "serve_ready e pid reqs w \<longleftrightarrow>
     schema_ok e (w_db w) \<and> healthy_from e (w_sql w) \<and> 0 \<le> sint pid \<and>
     idgen_ok (w_gen w) \<and> gLastTimestampMs (w_gen w) \<le> currentTimeMs (clock_ns e) (w_clk w) \<and>
     gSequence (w_gen w) + int (length reqs) < 4096 \<and>
     (\<exists>p. product_row_of pid (w_db w) = Some p \<and> tp_status p = 1 \<and> 0 \<le> tp_price p \<and> tp_price p < 10 ^ 18) \<and>
     list_all (\<lambda>r. cor_productId r = pid \<and> cor_quantity r = 1 \<and> 0 \<le> sint (cor_userId r)) reqs \<and>
     distinct (map (\<lambda>r. ckey e (cor_requestId r)) reqs) \<and>
     list_all (\<lambda>r. idem_lookup e (ckey e (cor_requestId r)) (w_db w) = None \<and>
        list_all (\<lambda>o1. ckey e (to_request_id o1) \<noteq> ckey e (cor_requestId r)) (t_order (w_db w))) reqs \<and>
     list_all (\<lambda>o1. \<exists>v. to_order_no o1 = string_of_int v \<and> 0 \<le> v \<and> v \<le> id_value (w_gen w)) (t_order (w_db w))"

definition steady_env :: "env \<Rightarrow> bool" where
  "steady_env e \<longleftrightarrow> digits_collate e \<and> clock_in_range (clock_ns e) \<and> mono (clock_ns e) \<and>
     (\<forall>k. dt_parse e (dbTimeAfter (clock_ns e k) kIdempotentExpireMinutes) \<noteq> None \<and>
          dt_parse e (dbTimeAfter (clock_ns e k) kOrderExpireMinutes) \<noteq> None)"

lemma ckey_string_of_int:
  assumes "digits_collate e" and "0 \<le> u" "0 \<le> v" "ckey e (string_of_int u) = ckey e (string_of_int v)"
  shows "u = v"
proof -
  have "list_all is_digit (string_of_int u)" "list_all is_digit (string_of_int v)"
    using assms(2,3) by (auto simp: string_of_int_def list_all_iff string_of_nat_digits)
  with assms(1,4) have "string_of_int u = string_of_int v" by (simp add: digits_collate_def)
  then show ?thesis by (simp add: string_of_int_inj)
qed

lemma serve_ready_short:
  assumes "serve_ready e pid (req # reqs) w"
    and "w_db w1 = w_db w" "w_gen w1 = w_gen w" "w_sql w \<le> w_sql w1"
    and "currentTimeMs (clock_ns e) (w_clk w) \<le> currentTimeMs (clock_ns e) (w_clk w1)"
  shows "serve_ready e pid reqs w1"
  using assms by (auto simp: serve_ready_def intro: healthy_from_mono)

lemma serve_ready_sold:
  assumes ready: "serve_ready e pid (req # reqs) w"
    and db: "w_db w1 = placed_db e req order rec oe ke (w_db w)" "schema_ok e (w_db w1)"
    and order: "ord_orderNo order = string_of_int (id_value (w_gen w1))" "ord_requestId order = cor_requestId req"
      "idm_requestId rec = cor_requestId req"
    and gen: "idgen_ok (w_gen w1)" "id_value (w_gen w) < id_value (w_gen w1)" "0 \<le> id_value (w_gen w1)"
      "gSequence (w_gen w1) \<le> gSequence (w_gen w) + 1"
      "gLastTimestampMs (w_gen w1) \<le> currentTimeMs (clock_ns e) (w_clk w1)"
    and sql: "w_sql w \<le> w_sql w1"
  shows "serve_ready e pid reqs w1"
proof -
  have prod: "\<exists>p. product_row_of pid (w_db w1) = Some p \<and> tp_status p = 1 \<and> 0 \<le> tp_price p \<and> tp_price p < 10 ^ 18"
    using ready db(1) by (auto simp: serve_ready_def product_row_of_placed product_row_of_sell)
  from ready have "ckey e (cor_requestId req) \<notin> (\<lambda>r. ckey e (cor_requestId r)) ` set reqs"
    by (simp add: serve_ready_def)
  then have keys: "list_all (\<lambda>r. ckey e (cor_requestId r) \<noteq> ckey e (cor_requestId req)) reqs"
    unfolding list_all_iff by (metis image_eqI)
  have idem: "list_all (\<lambda>r. idem_lookup e (ckey e (cor_requestId r)) (w_db w1) = None \<and>
        list_all (\<lambda>o1. ckey e (to_request_id o1) \<noteq> ckey e (cor_requestId r)) (t_order (w_db w1))) reqs"
    using ready keys order
    by (auto simp: db(1) serve_ready_def list_all_iff placed_db_def idem_lookup_def first_where_append
        first_where_single idem_row_for_def order_row_for_def)
  have nos: "list_all (\<lambda>o1. \<exists>v. to_order_no o1 = string_of_int v \<and> 0 \<le> v \<and> v \<le> id_value (w_gen w1)) (t_order (w_db w1))"
  proof -
    have "list_all (\<lambda>o1. \<exists>v. to_order_no o1 = string_of_int v \<and> 0 \<le> v \<and> v \<le> id_value (w_gen w1)) (t_order (w_db w))"
      using ready gen(2) by (fastforce simp: serve_ready_def list_all_iff)
    with order(1) gen(3) show ?thesis by (auto simp: db(1) placed_db_def order_row_for_def)
  qed
  from ready healthy_from_mono [OF _ sql] have "healthy_from e (w_sql w1)" by (simp add: serve_ready_def)
  with ready db(2) gen prod idem nos show ?thesis by (simp add: serve_ready_def)
qed

lemma serve_ready_fresh:
  assumes env: "steady_env e" and ready: "serve_ready e pid (req # reqs) w" and g: "id_value (w_gen w) < n" "0 \<le> n"
  shows "\<forall>r \<in> set (t_order (w_db w)). ckey e (to_order_no r) \<noteq> ckey e (string_of_int n) \<and> ckey e (to_request_id r) \<noteq> ckey e (cor_requestId req)"
proof
  fix r
  assume "r \<in> set (t_order (w_db w))"
  with ready obtain v where v: "to_order_no r = string_of_int v" "0 \<le> v" "v \<le> id_value (w_gen w)"
    and "ckey e (to_request_id r) \<noteq> ckey e (cor_requestId req)"
    by (auto simp: serve_ready_def list_all_iff)
  moreover have "ckey e (string_of_int v) \<noteq> ckey e (string_of_int n)"
    using ckey_string_of_int [of e v n] env v g by (auto simp: steady_env_def)
  ultimately show "ckey e (to_order_no r) \<noteq> ckey e (string_of_int n) \<and> ckey e (to_request_id r) \<noteq> ckey e (cor_requestId req)" by simp
qed

lemma serve_step_sold:
  assumes env: "steady_env e" and ready: "serve_ready e pid (req # reqs) w" and stock: "0 < stock_of pid (w_db w)"
  shows "\<exists>o1 w1. OrderService_createOrder e req w = Some (Inr o1, w1) \<and> serve_ready e pid reqs w1 \<and>
    order_placed o1 \<and> stock_of pid (w_db w1) = stock_of pid (w_db w) - 1"
proof -
  from ready obtain p where
    schema: "schema_ok e (w_db w)" and healthy: "healthy_from e (w_sql w)" and pid: "0 \<le> sint pid" and
    gen: "idgen_ok (w_gen w)" "gLastTimestampMs (w_gen w) \<le> currentTimeMs (clock_ns e) (w_clk w)" "gSequence (w_gen w) < 4095" and
    p: "product_row_of pid (w_db w) = Some p" "tp_status p = 1" "0 \<le> tp_price p" "tp_price p < 10 ^ 18" "1 \<le> tp_stock p" and
    req: "cor_productId req = pid" "cor_quantity req = 1" "0 \<le> sint (cor_userId req)" and
    none: "idem_row_of e (cor_requestId req) (w_db w) = None"
    using stock by (auto simp: serve_ready_def stock_of_def idem_row_of_lookup)
  from env have clk: "clock_in_range (clock_ns e)" "mono (clock_ns e)" by (simp_all add: steady_env_def)
  from env req have rok: "request_ok e req w" by (auto simp: request_ok_def steady_env_def)
  have ok: "product_ok (t_product (w_db w))" using schema by (simp add: schema_ok_def)
  have "gLastTimestampMs (w_gen w) \<le> currentTimeMs (clock_ns e) (Suc (w_clk w))"
    using gen(2) currentTimeMs_mono [OF clk(2,1), of "w_clk w" "Suc (w_clk w)"] by simp
  from nextId_steady [OF clk(1) gen(1) this gen(3)] obtain g where
    nid: "IdGenerator_nextId (clock_ns e) (w_gen w, Suc (w_clk w)) =
       Some (Inr (string_of_int (id_value g)), g, Suc (Suc (w_clk w)))" and
    g: "idgen_ok g" "id_value (w_gen w) < id_value g" "0 \<le> id_value g" "gSequence g \<le> gSequence (w_gen w) + 1"
      "gLastTimestampMs g = currentTimeMs (clock_ns e) (Suc (w_clk w))" .
  note fresh = serve_ready_fresh [OF env ready g(2,3)]
  from env obtain x where x: "dt_parse e (dbTimeAfter (clock_ns e (Suc (Suc (w_clk w)))) kOrderExpireMinutes) = Some x"
    by (auto simp: steady_env_def)
  from createOrder_succeeds [OF healthy rok schema none _ _ _ _ _ _ nid x fresh] p req pid
  obtain order w1 where run: "OrderService_createOrder e req w = Some (Inr (executed (Result_ok order (cor_requestId req))), w1)"
    and w1: "ord_orderNo order = string_of_int (id_value g)" "w_gen w1 = g" "w_clk w1 = Suc (Suc (Suc (w_clk w)))" "w_sql w \<le> w_sql w1"
    by auto
  have later: "currentTimeMs (clock_ns e) (Suc (w_clk w)) \<le> currentTimeMs (clock_ns e) (w_clk w1)"
    using w1(3) by (intro currentTimeMs_mono [OF clk(2,1)]) simp
  have "schema_ok e (w_db w1)" using preservesD [OF schema_createOrder run] schema by (simp add: committed_def)
  have placed: "order_placed (executed (Result_ok order (cor_requestId req)))" by simp
  from run refl placed ok show ?thesis
  proof (cases rule: createOrder_placed)
    case (1 p' order' rec oe ke no t)
    then have "order' = order" by (simp add: executed_def Result_ok_def)
    with 1 have "serve_ready e pid reqs w1"
      using w1 g later \<open>schema_ok e (w_db w1)\<close>
      by (intro serve_ready_sold [OF ready, where rec = rec and order = order and oe = oe and ke = ke]) (auto simp: orderOf_def)
    moreover have "stock_of pid (w_db w1) = stock_of pid (w_db w) - 1"
      using 1(1,12) req by (simp add: stock_of_placed)
    ultimately show ?thesis using run placed by blast
  qed
qed

lemma serve_step_short:
  assumes env: "steady_env e" and ready: "serve_ready e pid (req # reqs) w" and stock: "\<not> 0 < stock_of pid (w_db w)"
  shows "\<exists>o1 w1. OrderService_createOrder e req w = Some (Inr o1, w1) \<and> serve_ready e pid reqs w1 \<and>
    coo_result o1 = Result_fail kStockNotEnough msg_stock_short (cor_requestId req) \<and> w_db w1 = w_db w"
proof -
  from ready obtain p where
    schema: "schema_ok e (w_db w)" and healthy: "healthy_from e (w_sql w)" and
    p: "product_row_of pid (w_db w) = Some p" "tp_status p = 1" "tp_stock p < 1" and
    req: "cor_productId req = pid" "cor_quantity req = 1" "0 \<le> sint (cor_userId req)" and
    none: "idem_row_of e (cor_requestId req) (w_db w) = None"
    using stock by (auto simp: serve_ready_def stock_of_def idem_row_of_lookup)
  from env req have rok: "request_ok e req w" by (auto simp: request_ok_def steady_env_def)
  from createOrder_refused [OF healthy rok schema none, of kStockNotEnough msg_stock_short] p req
  obtain w1 where run: "OrderService_createOrder e req w =
      Some (Inr (executed (Result_fail kStockNotEnough msg_stock_short (cor_requestId req))), w1)"
    and w1: "w_db w1 = w_db w" "w_gen w1 = w_gen w" "w_clk w1 = Suc (w_clk w)" "w_sql w \<le> w_sql w1" by auto
  have "currentTimeMs (clock_ns e) (w_clk w) \<le> currentTimeMs (clock_ns e) (w_clk w1)"
    using env w1(3) by (intro currentTimeMs_mono) (auto simp: steady_env_def)
  from serve_ready_short [OF ready w1(1,2,4) this] run w1(1) show ?thesis by (auto simp: executed_def)
qed

interpretation finished_keys: invariant_ops "OrderService_createOrder e"
    "committed (\<lambda>d. schema_ok e d \<and> snapshots_ok d)" for e
  by unfold_locales
     (auto simp: committed_def intro: snapshots_ok_createOrder dest: preservesD [OF schema_createOrder])

section \<open>Properties\<close>

text \<open>
  The total is the product of price and quantity whenever that fits \<open>int64_t\<close>, in particular for every
  price up to 90 trillion yuan. The multiplication is not guarded: beyond, where C++ leaves the result
  open and the model wraps, an order for 37 units of the dearest product a \<open>DECIMAL(18,2)\<close> column admits
  would cost about a tenth of one unit.
\<close>

lemma total_fits: "\<bar>price\<bar> \<le> 9000000000000000 \<Longrightarrow> 1 \<le> quantity \<Longrightarrow> quantity \<le> 999 \<Longrightarrow> in_i64 (price * quantity)"
proof -
  assume "\<bar>price\<bar> \<le> 9000000000000000" "1 \<le> quantity" "quantity \<le> 999"
  then have "\<bar>price * quantity\<bar> \<le> 9000000000000000 * 999" unfolding abs_mult by (intro mult_mono) simp_all
  then show ?thesis by (intro in_i64I) simp
qed

lemma total_overflows:
  "ord_totalAmountFen (orderOf (req\<lparr>cor_quantity := 37\<rparr>) (p\<lparr>prd_priceFen := 999999999999999999\<rparr>) orderNo expire) = 106511852580896731"
  by (simp add: orderOf_def wrap64_def)

text \<open>
  C10: the effect of a successful order. When \<open>createOrder\<close> reports a new order, the product was on
  sale with enough stock, the quantity was within 1 to 999, the order carries the price of the
  product at that moment and, when price times quantity fits \<open>int64_t\<close> (as it does for every price up
  to 90 trillion yuan), exactly that as its total; and the committed tables changed in exactly three
  places: the stock of the product fell by the quantity, the order was appended as pending, and the
  request identifier was recorded with the snapshot of this response.
\<close>

theorem createOrder_effect:
  assumes "schema_ok e (w_db w)" and "OrderService_createOrder e req w = Some (Inr o1, w')" and "order_placed o1"
  shows "\<exists>p order rec orderExpire keyExpire.
     product_row_of (cor_productId req) (w_db w) = Some p \<and> tp_status p = 1 \<and>
     1 \<le> cor_quantity req \<and> cor_quantity req \<le> 999 \<and> cor_quantity req \<le> tp_stock p \<and>
     coo_result o1 = Result_ok order (cor_requestId req) \<and>
     ord_quantity order = cor_quantity req \<and> ord_unitPriceFen order = tp_price p \<and>
     (in_i64 (tp_price p * cor_quantity req) \<longrightarrow> ord_totalAmountFen order = tp_price p * cor_quantity req) \<and>
     (\<bar>tp_price p\<bar> \<le> 9000000000000000 \<longrightarrow> ord_totalAmountFen order = tp_price p * cor_quantity req) \<and>
     ord_status order = OrderStatus_kPendingPayment \<and> ord_userId order = cor_userId req \<and>
     ord_productId order = cor_productId req \<and> ord_requestId order = cor_requestId req \<and>
     idm_requestId rec = cor_requestId req \<and> idm_requestHash rec = cor_requestHash req \<and>
     w_db w' = placed_db e req order rec orderExpire keyExpire (w_db w)"
proof -
  from assms(1) have "product_ok (t_product (w_db w))" by (simp add: schema_ok_def)
  from assms(2) refl assms(3) this show ?thesis
  proof (cases rule: createOrder_placed)
    case (1 p order rec orderExpire keyExpire orderNo t)
    then show ?thesis using total_fits [of "tp_price p" "cor_quantity req"]
      by (intro exI [of _ p] exI [of _ order] exI [of _ rec] exI [of _ orderExpire] exI [of _ keyExpire])
         (simp add: executed_def orderOf_def)
  qed
qed

text \<open>
  \<open>createOrder\<close> is atomic and catches everything. Whatever the environment does (faults at any
  statement, a refused transaction, a clock running backwards), no exception leaves the service, and
  unless the call reports a new order the committed tables are untouched: a failed request leaves
  neither a stock change nor a used request identifier behind. (A COMMIT that reports a failure is
  taken as not performed, see \<open>TransactionGuard_commit\<close>.)
\<close>

lemma createOrder_atomic:
  assumes "OrderService_createOrder e req w = Some (r, w')"
  shows "\<exists>o1. r = Inr o1 \<and> (order_placed o1 \<or> w_db w' = w_db w)"
  using assms
proof (cases rule: createOrder_cases)
  case (entered o1 w1 w2)
  with createOrder_unplaced [OF assms] show ?thesis by blast
qed simp

text \<open>
  exactly once. After a request placed an order, and after any number of further requests with
  whatever outcomes, a request with the same identifier (even with other content) returns the
  snapshot of the first response, byte for byte as the compact printer wrote it, and changes nothing.
\<close>

theorem createOrder_exactly_once:
  assumes "schema_ok e (w_db w)"
    and "OrderService_createOrder e req w = Some (Inr o1, w1)" and "order_placed o1"
    and "run_ops (OrderService_createOrder e) reqs w1 = Some (rs, w2)"
    and "cor_requestId req2 = cor_requestId req" and "request_ok e req2 w2" and "healthy_from e (w_sql w2)"
  shows "\<exists>order w3. coo_result o1 = Result_ok order (cor_requestId req) \<and>
    OrderService_createOrder e req2 w2 = Some (Inr (cached (orderSnapshot e order (cor_requestId req))), w3) \<and>
    w_db w3 = w_db w2"
proof -
  from assms(1) have "product_ok (t_product (w_db w))" by (simp add: schema_ok_def)
  from assms(2) refl assms(3) this show ?thesis
  proof (cases rule: createOrder_placed)
    case (1 p order rec orderExpire keyExpire orderNo t)
    let ?row = "(idem_row_for rec keyExpire)
      \<lparr>ti_status := 1, ti_response_body := Some (orderSnapshot e order (cor_requestId req))\<rparr>"
    from 1(8,9,12) have "committed (\<lambda>d. idem_lookup e (ckey e (cor_requestId req)) d = Some ?row \<and> ti_status ?row = 1) w1"
      by (simp add: committed_def placed_db_idem)
    from snapshot_kept.inv_run_ops [OF this assms(4)]
    have "idem_row_of e (cor_requestId req2) (w_db w2) = Some ?row"
      using assms(5) by (simp add: committed_def idem_row_of_lookup)
    from createOrder_known [OF assms(7,6) this] 1(7) show ?thesis
      by (auto simp: executed_def)
  qed
qed

text \<open>
  the answer 10003 does not occur. A request identifier becomes visible to other transactions
  only together with its snapshot, so over any sequence of requests, starting from tables whose
  idempotency rows are finished, no response carries the code for a request still in process.
\<close>

theorem createOrder_never_10003:
  assumes "schema_ok e (w_db w)" and "snapshots_ok (w_db w)"
    and "run_ops (OrderService_createOrder e) reqs w = Some (rs, w')" and "Inr o1 \<in> set rs"
  shows "res_code (coo_result o1) \<noteq> 10003"
proof -
  have "committed (\<lambda>d. schema_ok e d \<and> snapshots_ok d) w" using assms(1,2) by (simp add: committed_def)
  from finished_keys.inv_each [OF this assms(3,4)] obtain req w1 w2 where
    "snapshots_ok (w_db w1)" "OrderService_createOrder e req w1 = Some (Inr o1, w2)"
    by (auto simp: committed_def)
  from createOrder_never_duplicate [OF this(2,1)] show ?thesis by simp
qed

text \<open>
  C33: the refusals. On a healthy server a request with an unused identifier for a missing product
  is answered with 30001, for a product off sale with 30001, and for more units than in stock with
  30002, each with its own text, and nothing is changed or consumed but one clock reading.
\<close>

theorem createOrder_refusals:
  assumes "healthy_from e (w_sql w)" and "request_ok e req w" and "schema_ok e (w_db w)"
    and "idem_row_of e (cor_requestId req) (w_db w) = None"
    and "case product_row_of (cor_productId req) (w_db w) of
           None \<Rightarrow> c = kProductNotFound \<and> m = msg_product_missing
         | Some p \<Rightarrow> if tp_status p \<noteq> 1 then c = kProductNotFound \<and> m = msg_product_off_sale
                     else tp_stock p < cor_quantity req \<and> c = kStockNotEnough \<and> m = msg_stock_short"
  shows "\<exists>w'. OrderService_createOrder e req w = Some (Inr (executed (Result_fail c m (cor_requestId req))), w') \<and>
    w_db w' = w_db w \<and> w_gen w' = w_gen w \<and> w_clk w' = Suc (w_clk w) \<and> w_sql w \<le> w_sql w'"
  using assms by (rule createOrder_refused)

text \<open>
  no overselling, ever. Over any sequence of requests and any faults, the units in stock plus
  the units bound in orders of a product stay constant, the stock never becomes negative, and so
  the units sold never exceed the units there were.
\<close>

theorem createOrder_no_oversell:
  assumes "schema_ok e (w_db w)" and "run_ops (OrderService_createOrder e) reqs w = Some (rs, w')"
  shows "stock_of pid (w_db w') + sold pid (w_db w') = stock_of pid (w_db w) + sold pid (w_db w) \<and>
    0 \<le> stock_of pid (w_db w') \<and> sold pid (w_db w') - sold pid (w_db w) \<le> stock_of pid (w_db w)"
proof -
  have "committed (\<lambda>d. schema_ok e d \<and> stock_of pid d + sold pid d = stock_of pid (w_db w) + sold pid (w_db w)) w"
    using assms(1) by (simp add: committed_def)
  from units_kept.inv_run_ops [OF this assms(2)]
  have kept: "schema_ok e (w_db w')" "stock_of pid (w_db w') + sold pid (w_db w') = stock_of pid (w_db w) + sold pid (w_db w)"
    by (simp_all add: committed_def)
  moreover from kept(1) have "0 \<le> stock_of pid (w_db w')" by (intro stock_of_nonneg) (simp add: schema_ok_def)
  ultimately show ?thesis by simp
qed

text \<open>
  C26: the stock is served exactly. \<open>n\<close> requests for one unit of a product, with unused and pairwise
  different identifiers, all return, and exactly \<open>min n stock\<close> of them place an order; the stock
  falls by that number. The clock may stand still or advance but not run backwards, and stays
  within the sequence of one millisecond in the worst case.
\<close>

theorem createOrder_serves_stock:
  assumes "steady_env e" and "serve_ready e pid reqs w"
  shows "\<exists>rs w'. run_ops (OrderService_createOrder e) reqs w = Some (rs, w') \<and>
    length (filter (\<lambda>r. \<exists>o1. r = Inr o1 \<and> order_placed o1) rs) = min (length reqs) (nat (stock_of pid (w_db w))) \<and>
    stock_of pid (w_db w') = stock_of pid (w_db w) - int (min (length reqs) (nat (stock_of pid (w_db w))))"
  using assms(2)
proof (induction reqs arbitrary: w)
  case Nil
  then show ?case by simp
next
  case (Cons req reqs)
  show ?case
  proof (cases "0 < stock_of pid (w_db w)")
    case True
    from serve_step_sold [OF assms(1) Cons.prems True] obtain o1 w1 where
      step: "OrderService_createOrder e req w = Some (Inr o1, w1)" "serve_ready e pid reqs w1" "order_placed o1"
        "stock_of pid (w_db w1) = stock_of pid (w_db w) - 1" by blast
    from True obtain s where "stock_of pid (w_db w) = int (Suc s)"
      using zero_less_imp_eq_int gr0_implies_Suc by metis
    with Cons.IH [OF step(2)] step(1,3,4) show ?thesis by (auto simp: nat_add_distrib)
  next
    case False
    from serve_step_short [OF assms(1) Cons.prems False] obtain o1 w1 where
      step: "OrderService_createOrder e req w = Some (Inr o1, w1)" "serve_ready e pid reqs w1"
        "coo_result o1 = Result_fail kStockNotEnough msg_stock_short (cor_requestId req)" "w_db w1 = w_db w" by blast
    then have "\<not> order_placed o1" by (simp add: order_placed_def)
    with Cons.IH [OF step(2)] step(1,4) False show ?thesis by auto
  qed
qed

section \<open>Witnesses\<close>

text \<open>The first request of the example takes both units.\<close>

lemma demo_createOrder:
  "\<exists>w1. OrderService_createOrder demo_env (demo_req ''r1'' 2) demo_world =
     Some (Inr (executed (Result_ok
       \<lparr>ord_orderNo = ''264905529757929472'', ord_requestId = ''r1'', ord_userId = 7, ord_productId = 1,
        ord_quantity = 2, ord_unitPriceFen = 250, ord_totalAmountFen = 500,
        ord_status = OrderStatus_kPendingPayment, ord_expireTime = ''2026-01-01 08:30:00'', ord_paidAt = []\<rparr>
       ''r1'')), w1) \<and> w_clk w1 = 3"
  by (simp add: eval_simps demo_defs cong: eval_cong)

lemma demo_schema [simp]: "schema_ok e (w_db demo_world)"
  by (simp add: demo_world_def)

theorem createOrder_effect_witness:
  "\<exists>o1 w1 p order rec x y.
     OrderService_createOrder demo_env (demo_req ''r1'' 2) demo_world = Some (Inr o1, w1) \<and>
     product_row_of 1 demo_db = Some p \<and> ord_totalAmountFen order = 500 \<and>
     coo_result o1 = Result_ok order ''r1'' \<and>
     w_db w1 = placed_db demo_env (demo_req ''r1'' 2) order rec x y demo_db"
proof -
  from demo_createOrder obtain order w1 where
    run: "OrderService_createOrder demo_env (demo_req ''r1'' 2) demo_world = Some (Inr (executed (Result_ok order ''r1'')), w1)"
    by blast
  from createOrder_effect [OF demo_schema run] run show ?thesis
    by (auto simp: demo_world_def product_row_of_def first_where_def demo_db_def in_i64_def)
qed

lemma createOrder_atomic_witness:
  "\<exists>o1 w1. OrderService_createOrder (demo_env\<lparr>sql_fault := (\<lambda>n. n = 5)\<rparr>) (demo_req ''r1'' 2) demo_world = Some (Inr o1, w1) \<and>
     w_db w1 = demo_db"
proof -
  have "\<exists>o1 w1. OrderService_createOrder (demo_env\<lparr>sql_fault := (\<lambda>n. n = 5)\<rparr>) (demo_req ''r1'' 2) demo_world = Some (Inr o1, w1) \<and>
     \<not> order_placed o1"
    by (simp add: eval_simps demo_defs order_placed_def cong: eval_cong)
  then obtain o1 w1 where
    run: "OrderService_createOrder (demo_env\<lparr>sql_fault := (\<lambda>n. n = 5)\<rparr>) (demo_req ''r1'' 2) demo_world = Some (Inr o1, w1)"
    and "\<not> order_placed o1" by blast
  with createOrder_atomic [OF run] show ?thesis by (simp add: demo_world_def)
qed

theorem createOrder_exactly_once_witness:
  "\<exists>order w1 w3. OrderService_createOrder demo_env (demo_req ''r1'' 2) demo_world =
       Some (Inr (executed (Result_ok order ''r1'')), w1) \<and>
     OrderService_createOrder demo_env (demo_req ''r1'' 1) w1 = Some (Inr (cached (orderSnapshot demo_env order ''r1'')), w3) \<and>
     w_db w3 = w_db w1"
proof -
  from demo_createOrder obtain order w1 where
    run: "OrderService_createOrder demo_env (demo_req ''r1'' 2) demo_world = Some (Inr (executed (Result_ok order ''r1'')), w1)"
    and clk: "w_clk w1 = 3" by blast
  have "request_ok demo_env (demo_req ''r1'' 1) w1"
    by (simp add: request_ok_def clk eval_simps demo_defs)
  with createOrder_exactly_once [OF demo_schema run, of "[]" "[]" w1 "demo_req ''r1'' 1"] run show ?thesis
    by auto
qed

theorem createOrder_never_10003_witness:
  "\<exists>o1 w1. OrderService_createOrder demo_env (demo_req ''r1'' 2) demo_world = Some (Inr o1, w1) \<and>
     res_code (coo_result o1) \<noteq> 10003"
proof -
  from demo_createOrder obtain o1 w1 where
    run: "OrderService_createOrder demo_env (demo_req ''r1'' 2) demo_world = Some (Inr o1, w1)" by blast
  have "snapshots_ok (w_db demo_world)" by (simp add: snapshots_ok_def demo_world_def demo_db_def)
  from createOrder_never_10003 [OF demo_schema this, of demo_env "[demo_req ''r1'' 2]" "[Inr o1]" w1 o1] run
  show ?thesis by simp
qed

theorem createOrder_refusals_witness:
  "\<exists>w1. OrderService_createOrder demo_env (demo_req ''r1'' 3) demo_world =
     Some (Inr (executed (Result_fail kStockNotEnough msg_stock_short ''r1'')), w1) \<and> w_db w1 = demo_db"
proof -
  have "request_ok demo_env (demo_req ''r1'' 3) demo_world" "idem_row_of demo_env ''r1'' (w_db demo_world) = None"
    by (simp_all add: request_ok_def eval_simps demo_defs)
  moreover have "case product_row_of 1 (w_db demo_world) of None \<Rightarrow> False | Some p \<Rightarrow> tp_status p = 1 \<and> tp_stock p < 3"
    by (simp add: eval_simps demo_defs)
  moreover have "w_db demo_world = demo_db" by (simp add: demo_world_def)
  ultimately show ?thesis
    using createOrder_refusals [of demo_env demo_world "demo_req ''r1'' 3" kStockNotEnough msg_stock_short]
    by (auto split: option.splits)
qed

theorem createOrder_no_oversell_witness:
  "\<exists>rs w1. run_ops (OrderService_createOrder demo_env) [demo_req ''r1'' 2] demo_world = Some (rs, w1) \<and>
     stock_of 1 (w_db w1) + sold 1 (w_db w1) = 2"
proof -
  from demo_createOrder obtain o1 w1 where
    "OrderService_createOrder demo_env (demo_req ''r1'' 2) demo_world = Some (Inr o1, w1)" by blast
  then have run: "run_ops (OrderService_createOrder demo_env) [demo_req ''r1'' 2] demo_world = Some ([Inr o1], w1)"
    by simp
  from createOrder_no_oversell [OF demo_schema run, of 1] run show ?thesis
    by (simp add: stock_of_def sold_def demo_defs product_row_of_def first_where_def)
qed

theorem createOrder_serves_stock_witness:
  "\<exists>rs w1. run_ops (OrderService_createOrder still_env)
       [demo_req ''r1'' 1, demo_req ''r2'' 1, demo_req ''r3'' 1] demo_world = Some (rs, w1) \<and>
     length (filter (\<lambda>r. \<exists>o1. r = Inr o1 \<and> order_placed o1) rs) = 2 \<and> stock_of 1 (w_db w1) = 0"
proof -
  have "steady_env still_env"
    by (simp add: steady_env_def digits_collate_def clock_in_range_def kEpochMs_def mono_def eval_simps demo_defs)
  moreover have "serve_ready still_env 1 [demo_req ''r1'' 1, demo_req ''r2'' 1, demo_req ''r3'' 1] demo_world"
    by (simp add: serve_ready_def idgen_ok_def kEpochMs_def currentTimeMs_def healthy_from_def idem_lookup_def eval_simps demo_defs)
  moreover have "stock_of 1 (w_db demo_world) = 2"
    by (simp add: stock_of_def eval_simps demo_defs)
  ultimately show ?thesis using createOrder_serves_stock [of still_env 1 _ demo_world] by fastforce
qed

end
