(* ===== verification/PaymentProperties.thy ===== *)
theory PaymentProperties
  imports PaymentService Fixture
begin

text \<open>
  What a payment callback guarantees: its effect, atomicity, the rejection of forged callbacks and
  the agreement of the whole service with a decision function on the tables.
\<close>

section \<open>Properties\<close>

text \<open>
  C11: the effect of a payment. When a callback reports the order as paid, it was signed; the order
  was pending and its total is the amount of the callback; the account of its user was in normal
  status and covered the amount. The tables changed by exactly this: one payment, the order's
  status, the balance lowered by the amount, one outgoing flow whose before and after amounts are
  the two balances, and one message whose payload names the order.
\<close>

theorem callback_effect:
  assumes "schema_ok e (w_db w)"
    and "PaymentService_handleCallback e req rawBody w = Some (Inr res, w')" and "order_settled req res"
  shows "\<exists>ord a p f m n. callback_signed e req \<and> order_row_of e (pcr_orderNo req) (w_db w) = Some ord \<and> to_status ord = 0 \<and>
     yuanStringToFen (pcr_amount req) = Some (to_total_amount ord) \<and> 0 < to_total_amount ord \<and>
     account_row_of (word_of_int (to_user_id ord)) (w_db w) = Some a \<and> ta_status a = 0 \<and> to_total_amount ord \<le> ta_balance a \<and>
     paid_payment req ord p \<and> paid_flow req ord a f \<and> paid_message e req ord m \<and>
     w_db w' = paid_db e (pcr_orderNo req) n (ta_account_no a) (to_total_amount ord) p f m (w_db w)"
  using assms(2) refl assms(3,1) by (rule handleCallback_paid) blast

text \<open>
  A callback is atomic: unless it reports the order as paid, the committed tables are unchanged,
  whatever statement fails; the only exception that can leave the service is the one of a
  configuration whose secret is not readable as text. (A COMMIT that reports a failure is taken as not
  performed, see \<open>TransactionGuard_commit\<close>.)
\<close>

lemma callback_atomic:
  assumes "PaymentService_handleCallback e req rawBody w = Some (r, w')"
  shows "(\<exists>res. r = Inr res \<and> (order_settled req res \<or> w_db w' = w_db w)) \<or>
    (r = Inl StdException \<and> w' = w \<and> configValue (custom_config e) ''mock_channel'' ''secret'' '''' = None)"
  using assms
proof (cases rule: handleCallback_cases)
  case (entered res w1 w2)
  with handleCallback_unsettled [OF assms] show ?thesis by blast
qed simp_all

text \<open>
  C13: forged callbacks. Under a configured secret, a callback for another channel is answered 50004,
  and one whose signature is not the lower-case hexadecimal text of the HMAC of its order number,
  trade number, amount and timestamp (or any callback when the secret is empty) is answered 50001;
  the whole state of the process, the clock and the identifier generator included, stays as it was.
\<close>

theorem callback_forged:
  assumes "configValue (custom_config e) ''mock_channel'' ''secret'' '''' = Some secret"
    and "pcr_channel req \<noteq> ''MOCK'' \<or> secret = '''' \<or>
      pcr_sign req \<noteq> concat (map (\<lambda>b. [hex_digit (of_char b div 16), hex_digit (of_char b mod 16)])
        (hmac_sha256 e secret (concat [pcr_orderNo req, ''|'', pcr_channelTradeNo req, ''|'', pcr_amount req, ''|'', pcr_timestamp req])))"
  shows "PaymentService_handleCallback e req rawBody w =
    Some (Inr (if pcr_channel req = ''MOCK'' then Result_fail kSignVerifyFailed msg_sign_failed (pcr_requestId req)
               else Result_fail kUnsupportedChannel msg_channel_unsupported (pcr_requestId req)), w)"
proof -
  have "\<not> verifyMockSign e secret (pcr_orderNo req) (pcr_channelTradeNo req) (pcr_amount req) (pcr_timestamp req) (pcr_sign req)"
    if "pcr_channel req = ''MOCK''" "secret \<noteq> ''''"
    using assms(2) that by (simp only: verifyMockSign_right right_signature_def simp_thms)
  with assms(1) show ?thesis by (auto simp: PaymentService_handleCallback_def kSupportedChannel_def or_throw_def ret_def)
qed

text \<open>
  C12: the decision. A signed callback on a healthy server that draws a new payment number is answered
  exactly as the decision function says: missing order, wrong amount, unreadable timestamp, trade
  number bound elsewhere, replay, order in another state, missing account, short balance, an amount
  that is not positive, a request identifier that already has a payment flow, and an unreadable broker
  configuration each get their answer without any change of the tables; in the remaining case the
  payment is made and reported. (Where the outbox is reached, the identifier drawn for the message has
  to be new too.)
\<close>

theorem callback_decides:
  assumes "callback_entered e req no g k w" and "schema_ok e (w_db w)"
    and "\<forall>r \<in> set (t_payment (w_db w)). ckey e (ty_payment_no r) \<noteq> ckey e no"
    and "callback_outcome e req (w_db w) \<in> {None, Some (Inl StdException)} \<longrightarrow> message_id_new e g k (w_db w)"
  shows "\<exists>w'. PaymentService_handleCallback e req rawBody w =
      Some (Inr (case callback_outcome e req (w_db w) of
         Some r \<Rightarrow> answer_of req r | None \<Rightarrow> Result_ok (paidData req) (pcr_requestId req)), w') \<and>
    (callback_outcome e req (w_db w) = None \<or> w_db w' = w_db w)"
  using assms by (rule handleCallback_decides)

section \<open>Witnesses\<close>

definition pay_world :: world where
  "pay_world = demo_world\<lparr>w_db := demo_db\<lparr>t_order := [\<lparr>to_order_no = ''1'', to_request_id = ''r1'', to_user_id = 7,
     to_product_id = 1, to_quantity = 2, to_unit_price = 250, to_total_amount = 500, to_status = 0,
     to_expire_time = 0, to_paid_at = None\<rparr>]\<rparr>\<rparr>"

definition demo_callback :: "string \<Rightarrow> string \<Rightarrow> PaymentCallbackReq" where
  "demo_callback requestId amount =
     \<lparr>pcr_requestId = requestId, pcr_orderNo = ''1'', pcr_channel = ''MOCK'', pcr_channelTradeNo = ''t1'', pcr_amount = amount,
      pcr_timestamp = ''1767225600'', pcr_sign = concat (replicate 32 ''77'')\<rparr>"

lemma demo_pay:
  "\<exists>w1. PaymentService_handleCallback demo_env (demo_callback ''c1'' ''5.00'') ''{}'' pay_world =
     Some (Inr (Result_ok (paidData (demo_callback ''c1'' ''5.00'')) ''c1''), w1)"
  by (simp add: eval_simps demo_defs pay_world_def demo_callback_def cong: eval_cong)

lemma pay_world_schema [simp]: "schema_ok demo_env (w_db pay_world)"
  by (simp add: pay_world_def demo_defs eval_simps)

lemma demo_callback_simps [simp]:
  "pcr_requestId (demo_callback rid amount) = rid" "pcr_orderNo (demo_callback rid amount) = ''1''"
  "pcr_channel (demo_callback rid amount) = ''MOCK''" "pcr_amount (demo_callback rid amount) = amount"
  by (simp_all add: demo_callback_def)

lemma demo_secret [simp]: "configValue (custom_config demo_env) ''mock_channel'' ''secret'' '''' = Some ''k''"
  by (simp add: eval_simps demo_defs)

lemma demo_signed: "callback_signed demo_env (demo_callback rid amount)"
  by (simp add: callback_signed_guard eval_simps demo_defs demo_callback_def)

theorem callback_effect_witness:
  "\<exists>res w1 ord a p f m n. PaymentService_handleCallback demo_env (demo_callback ''c1'' ''5.00'') ''{}'' pay_world = Some (Inr res, w1) \<and>
     order_row_of demo_env ''1'' (w_db pay_world) = Some ord \<and> paid_flow (demo_callback ''c1'' ''5.00'') ord a f \<and>
     w_db w1 = paid_db demo_env ''1'' n (ta_account_no a) (to_total_amount ord) p f m (w_db pay_world)"
proof -
  from demo_pay obtain w1 where
    run: "PaymentService_handleCallback demo_env (demo_callback ''c1'' ''5.00'') ''{}'' pay_world =
     Some (Inr (Result_ok (paidData (demo_callback ''c1'' ''5.00'')) ''c1''), w1)" by blast
  have "order_settled (demo_callback ''c1'' ''5.00'') (Result_ok (paidData (demo_callback ''c1'' ''5.00'')) ''c1'')"
    by (simp add: order_settled_def)
  from callback_effect [OF pay_world_schema run this] run show ?thesis by simp blast
qed

lemma callback_atomic_witness:
  "\<exists>res w1. PaymentService_handleCallback (demo_env\<lparr>sql_fault := (\<lambda>n. n = 6)\<rparr>) (demo_callback ''c1'' ''5.00'') ''{}'' pay_world =
     Some (Inr res, w1) \<and> w_db w1 = w_db pay_world"
proof -
  let ?e = "demo_env\<lparr>sql_fault := (\<lambda>n. n = 6)\<rparr>" and ?req = "demo_callback ''c1'' ''5.00''"
  have "\<exists>w1. PaymentService_handleCallback ?e ?req ''{}'' pay_world = Some (Inr (Result_fail kDbError (toMessage kDbError) ''c1''), w1)"
    by (simp add: eval_simps demo_defs pay_world_def demo_callback_def cong: eval_cong)
  then obtain w1 where run: "PaymentService_handleCallback ?e ?req ''{}'' pay_world = Some (Inr (Result_fail kDbError (toMessage kDbError) ''c1''), w1)"
    by blast
  from callback_atomic [OF run] run show ?thesis by auto
qed

theorem callback_forged_witness:
  "PaymentService_handleCallback demo_env ((demo_callback ''c1'' ''5.00'')\<lparr>pcr_sign := concat (replicate 32 ''78'')\<rparr>) ''{}'' pay_world =
     Some (Inr (Result_fail kSignVerifyFailed msg_sign_failed ''c1''), pay_world)"
proof -
  let ?req = "(demo_callback ''c1'' ''5.00'')\<lparr>pcr_sign := concat (replicate 32 ''78'')\<rparr>"
  have digest: "hmac_sha256 demo_env key data = replicate 32 (CHR ''w'')" for key data by (simp add: demo_defs)
  have hex: "hex_digit 7 = CHR ''7''" using kHex_nth [of 7] by (simp add: kHex_def)
  have "concat (replicate (Suc n) ''78'') \<noteq> concat (replicate (Suc n) ''77'')" for n by simp
  from this [of 31] have "concat (replicate 32 ''78'') \<noteq>
      concat (map (\<lambda>b. [hex_digit (of_char b div 16), hex_digit (of_char b mod 16)]) (replicate 32 (CHR ''w'')))"
    by (simp add: hex)
  then have "pcr_sign ?req \<noteq> concat (map (\<lambda>b. [hex_digit (of_char b div 16), hex_digit (of_char b mod 16)])
    (hmac_sha256 demo_env ''k'' (concat [pcr_orderNo ?req, ''|'', pcr_channelTradeNo ?req, ''|'', pcr_amount ?req, ''|'', pcr_timestamp ?req])))"
    by (simp only: digest PaymentCallbackReq.select_convs PaymentCallbackReq.update_convs PaymentCallbackReq.simps demo_callback_def not_False_eq_True)
  with callback_forged [OF demo_secret, of ?req "''{}''" pay_world] show ?thesis by simp
qed

text \<open>A payment, a wrong amount, and a request identifier that already has a payment flow.\<close>

definition used_flow :: flow_row where
  "used_flow = \<lparr>tf_account_no = ''A7'', tf_biz_type = 2, tf_direction = 2, tf_amount = 1, tf_before_balance = 1001,
     tf_after_balance = 1000, tf_order_no = ''0'', tf_request_id = ''c1''\<rparr>"

definition used_world :: world where
  "used_world = pay_world\<lparr>w_db := (w_db pay_world)\<lparr>t_account_flow := [used_flow]\<rparr>\<rparr>"

lemma used_world_schema: "schema_ok demo_env (w_db used_world)"
  by (simp add: used_world_def used_flow_def pay_world_def demo_defs eval_simps)

theorem callback_decides_witness:
  "\<exists>w1 w2 w3. PaymentService_handleCallback demo_env (demo_callback ''c1'' ''5.00'') ''{}'' pay_world =
       Some (Inr (Result_ok (paidData (demo_callback ''c1'' ''5.00'')) ''c1''), w1) \<and>
     PaymentService_handleCallback demo_env (demo_callback ''c1'' ''5.01'') ''{}'' pay_world =
       Some (Inr (Result_fail kAmountMismatch msg_amount_mismatch ''c1''), w2) \<and> w_db w2 = w_db pay_world \<and>
     PaymentService_handleCallback demo_env (demo_callback ''c1'' ''5.00'') ''{}'' used_world =
       Some (Inr (Result_fail kDbError (toMessage kDbError) ''c1''), w3) \<and> w_db w3 = w_db used_world"
proof -
  define g where "g = \<lparr>gLastTimestampMs = 1767225600000, gSequence = 0\<rparr>"
  have ready: "callback_entered demo_env (demo_callback ''c1'' amount) ''264905529753735168'' g 1 w" if "w \<in> {pay_world, used_world}" for amount w
    using demo_signed [of "''c1''" amount] that
    by (auto simp: callback_entered_def g_def) (simp_all add: eval_simps demo_defs pay_world_def used_world_def demo_callback_def)
  have ident: "message_id_new demo_env g 1 (w_db pay_world)"
    by (simp add: message_id_new_def g_def eval_simps demo_defs pay_world_def)
  have new: "\<forall>r \<in> set (t_payment (w_db w)). ckey demo_env (ty_payment_no r) \<noteq> ckey demo_env ''264905529753735168''"
    if "w \<in> {pay_world, used_world}" for w using that by (auto simp: demo_defs pay_world_def used_world_def)
  have "callback_outcome demo_env (demo_callback ''c1'' ''5.00'') (w_db pay_world) = None"
    "callback_outcome demo_env (demo_callback ''c1'' ''5.01'') (w_db pay_world) = Some (Inl (BizException kAmountMismatch msg_amount_mismatch))"
    "callback_outcome demo_env (demo_callback ''c1'' ''5.00'') (w_db used_world) = Some (Inl DrogonDbException)"
    by (simp_all add: callback_outcome_def early_outcome_def late_outcome_def flow_used_def broker_config_def eval_simps demo_defs pay_world_def
        used_world_def used_flow_def demo_callback_def)
  moreover note callback_decides [OF ready pay_world_schema new, of "''5.00''" "''{}''"]
    callback_decides [OF ready pay_world_schema new, of "''5.01''" "''{}''"]
    callback_decides [OF ready used_world_schema new, of "''5.00''" "''{}''"]
  ultimately show ?thesis using ident by auto
qed

end
