(* ===== verification/ReconcileProperties.thy ===== *)
theory ReconcileProperties
  imports ReconcileService Fixture
begin

text \<open>
  What the reconciliation guarantees: the comparison agrees with a decision per trade number and
  accounts for the whole difference of the two sides; a bill line printed from a row reads back as
  the row; a run stores the batch and its differences together or nothing; a difference is handled
  once.
\<close>

section \<open>Properties\<close>

text \<open>
  C14: the comparison is exact. For every trade number, the differences reported for it are those of
  the reference: none when neither side has it or both have the same amount, one of kind local-only,
  channel-only or amount mismatch otherwise, with the order number, amounts and the difference local
  minus channel. When a side repeats a trade number, its last row counts.
\<close>

theorem classify_exact:
  "filter (\<lambda>d. cdf_channelTradeNo d = t) (classifyReconcileDiffs local channel) =
     expected_diff t (side_row local t) (side_row channel t)"
  by (rule classify_at)

text \<open>
  C34: the differences account for everything. With trade numbers unique on each side and amounts
  below \<open>2 ^ 62\<close>, the reported differences add up to the total of the local side minus the total of
  the channel's side.
\<close>

theorem classify_accounts:
  assumes "distinct (map srow_channelTradeNo local)" and "distinct (map srow_channelTradeNo channel)"
    and "\<forall>r \<in> set local \<union> set channel. \<bar>srow_amountFen r\<bar> < 2 ^ 62"
  shows "sum_list (map cdf_diffFen (classifyReconcileDiffs local channel)) =
    sum_list (map srow_amountFen local) - sum_list (map srow_amountFen channel)"
  using assms by (rule classify_sum)

text \<open>
  C35: bill lines. A line printed from a row (trade number and order number without commas, any
  non-empty time without comma, an amount of at most one billion yuan) is read back as that row.
\<close>

theorem bill_line_round_trip:
  assumes "CHR '','' \<notin> set (srow_channelTradeNo r)" and "CHR '','' \<notin> set (srow_orderNo r)" and "CHR '','' \<notin> set time"
    and "time \<noteq> []" and "\<bar>srow_amountFen r\<bar> \<le> 100000000000"
  shows "parseBillLine (printBillLine r time) = Some r"
  using assms by (intro parse_printBillLine) simp_all

text \<open>
  C18: a run is all or nothing. No exception leaves it. When it reports a batch, there was none for
  the date, and the tables gained exactly the batch row (counts, totals, status) and one open
  difference row for each difference between the payments of that day and the bill; in every other
  case the tables are unchanged.
\<close>

theorem run_effect:
  assumes "ReconcileService_run e billDate w = Some (r, w')"
  shows "\<exists>res. r = Inr res \<and>
    (if run_reported res then
       \<exists>rows midnight day no n local cs. bill_rows e billDate = Some rows \<and>
         dt_parse e (billDate @ '' 00:00:00'') = Some midnight \<and> date_parse e billDate = Some day \<and>
         batch_count e day kChannel (w_db w) = 0 \<and>
         local = map side_of_payment (day_payments e midnight (w_db w)) \<and> cs = classifyReconcileDiffs local rows \<and>
         res = Result_ok (runData (batchOf billDate no local rows cs)) billDate \<and>
         w_db w' = reconciled_db (batch_row_for e (batchOf billDate no local rows cs) day) (diff_rows e no n cs) (w_db w)
     else w_db w' = w_db w)"
proof -
  from assms obtain res where res: "r = Inr res" by (cases rule: run_cases) blast+
  show ?thesis
  proof (cases "run_reported res")
    case True
    from assms res True show ?thesis
    proof (cases rule: run_done)
      case (1 rows midnight day no n local cs)
      show ?thesis
        unfolding res using True 1
        by (intro exI [of _ res] conjI refl)
           (simp, intro exI [of _ rows] exI [of _ midnight] exI [of _ day] conjI exI [of _ no] exI [of _ n]; simp)
    qed
  next
    case False
    with res run_unreported [OF assms] show ?thesis by simp
  qed
qed

text \<open>
  a run succeeds. On a healthy server, with a readable bill, valid date texts, no batch of the
  date and new keys, the run returns and reports a batch, however many differences there are.
\<close>

theorem run_returns:
  assumes "healthy_from e (w_sql w)" and "bill_rows e billDate = Some rows"
    and "dt_parse e (billDate @ '' 00:00:00'') = Some midnight" and "date_parse e billDate = Some day"
    and "batch_count e day kChannel (w_db w) = 0" and "keys_fresh e (w_sql w) (w_db w)"
    and "IdGenerator_nextId (clock_ns e) (w_gen w, w_clk w) = Some (Inr no, g, k)"
    and "\<forall>b \<in> set (t_reconcile_batch (w_db w)). ckey e (tb_batch_no b) \<noteq> ckey e no"
  shows "\<exists>res w'. ReconcileService_run e billDate w = Some (Inr res, w') \<and> run_reported res"
  using assms by (rule run_succeeds)

text \<open>
  C20: handling a difference. On a healthy server a valid action on an open difference records the
  new status, the remark and the time of that difference and nothing else; on a handled one it is
  answered 70003 and on a missing one 70001, without any change.
\<close>

theorem handleDiff_decides:
  assumes "healthy_from e (w_sql w)" and "schema_ok e (w_db w)" and "handleStatus_of action = Some st"
  shows "\<exists>res w' n. ReconcileService_handleDiff e i action remark w = Some (Inr res, w') \<and>
    (case diff_row_of i (w_db w) of
       None \<Rightarrow> res = Result_fail kReconcileBatchNotFound msg_diff_missing '''' \<and> w_db w' = w_db w
     | Some f \<Rightarrow>
         if td_handle_status f = 0 then res = Result_ok (handledData i st) '''' \<and> w_db w' = settle_diff e i st remark n (w_db w)
         else res = Result_fail kReconcileDiffAlreadyHandled msg_diff_handled '''' \<and> w_db w' = w_db w)"
  using handleDiff_run [OF assms, of i remark] by (auto simp: diff_open_def split: option.split)

section \<open>Witnesses\<close>

definition demo_row :: "string \<Rightarrow> int \<Rightarrow> ReconcileSideRow" where
  "demo_row t a = \<lparr>srow_channelTradeNo = t, srow_orderNo = ''1'', srow_amountFen = a\<rparr>"

theorem classify_accounts_witness:
  "sum_list (map cdf_diffFen (classifyReconcileDiffs [demo_row ''a'' 500, demo_row ''b'' 100] [demo_row ''b'' 70, demo_row ''c'' 9])) = 521"
  using classify_accounts [of "[demo_row ''a'' 500, demo_row ''b'' 100]" "[demo_row ''b'' 70, demo_row ''c'' 9]"]
  by (simp add: demo_row_def)

theorem bill_line_round_trip_witness: "parseBillLine ''a,1,5.00,x'' = Some (demo_row ''a'' 500)"
  using bill_line_round_trip [of "demo_row ''a'' 500" "''x''"]
  by (simp add: demo_row_def printBillLine_def fenToYuanString_shape in_i64_def string_of_nat_eval digit_char_def)

text \<open>One payment of 5.00 on the first of January 2026, and a bill with another amount and an unknown trade.\<close>

definition bill_env :: env where
  "bill_env = demo_env\<lparr>read_file := (\<lambda>p. if p = ''scripts/bills/bill_2026-01-01.csv''
     then Some (''t1,1,5.01,x'' @ [CHR 0x0A] @ ''t2,2,1.00,x'') else None)\<rparr>"

definition bill_world :: world where
  "bill_world = demo_world\<lparr>w_db := demo_db\<lparr>t_payment := [\<lparr>ty_payment_no = ''9'', ty_order_no = ''1'', ty_channel = ''MOCK'',
     ty_channel_trade_no = ''t1'', ty_amount = 500, ty_status = 1, ty_callback_time = 1767254400, ty_raw_body = ''''\<rparr>]\<rparr>\<rparr>"

lemma demo_run:
  "\<exists>w1. ReconcileService_run bill_env ''2026-01-01'' bill_world =
     Some (Inr (Result_ok (jset ''status'' (JInt 2) (jset ''diffCount'' (JInt 2) (jset ''batchNo'' (JString ''264905529753735168'') JNull)))
       ''2026-01-01''), w1)"
  by (simp add: eval_simps demo_defs bill_env_def bill_world_def cong: eval_cong)

theorem run_effect_witness:
  "\<exists>res w1 no n day cs. ReconcileService_run bill_env ''2026-01-01'' bill_world = Some (Inr res, w1) \<and> length cs = 2 \<and>
     w_db w1 = reconciled_db (batch_row_for bill_env (batchOf ''2026-01-01'' no [demo_row ''t1'' 500]
       [demo_row ''t1'' 501, (demo_row ''t2'' 100)\<lparr>srow_orderNo := ''2''\<rparr>] cs) day) (diff_rows bill_env no n cs) (w_db bill_world)"
proof -
  from demo_run obtain d w1 where run: "ReconcileService_run bill_env ''2026-01-01'' bill_world = Some (Inr (Result_ok d ''2026-01-01''), w1)"
    by blast
  let ?rows = "[demo_row ''t1'' 501, (demo_row ''t2'' 100)\<lparr>srow_orderNo := ''2''\<rparr>]"
  have rows: "bill_rows bill_env ''2026-01-01'' = Some ?rows" and midnight: "dt_parse bill_env (''2026-01-01'' @ '' 00:00:00'') = Some 1767225600"
    and local: "map side_of_payment (day_payments bill_env 1767225600 (w_db bill_world)) = [demo_row ''t1'' 500]"
    and two: "length (classifyReconcileDiffs [demo_row ''t1'' 500] ?rows) = 2"
    by (simp_all add: bill_rows_def bill_env_def bill_world_def demo_row_def demo_defs eval_simps)
  have "run_reported (Result_ok d ''2026-01-01'')" by (simp add: run_reported_def)
  with run_effect [OF run] rows midnight local obtain no n day where
    "w_db w1 = reconciled_db (batch_row_for bill_env (batchOf ''2026-01-01'' no [demo_row ''t1'' 500] ?rows
       (classifyReconcileDiffs [demo_row ''t1'' 500] ?rows)) day)
       (diff_rows bill_env no n (classifyReconcileDiffs [demo_row ''t1'' 500] ?rows)) (w_db bill_world)"
    by auto
  with run two show ?thesis by blast
qed

theorem run_returns_witness:
  "\<exists>res w1. ReconcileService_run bill_env ''2026-01-01'' bill_world = Some (Inr res, w1) \<and> run_reported res"
proof (rule run_returns)
  show "healthy_from bill_env (w_sql bill_world)" by (simp add: healthy_from_def bill_env_def demo_env_def)
  show "bill_rows bill_env ''2026-01-01'' = Some [demo_row ''t1'' 501, (demo_row ''t2'' 100)\<lparr>srow_orderNo := ''2''\<rparr>]"
    by (simp add: bill_rows_def bill_env_def demo_row_def demo_defs eval_simps)
  show "dt_parse bill_env (''2026-01-01'' @ '' 00:00:00'') = Some 1767225600" "date_parse bill_env ''2026-01-01'' = Some 20454"
    by (simp_all add: bill_env_def demo_defs eval_simps)
  show "batch_count bill_env 20454 kChannel (w_db bill_world) = 0" "keys_fresh bill_env (w_sql bill_world) (w_db bill_world)"
    "\<forall>b \<in> set (t_reconcile_batch (w_db bill_world)). ckey bill_env (tb_batch_no b) \<noteq> ckey bill_env ''264905529753735168''"
    by (simp_all add: batch_count_def keys_fresh_def auto_increments_def bill_env_def bill_world_def demo_defs)
  show "IdGenerator_nextId (clock_ns bill_env) (w_gen bill_world, w_clk bill_world) =
      Some (Inr ''264905529753735168'', \<lparr>gLastTimestampMs = 1767225600000, gSequence = 0\<rparr>, 1)"
    by (simp add: bill_env_def bill_world_def demo_defs eval_simps)
qed

definition diff_world :: "int \<Rightarrow> world" where
  "diff_world st = demo_world\<lparr>w_db := demo_db\<lparr>t_reconcile_diff := [\<lparr>td_id = 1, td_batch_no = ''b'', td_order_no = ''1'',
     td_channel_trade_no = ''t1'', td_local_amount = 500, td_channel_amount = 501, td_diff_type = 3, td_diff_amount = - 1,
     td_handle_status = st, td_handle_remark = None, td_handled_at = None\<rparr>]\<rparr>\<rparr>"

theorem handleDiff_decides_witness:
  "\<exists>w1 w2. ReconcileService_handleDiff demo_env 1 ''verify'' ''ok'' (diff_world 0) = Some (Inr (Result_ok (handledData 1 1) ''''), w1) \<and>
     ReconcileService_handleDiff demo_env 1 ''verify'' ''ok'' (diff_world 2) =
       Some (Inr (Result_fail kReconcileDiffAlreadyHandled msg_diff_handled ''''), w2) \<and> w_db w2 = w_db (diff_world 2)"
proof -
  have "schema_ok demo_env (w_db (diff_world st))" for st by (simp add: diff_world_def demo_defs eval_simps)
  moreover have "handleStatus_of ''verify'' = Some 1" by (simp add: handleStatus_of_def)
  moreover obtain f g where "diff_row_of 1 (w_db (diff_world 0)) = Some f" "td_handle_status f = 0"
    "diff_row_of 1 (w_db (diff_world 2)) = Some g" "td_handle_status g = 2"
    by (simp add: diff_world_def diff_row_of_def first_where_def)
  ultimately show ?thesis
    using handleDiff_decides [of demo_env "diff_world 0" "''verify''" 1 1 "''ok''"]
      handleDiff_decides [of demo_env "diff_world 2" "''verify''" 1 1 "''ok''"] by auto
qed

end
