(* ===== verification/System.thy ===== *)
theory System
  imports NotifyConsumer ReconcileTask Controllers OrderProperties PaymentProperties ReconcileProperties
begin

text \<open>
  The process as a whole: requests on every route, ticks of the two timers and deliveries of the
  broker, in any order. An operation runs on the tables that its predecessors committed. The locales
  state what an invariant of the tables has to satisfy to survive all of them; the interpretations
  are the invariants the end-to-end properties rest on.
\<close>

section \<open>Operations\<close>

datatype sys_op =
    Http route http_req
  | RelayTick
  | ReconcileTick
  | Delivery string nat

fun sys_step :: "env \<Rightarrow> amqp \<Rightarrow> peers \<Rightarrow> sys_op \<Rightarrow> http_response option node_act" where
  "sys_step e a p (Http r request) = on_db (serve e False r request)"
| "sys_step e a p RelayTick = bnd (relay_tick e a) (\<lambda>_. ret None)"
| "sys_step e a p ReconcileTick = bnd (reconcile_tick e) (\<lambda>_. ret None)"
| "sys_step e a p (Delivery body tag) = bnd (handleMessage e p body tag) (\<lambda>_. ret None)"

section \<open>Invariants of the tables\<close>

lemma in_world_consumer [preserves_intro]:
  "preserves (in_world P) (on_consumer f)" "preserves (in_world P) (sleep_for k)"
  "preserves (in_world P) (send_request p req)"
  unfolding on_consumer_def sleep_for_def send_request_def
  by (intro preserves_intro preserves_modify; simp add: in_world_def)+

lemma notify_attempts_keeps:
  assumes "\<And>no body. stmt_keeps P (sql_notifySuccess e no body)" and "\<And>no k body. stmt_keeps P (sql_notifyFailed e no k body)"
  shows "preserves (in_world (committed P)) (notify_attempts e p req no a)"
  using assms
proof (induction e p req no a rule: notify_attempts.induct)
  case (1 e p req no a)
  show ?case
    unfolding notify_attempts.simps [of e p req no a] NotifyDao_markSuccess_def NotifyDao_markFailed_def
    by (rule preserves_bnd) (auto split: option.split intro!: preserves_intro 1)
qed

lemma handleMessage_keeps:
  assumes "\<And>no ord url mid. stmt_keeps P (sql_insertNotify e no ord url mid)"
    and "\<And>no body. stmt_keeps P (sql_notifySuccess e no body)" and "\<And>no k body. stmt_keeps P (sql_notifyFailed e no k body)"
  shows "preserves (in_world (committed P)) (handleMessage e p body tag)"
  unfolding handleMessage_def NotifyConsumer_process_def notify_merchant_def NotifyDao_insertWithDedup_def
  by (auto intro!: preserves_intro notify_attempts_keeps assms split: option.split)

text \<open>
  An invariant that the transactions of the services keep, and the single statements of the relay
  and of the consumer.
\<close>

locale service_invariant =
  fixes e :: env and P :: "db \<Rightarrow> bool"
  assumes order_keeps: "preserves (committed P) (OrderService_createOrder e req)"
    and callback_keeps: "preserves (committed P) (PaymentService_handleCallback e cb rawBody)"
    and reconcile_keeps: "preserves (committed P) (ReconcileService_run e billDate)"
    and handle_keeps: "preserves (committed P) (ReconcileService_handleDiff e diffId action remark)"
    and outbox_keeps: "stmt_keeps P (sql_markAcked e i)" "stmt_keeps P (sql_markMessageFailed e i k b)" "stmt_keeps P (sql_markGiveUp e i)"
    and notify_keeps: "stmt_keeps P (sql_insertNotify e no ord url mid)" "stmt_keeps P (sql_notifySuccess e no answer)"
      "stmt_keeps P (sql_notifyFailed e no k answer)"
begin

lemma sys_step_keeps: "preserves (in_world (committed P)) (sys_step e a p oper)"
proof (cases oper)
  case (Http r request)
  have "preserves (committed P) (serve e False r request)"
    by (intro serve_keeps handler_keeps order_keeps callback_keeps reconcile_keeps handle_keeps listDiffs_keeps)
  then show ?thesis unfolding Http by (simp add: in_world_on_db)
next
  case RelayTick
  show ?thesis unfolding RelayTick by (simp, intro preserves_intro relay_tick_keeps outbox_keeps)
next
  case ReconcileTick
  show ?thesis unfolding ReconcileTick by (simp, intro preserves_intro reconcile_tick_keeps reconcile_keeps)
next
  case (Delivery body tag)
  show ?thesis unfolding Delivery by (simp, intro preserves_intro handleMessage_keeps notify_keeps)
qed

lemma sys_run_keeps:
  assumes "P (w_db (nd_world s))" and "run_ops (sys_step e a p) ops s = Some (rs, t)"
  shows "P (w_db (nd_world t))"
proof -
  have "invariant_ops (sys_step e a p) (in_world (committed P))"
    by unfold_locales (rule preservesD [OF sys_step_keeps])
  from invariant_ops.inv_run_ops [OF this _ assms(2)] assms(1) show ?thesis by (simp add: in_world_def committed_def)
qed

end

text \<open>The same with every statement of the program, for invariants that need no transaction.\<close>

locale table_invariant =
  fixes e :: env and P :: "db \<Rightarrow> bool"
  assumes order_stmts: "stmt_keeps P (sql_acquire e rec)" "stmt_keeps P (sql_deductStock pid q)" "stmt_keeps P (sql_insertOrder e order)"
      "stmt_keeps P (sql_markSuccess e rid body)"
    and payment_stmts: "stmt_keeps P (sql_markPaid e no)" "stmt_keeps P (sql_insertPayment e pay)" "stmt_keeps P (sql_deduct e no q)"
      "stmt_keeps P (sql_insertFlow e flow)" "stmt_keeps P (sql_insertMessage e m)"
    and reconcile_stmts: "stmt_keeps P (sql_insertBatch e batch)" "stmt_keeps P (sql_insertDiff e diff)" "stmt_keeps P (sql_handleDiff e fid st remark)"
    and outbox_stmts: "stmt_keeps P (sql_markAcked e i)" "stmt_keeps P (sql_markMessageFailed e i k b)" "stmt_keeps P (sql_markGiveUp e i)"
    and notify_stmts: "stmt_keeps P (sql_insertNotify e no ord url mid)" "stmt_keeps P (sql_notifySuccess e no answer)"
      "stmt_keeps P (sql_notifyFailed e no k answer)"
begin

lemmas all_stmts = order_stmts payment_stmts reconcile_stmts outbox_stmts notify_stmts

end

sublocale table_invariant \<subseteq> service_invariant e P
  by unfold_locales (intro createOrder_keeps handleCallback_keeps run_keeps handleDiff_keeps all_stmts)+

section \<open>What a statement touches\<close>

definition stmt_only :: "(('r list \<Rightarrow> 'r list) \<Rightarrow> db \<Rightarrow> db) \<Rightarrow> 'a stmt \<Rightarrow> bool" where
  "stmt_only upd st \<longleftrightarrow> (\<forall>n d d' x. st n d = Some (d', x) \<longrightarrow> d' = d \<or> (\<exists>rows. d' = upd (\<lambda>_. rows) d))"

lemma stmt_only_keeps: "stmt_only upd st \<Longrightarrow> (\<And>f d. P d \<Longrightarrow> P (upd f d)) \<Longrightarrow> stmt_keeps P st"
  unfolding stmt_only_def stmt_keeps_def by metis

lemma stmt_tables:
  "stmt_only t_idempotent_update (sql_acquire e rec)" "stmt_only t_product_update (sql_deductStock pid q)"
  "stmt_only t_order_update (sql_insertOrder e order)" "stmt_only t_idempotent_update (sql_markSuccess e rid body)"
  "stmt_only t_order_update (sql_markPaid e no)" "stmt_only t_payment_update (sql_insertPayment e pay)"
  "stmt_only t_account_update (sql_deduct e no q)" "stmt_only t_account_flow_update (sql_insertFlow e flow)"
  "stmt_only t_local_message_update (sql_insertMessage e m)" "stmt_only t_reconcile_batch_update (sql_insertBatch e batch)"
  "stmt_only t_reconcile_diff_update (sql_insertDiff e diff)" "stmt_only t_reconcile_diff_update (sql_handleDiff e fid st remark)"
  "stmt_only t_local_message_update (sql_markAcked e i)" "stmt_only t_local_message_update (sql_markMessageFailed e i k b)"
  "stmt_only t_local_message_update (sql_markGiveUp e i)" "stmt_only t_notify_record_update (sql_insertNotify e no ord url mid)"
  "stmt_only t_notify_record_update (sql_notifySuccess e no answer)" "stmt_only t_notify_record_update (sql_notifyFailed e no k answer)"
  unfolding stmt_only_def
  by (auto simp: sql_acquire_def idem_ins_def sql_deductStock_def product_dec_def sql_insertOrder_def sql_markSuccess_def idem_markSuccess_def sql_markPaid_def
      order_markPaid_def sql_insertPayment_def payment_ins_def sql_deduct_def account_dec_def Let_def sql_insertFlow_def sql_insertMessage_def
      sql_insertBatch_def sql_insertDiff_def sql_handleDiff_def diff_handle_def sql_markAcked_def sql_markMessageFailed_def sql_markGiveUp_def
      sql_insertNotify_def notify_ins_def sql_notifySuccess_def sql_notifyFailed_def split: if_splits option.splits prod.splits)

section \<open>The invariants\<close>

interpretation schema: table_invariant e "schema_ok e" for e
  by unfold_locales (intro preserves_intro)+

text \<open>A finished idempotency row stays as it is.\<close>

interpretation snapshot: table_invariant e "\<lambda>d. idem_lookup e k d = Some row \<and> ti_status row = 1" for e k row
proof (unfold_locales, goal_cases)
  case (1 rec)
  from keeps_idem_row_acquire [of e k row rec] show ?case by (auto simp: stmt_keeps_def)
next
  case (4 rid body)
  show ?case by (rule stmt_keepsI) (use keeps_idem_row_markSuccess [of row e k rid body] in \<open>auto simp: stmt_keeps_def\<close>)
qed (rule stmt_only_keeps, rule stmt_tables, simp add: idem_lookup_def)+

text \<open>A recorded payment stays as it is.\<close>

interpretation trade: table_invariant e "\<lambda>d. payment_lookup e k d = Some row" for e k row
proof (unfold_locales, goal_cases)
  case (6 pay)
  show ?case
    by (rule stmt_keepsI)
      (auto simp: sql_insertPayment_def payment_ins_def payment_lookup_def first_where_append split: option.splits if_splits)
qed (rule stmt_only_keeps, rule stmt_tables, simp add: payment_lookup_def)+

text \<open>An order keeps its number and total, and a paid order stays paid.\<close>

definition order_total :: "env \<Rightarrow> string \<Rightarrow> int \<Rightarrow> db \<Rightarrow> bool" where
  "order_total e no amt d \<longleftrightarrow> (\<exists>r. order_row_of e no d = Some r \<and> to_total_amount r = amt \<and> to_status r = 1)"

interpretation order_kept: table_invariant e "order_total e no amt" for e no amt
proof (unfold_locales, goal_cases)
  case (3 order)
  show ?case
    by (rule stmt_keepsI) (auto simp: sql_insertOrder_eq order_total_def order_row_of_def first_where_append split: option.splits)
next
  case (5 no')
  show ?case
    by (rule stmt_keepsI)
      (auto simp: sql_markPaid_def order_markPaid_def update_where_def order_total_def order_row_of_def sql_eq_def
        first_where_map_if [of "\<lambda>r. ckey e (to_order_no r)"])
qed (rule stmt_only_keeps, rule stmt_tables, simp add: order_total_def order_row_of_def)+

text \<open>A stored batch stays.\<close>

interpretation batch: table_invariant e "\<lambda>d. 0 < batch_count e day ch d" for e day ch
proof (unfold_locales, goal_cases)
  case (10 b)
  show ?case by (rule stmt_keepsI) (auto simp: sql_insertBatch_def batch_count_def split: option.splits if_splits)
qed (rule stmt_only_keeps, rule stmt_tables, simp add: batch_count_def)+

text \<open>A handled difference stays as it is.\<close>

interpretation handled: table_invariant e "\<lambda>d. diff_row_of i d = Some row \<and> td_handle_status row \<noteq> 0" for e i row
proof (unfold_locales, goal_cases)
  case (11 diff)
  show ?case
    by (rule stmt_keepsI) (auto simp: sql_insertDiff_def diff_row_of_def first_where_append split: option.splits if_splits)
next
  case (12 fid st remark)
  show ?case
    by (rule stmt_keepsI)
      (auto simp: sql_handleDiff_def diff_handle_def update_where_def diff_row_of_def first_where_map_if [of td_id])
qed (rule stmt_only_keeps, rule stmt_tables, simp add: diff_row_of_def)+

section \<open>Invariants kept by the effects of orders and payments\<close>

lemma stmt_keeps_conj: "stmt_keeps P st \<Longrightarrow> stmt_keeps Q st \<Longrightarrow> stmt_keeps (\<lambda>d. P d \<and> Q d) st"
  unfolding stmt_keeps_def by blast

text \<open>
  An invariant may be broken between the statements of a transaction; it has to survive the effect of
  a placed order and of a settled payment as a whole, and the statements that touch neither.
\<close>

locale effect_invariant =
  fixes e :: env and P :: "db \<Rightarrow> bool"
  assumes placed: "schema_ok e d \<Longrightarrow> P d \<Longrightarrow> product_row_of (cor_productId req) d = Some prow \<Longrightarrow>
      order = orderOf req item orderNo expiry \<Longrightarrow>
      list_all (\<lambda>r. ckey e (to_order_no r) \<noteq> ckey e orderNo) (t_order d) \<Longrightarrow>
      P (placed_db e req order rec x y d)"
    and paid: "schema_ok e d \<Longrightarrow> P d \<Longrightarrow> order_row_of e (pcr_orderNo cb) d = Some ord \<Longrightarrow> to_status ord = 0 \<Longrightarrow>
      account_row_of (word_of_int (to_user_id ord)) d = Some a \<Longrightarrow> paid_payment cb ord pay \<Longrightarrow> paid_flow cb ord a f \<Longrightarrow>
      paid_message e cb ord m \<Longrightarrow> P (paid_db e (pcr_orderNo cb) n (ta_account_no a) (to_total_amount ord) pay f m d)"
    and reconcile_stmts: "stmt_keeps P (sql_insertBatch e batch)" "stmt_keeps P (sql_insertDiff e diff)" "stmt_keeps P (sql_handleDiff e fid st remark)"
    and outbox_stmts: "stmt_keeps P (sql_markAcked e i)" "stmt_keeps P (sql_markMessageFailed e i k b)" "stmt_keeps P (sql_markGiveUp e i)"
    and notify_stmts: "stmt_keeps P (sql_insertNotify e no ordNo url mid)" "stmt_keeps P (sql_notifySuccess e no answer)"
      "stmt_keeps P (sql_notifyFailed e no k answer)"
begin

lemma createOrder_effect_keeps: "preserves (committed (\<lambda>d. schema_ok e d \<and> P d)) (OrderService_createOrder e req)"
proof (rule preservesI)
  fix w r w'
  assume inv: "committed (\<lambda>d. schema_ok e d \<and> P d) w" and run: "OrderService_createOrder e req w = Some (r, w')"
  then have ok: "schema_ok e (w_db w)" "P (w_db w)" "product_ok (t_product (w_db w))" by (simp_all add: committed_def schema_ok_def)
  from preservesD [OF schema_createOrder run] ok have "schema_ok e (w_db w')" by (simp add: committed_def)
  moreover have "P (w_db w')"
  proof (cases "\<exists>o1. r = Inr o1 \<and> order_placed o1")
    case True
    then obtain o1 where "r = Inr o1" "order_placed o1" by blast
    from run this ok(3) show ?thesis
    proof (cases rule: createOrder_placed)
      case (1 p order rec orderExpire keyExpire orderNo t)
      then have "list_all (\<lambda>r. ckey e (to_order_no r) \<noteq> ckey e orderNo) (t_order (w_db w))" by (simp add: list_all_iff)
      from placed [OF ok(1,2) 1(1,6) this] 1(12) show ?thesis by simp
    qed
  qed (use createOrder_unplaced [OF run] ok in simp)
  ultimately show "committed (\<lambda>d. schema_ok e d \<and> P d) w'" by (simp add: committed_def)
qed

lemma handleCallback_effect_keeps: "preserves (committed (\<lambda>d. schema_ok e d \<and> P d)) (PaymentService_handleCallback e cb rawBody)"
proof (rule preservesI)
  fix w r w'
  assume inv: "committed (\<lambda>d. schema_ok e d \<and> P d) w" and run: "PaymentService_handleCallback e cb rawBody w = Some (r, w')"
  then have ok: "schema_ok e (w_db w)" "P (w_db w)" by (simp_all add: committed_def)
  from preservesD [OF schema_handleCallback run] ok have "schema_ok e (w_db w')" by (simp add: committed_def)
  moreover have "P (w_db w')"
  proof (cases "\<exists>res. r = Inr res \<and> order_settled cb res")
    case True
    then obtain res where "r = Inr res" "order_settled cb res" by blast
    from run this ok(1) show ?thesis
    proof (cases rule: handleCallback_paid)
      case (1 ord a p f m n)
      from paid [OF ok 1(2,3,5,9,10,11)] 1(14) show ?thesis by simp
    qed
  qed (use handleCallback_unsettled [OF run] ok in simp)
  ultimately show "committed (\<lambda>d. schema_ok e d \<and> P d) w'" by (simp add: committed_def)
qed

end

sublocale effect_invariant \<subseteq> service_invariant e "\<lambda>d. schema_ok e d \<and> P d"
  by unfold_locales
    (intro createOrder_effect_keeps handleCallback_effect_keeps run_keeps handleDiff_keeps stmt_keeps_conj preserves_intro
      reconcile_stmts outbox_stmts notify_stmts)+

section \<open>Units of a product\<close>

lemma sold_paid: "sold pid (paid_db e no n acc q p f m d) = sold pid d"
  by (simp add: paid_db_def pay_order_def sold_def filter_map comp_def if_distrib cong: if_cong)

interpretation units: effect_invariant e "\<lambda>d. stock_of pid d + sold pid d = K" for e pid K
proof (unfold_locales, goal_cases)
  case 1
  then show ?case by (simp add: stock_of_placed sold_placed orderOf_def)
next
  case 2
  then show ?case by (simp add: sold_paid) (simp add: paid_db_def stock_of_def product_row_of_def)
qed (rule stmt_only_keeps, rule stmt_tables, simp add: stock_of_def sold_def product_row_of_def)+

section \<open>The ledger\<close>

definition balance_total :: "db \<Rightarrow> int" where
  "balance_total d = sum_list (map ta_balance (t_account d))"

definition flow_total :: "db \<Rightarrow> int" where
  "flow_total d = sum_list (map (\<lambda>f. if tf_biz_type f = 2 \<and> tf_direction f = 2 then tf_amount f else 0) (t_account_flow d))"

definition payment_total :: "db \<Rightarrow> int" where
  "payment_total d = sum_list (map ty_amount (t_payment d))"

definition paid_total :: "db \<Rightarrow> int" where
  "paid_total d = sum_list (map (\<lambda>r. if to_status r = 1 then to_total_amount r else 0) (t_order d))"

definition paid_messages :: "db \<Rightarrow> nat" where
  "paid_messages d = length (filter (\<lambda>m. tl_biz_type m = kBizTypeOrderPaid) (t_local_message d))"

definition ledger :: "db \<Rightarrow> int \<times> int \<times> int \<times> int" where
  "ledger d = (balance_total d + flow_total d, payment_total d - flow_total d, paid_total d - payment_total d,
     int (paid_messages d) - int (length (t_payment d)))"

lemma sum_update_keyed:
  assumes "distinct (map key rows)" and "r0 \<in> set rows"
  shows "sum_list (map g (map (\<lambda>r. if key r = key r0 then h r else r) rows)) = sum_list (map g rows) + (g (h r0) - g r0 :: int)"
  using assms
proof (induction rows)
  case Nil
  then show ?case by simp
next
  case (Cons r rows)
  show ?case
  proof (cases "r = r0")
    case True
    with Cons.prems(1) have "map (\<lambda>r. if key r = key r0 then h r else r) rows = rows" by (intro map_idI) (force simp: image_iff)
    with True show ?thesis by simp
  next
    case False
    with Cons.prems have "r0 \<in> set rows" "key r \<noteq> key r0" by auto
    with Cons show ?thesis by simp
  qed
qed

lemma balance_total_debit:
  assumes "account_ok e (t_account d)" and "account_row_of u d = Some a"
  shows "balance_total (debit e (ta_account_no a) q d) = balance_total d - q"
  using sum_update_keyed [of "\<lambda>r. ckey e (ta_account_no r)" "t_account d" a ta_balance
      "\<lambda>r. r\<lparr>ta_balance := ta_balance r - q, ta_version := ta_version r + 1\<rparr>"] assms
  by (auto simp: balance_total_def debit_def account_ok_def account_row_of_def dest!: first_where_Some)

lemma paid_total_pay_order:
  assumes "order_ok e (t_order d)" and "order_row_of e no d = Some r" and "to_status r = 0"
  shows "paid_total (pay_order e no n d) = paid_total d + to_total_amount r"
proof -
  from order_row_of_SomeD [OF assms(2)] have r: "r \<in> set (t_order d)" "ckey e (to_order_no r) = ckey e no" by simp_all
  from assms(1) have "distinct (map (\<lambda>r. ckey e (to_order_no r)) (t_order d))" by (simp add: order_ok_def)
  from sum_update_keyed [OF this r(1), of "\<lambda>r. if to_status r = 1 then to_total_amount r else 0"
      "\<lambda>r. r\<lparr>to_status := 1, to_paid_at := Some (db_now e n)\<rparr>"] assms(3) r(2)
  show ?thesis by (simp add: paid_total_def pay_order_def)
qed

lemma ledger_outbox:
  assumes "\<And>r. tl_biz_type (f r) = tl_biz_type r"
  shows "ledger (d\<lparr>t_local_message := map f (t_local_message d)\<rparr>) = ledger d"
  using assms
  by (simp add: ledger_def balance_total_def flow_total_def payment_total_def paid_total_def paid_messages_def filter_map comp_def)

interpretation books: effect_invariant e "\<lambda>d. ledger d = K" for e K
proof (unfold_locales, goal_cases)
  case 1
  then show ?case
    by (simp add: ledger_def balance_total_def flow_total_def payment_total_def paid_total_def paid_messages_def placed_db_def
        order_row_for_def orderOf_def)
next
  case (2 d cb ord a pay f m n)
  let ?q = "to_total_amount ord"
  let ?d = "paid_db e (pcr_orderNo cb) n (ta_account_no a) ?q pay f m d"
  from 2(1) have "account_ok e (t_account d)" "order_ok e (t_order d)" by (simp_all add: schema_ok_def)
  with 2 have "balance_total ?d = balance_total d - ?q" "paid_total ?d = paid_total d + ?q"
    using balance_total_debit [of e d _ a ?q] paid_total_pay_order [of e d "pcr_orderNo cb" ord n]
    by (simp_all add: paid_db_def balance_total_def paid_total_def)
  moreover from 2(6-8) have "flow_total ?d = flow_total d + ?q" "payment_total ?d = payment_total d + ?q" "paid_messages ?d = Suc (paid_messages d)"
    "length (t_payment ?d) = Suc (length (t_payment d))"
    by (simp_all add: paid_db_def flow_total_def payment_total_def paid_messages_def paid_flow_def paid_payment_def paid_message_def)
  ultimately have "ledger ?d = ledger d" by (simp add: ledger_def)
  with 2(2) show ?case by simp
next
  case (6 i)
  show ?case by (rule stmt_keepsI) (auto simp: sql_markAcked_def update_where_def ledger_outbox)
next
  case (7 i k b)
  show ?case by (rule stmt_keepsI) (auto simp: sql_markMessageFailed_def update_where_def ledger_outbox)
next
  case (8 i)
  show ?case by (rule stmt_keepsI) (auto simp: sql_markGiveUp_def update_where_def ledger_outbox)
qed (rule stmt_only_keeps, rule stmt_tables,
    simp add: ledger_def balance_total_def flow_total_def payment_total_def paid_total_def paid_messages_def)+

section \<open>An order is paid once\<close>

definition paid_once :: "env \<Rightarrow> db \<Rightarrow> bool" where
  "paid_once e d \<longleftrightarrow> distinct (map (\<lambda>p. ckey e (ty_order_no p)) (t_payment d)) \<and>
     list_all (\<lambda>p. order_total e (ty_order_no p) (ty_amount p) d) (t_payment d)"

lemma t_payment_effects [simp]:
  "t_payment (placed_db e req order rec x y d) = t_payment d" "t_payment (paid_db e no n acc q p f m d) = t_payment d @ [p]"
  by (simp_all add: placed_db_def paid_db_def)

lemma order_total_placed: "order_total e no amt d \<Longrightarrow> order_total e no amt (placed_db e req order rec x y d)"
  by (auto simp: order_total_def order_row_of_def placed_db_def first_where_append)

lemma order_total_paid:
  "order_total e no amt d \<Longrightarrow> order_total e no amt (paid_db e no' n acc q p f m d)"
  "order_row_of e no' d = Some ord \<Longrightarrow> order_total e no' (to_total_amount ord) (paid_db e no' n acc q p f m d)"
proof -
  have "order_row_of e no (paid_db e no' n acc q p f m d) = order_row_of e no (pay_order e no' n d)" for no
    by (simp add: paid_db_def order_row_of_def)
  then show "order_total e no amt d \<Longrightarrow> order_total e no amt (paid_db e no' n acc q p f m d)"
    "order_row_of e no' d = Some ord \<Longrightarrow> order_total e no' (to_total_amount ord) (paid_db e no' n acc q p f m d)"
    by (cases "ckey e no = ckey e no'"; auto simp: order_total_def order_row_of_pay_order)+
qed

interpretation payments: effect_invariant e "paid_once e" for e
proof (unfold_locales, goal_cases)
  case 1
  then show ?case by (auto simp: paid_once_def list_all_iff intro: order_total_placed)
next
  case (2 d cb ord a pay f m n)
  have "ckey e (ty_order_no p) \<noteq> ckey e (pcr_orderNo cb)" if "p \<in> set (t_payment d)" for p
  proof
    assume eq: "ckey e (ty_order_no p) = ckey e (pcr_orderNo cb)"
    from 2(2) that have "order_total e (ty_order_no p) (ty_amount p) d" by (simp add: paid_once_def list_all_iff)
    with eq 2(3,4) show False by (auto simp: order_total_def order_row_of_def sql_eq_def)
  qed
  then have "ckey e (pcr_orderNo cb) \<notin> (\<lambda>p. ckey e (ty_order_no p)) ` set (t_payment d)" by (metis imageE)
  with 2 show ?case
    using order_total_paid
    by (auto simp: paid_once_def list_all_iff paid_payment_def)
qed (rule stmt_only_keeps, rule stmt_tables, simp add: paid_once_def order_total_def order_row_of_def)+

end
