(* ===== verification/SystemProperties.thy ===== *)
theory SystemProperties
  imports System
begin

text \<open>
  What holds across the components, over any interleaving of requests, timer ticks and deliveries.
\<close>

section \<open>Orders over HTTP\<close>

text \<open>The request as the order handler reads it, after the filter.\<close>

definition orderReq_http :: "env \<Rightarrow> http_req \<Rightarrow> CreateOrderReq option" where
  "orderReq_http e request =
     (if rq_method request = Post \<and> isValidRequestId (rq_header request) \<and> orderParams (rq_json request) = Some True
      then orderReqOf e (request\<lparr>rq_attr := Some (rq_header request)\<rparr>) else None)"

lemma orderReq_http_id: "orderReq_http e request = Some req \<Longrightarrow> cor_requestId req = rq_header request"
  by (auto simp: orderReq_http_def orderReqOf_def requestIdOf_def split: if_splits option.splits)

lemma serve_orders:
  assumes "orderReq_http e request = Some req"
  shows "serve e False OrdersRoute request = in_pool (orderJob e req)"
  using assms
  by (auto simp: orderReq_http_def serve_def doFilter_def OrderController_createOrder_def or_throw_def submitToPool_def requestIdOf_def
      split: if_splits)

lemma serve_orders_changes:
  assumes "serve e False OrdersRoute request w = Some (res, w')" and "w_db w' \<noteq> w_db w" and "rq_method request = Post"
  shows "\<exists>req. orderReq_http e request = Some req"
proof (rule ccontr)
  assume none: "\<not> (\<exists>req. orderReq_http e request = Some req)"
  have "preserves (committed (\<lambda>d. d = w_db w)) (serve e False OrdersRoute request)"
  proof (cases "isValidRequestId (rq_header request)")
    case True
    with none assms(3) have "orderParams (rq_json request) \<noteq> Some True"
      using orderReqOf_params [of "request\<lparr>rq_attr := Some (rq_header request)\<rparr>" e] by (auto simp: orderReq_http_def)
    with True assms(3) show ?thesis
      by (cases "orderParams (rq_json request)")
        (auto simp: serve_def doFilter_def OrderController_createOrder_def or_throw_def intro!: preserves_intro)
  next
    case False
    with assms(3) show ?thesis by (auto simp: serve_def doFilter_def intro: preserves_intro)
  qed
  from preservesD [OF this assms(1)] assms(2) show False by (simp add: committed_def)
qed

lemma orderJob_run:
  "OrderService_createOrder e req w = Some (Inr out, w') \<Longrightarrow>
   in_pool (orderJob e req) w = Some (Inr (Some (if coo_kind out = kCached then \<lparr>rs_status = 200, rs_body = coo_cachedBody out\<rparr>
     else newHttpJsonResponse e (Result_toJson Order_toJson (coo_result out)))), w')"
  by (simp add: in_pool_def orderJob_def try_catch_def bnd_def ret_def)

lemma orderJob_cases:
  assumes "in_pool (orderJob e req) w = Some (res, w')"
  obtains out where "OrderService_createOrder e req w = Some (Inr out, w')"
proof -
  from assms obtain r where "OrderService_createOrder e req w = Some (r, w')"
    by (auto simp: in_pool_def orderJob_def try_catch_def bnd_def ret_def split: option.splits sum.splits)
  with createOrder_returns_value [OF this] that show thesis by blast
qed

section \<open>Properties\<close>

text \<open>
  C1: a retried order is placed once and answered with the same bytes. When a request on the order
  route changed the tables, then after any activity of the whole process (requests on all routes,
  timer ticks, deliveries, with any faults) a retry with the same request identifier, whatever else it
  says, is answered with exactly the same status and body and changes nothing, provided the response
  printer of the framework is the one of the stored snapshot.
\<close>

theorem order_retry_same_bytes:
  assumes "schema_ok e (w_db (nd_world s))" and "same_printer e"
    and "rq_method request = Post" and "sys_step e a p (Http OrdersRoute request) s = Some (Inr (Some resp), s1)"
    and "w_db (nd_world s1) \<noteq> w_db (nd_world s)" and "run_ops (sys_step e a p) ops s1 = Some (rs, s2)"
    and "orderReq_http e retry = Some req2" and "rq_header retry = rq_header request"
    and "request_ok e req2 (nd_world s2)" and "healthy_from e (w_sql (nd_world s2))"
  shows "\<exists>s3. sys_step e a p (Http OrdersRoute retry) s2 = Some (Inr (Some resp), s3) \<and> w_db (nd_world s3) = w_db (nd_world s2)"
proof -
  from assms(4) obtain w1 where serve: "serve e False OrdersRoute request (nd_world s) = Some (Inr (Some resp), w1)" and s1: "s1 = s\<lparr>nd_world := w1\<rparr>"
    by (auto simp: eff_simps)
  from serve_orders_changes [OF serve] assms(3,5) s1 obtain req where req: "orderReq_http e request = Some req" by auto
  from serve serve_orders [OF req] have job: "in_pool (orderJob e req) (nd_world s) = Some (Inr (Some resp), w1)" by simp
  then obtain out where run: "OrderService_createOrder e req (nd_world s) = Some (Inr out, w1)" by (rule orderJob_cases)
  have placed: "order_placed out" using createOrder_unplaced [OF run] assms(5) s1 by auto
  have "product_ok (t_product (w_db (nd_world s)))" using assms(1) by (simp add: schema_ok_def)
  from run refl placed this show ?thesis
  proof (cases rule: createOrder_placed)
    case (1 prow order rec orderExpire keyExpire orderNo t)
    let ?rid = "cor_requestId req"
    let ?row = "(idem_row_for rec keyExpire)\<lparr>ti_status := 1, ti_response_body := Some (orderSnapshot e order ?rid)\<rparr>"
    from 1 have "idem_lookup e (ckey e ?rid) (w_db (nd_world s1)) = Some ?row \<and> ti_status ?row = 1"
      by (simp add: placed_db_idem s1)
    from snapshot.sys_run_keeps [OF this assms(6)] orderReq_http_id [OF req] orderReq_http_id [OF assms(7)] assms(8)
    have "idem_row_of e (cor_requestId req2) (w_db (nd_world s2)) = Some ?row" by (simp add: idem_row_of_lookup)
    from createOrder_known [OF assms(10,9) this] obtain w3 where
      again: "OrderService_createOrder e req2 (nd_world s2) = Some (Inr (cached (orderSnapshot e order ?rid)), w3)" "w_db w3 = w_db (nd_world s2)"
      by auto
    from orderJob_run [OF run] job 1 have "resp = \<lparr>rs_status = 200, rs_body = orderSnapshot e order ?rid\<rparr>"
      using assms(2) by (simp add: executed_def orderSnapshot_def newHttpJsonResponse_def same_printer_def)
    with orderJob_run [OF again(1)] serve_orders [OF assms(7)] again(2) show ?thesis
      by (auto simp: on_db_def cached_def)
  qed
qed

text \<open>
  C5: a repeated payment callback is harmless. After a callback settled an order, and after any activity
  of the whole process, a further signed callback with the same order, channel, trade number and amount
  is answered as successful without data and changes nothing.
\<close>

theorem payment_replay:
  assumes "schema_ok e (w_db (nd_world s))"
    and "PaymentService_handleCallback e req rawBody (nd_world s) = Some (Inr res, w1)" and "order_settled req res"
    and "run_ops (sys_step e a p) ops (s\<lparr>nd_world := w1\<rparr>) = Some (rs, s2)"
    and "pcr_orderNo again = pcr_orderNo req" and "pcr_channel again = pcr_channel req"
    and "pcr_channelTradeNo again = pcr_channelTradeNo req" and "pcr_amount again = pcr_amount req"
    and "callback_ready e again no g k (nd_world s2)"
    and "\<forall>r \<in> set (t_payment (w_db (nd_world s2))). ckey e (ty_payment_no r) \<noteq> ckey e no"
  shows "\<exists>w3. PaymentService_handleCallback e again rawBody2 (nd_world s2) = Some (Inr (Result_ok JNull (pcr_requestId again)), w3) \<and>
    w_db w3 = w_db (nd_world s2)"
  using assms(2) refl assms(3,1)
proof (cases rule: handleCallback_paid)
  case (1 ord acc pay f m n)
  let ?k = "(ckey e (pcr_channel req), ckey e (pcr_channelTradeNo req))"
  from 1(9,12,14) have "payment_lookup e ?k (w_db w1) = Some pay"
    by (simp add: payment_row_of_lookup payment_lookup_def first_where_append first_where_single trade_key_def paid_payment_def)
  then have pay: "payment_lookup e ?k (w_db (nd_world s2)) = Some pay"
    using trade.sys_run_keeps [OF _ assms(4), of "?k" pay] by simp
  from 1(2,14) have "order_total e (pcr_orderNo req) (to_total_amount ord) (w_db w1)" by (simp add: order_total_paid)
  then have ord: "order_total e (pcr_orderNo req) (to_total_amount ord) (w_db (nd_world s2))"
    using order_kept.sys_run_keeps [OF _ assms(4)] by simp
  from preservesD [OF schema_handleCallback assms(2)] assms(1) have "schema_ok e (w_db w1)" by (simp add: committed_def)
  then have schema: "schema_ok e (w_db (nd_world s2))" using schema.sys_run_keeps [OF _ assms(4)] by simp
  have "callback_outcome e again (w_db (nd_world s2)) = Some (Inr (Result_ok JNull (pcr_requestId again)))"
    using ord pay 1(4,9) assms(5-9)
    by (auto simp: callback_outcome_def early_outcome_def order_total_def payment_row_of_lookup paid_payment_def callback_ready_def)
  with handleCallback_decides [OF callback_ready_entered [OF assms(9)] schema assms(10)] show ?thesis by simp
qed

text \<open>
  C2: the books balance. Over any activity of the whole process, with any faults: balances plus
  outgoing payment flows stay constant, the payments recorded grow by what flowed out of the accounts,
  the totals of paid orders by the payments recorded, and the outbox by one message per payment.
\<close>

theorem ledger_balanced:
  assumes "schema_ok e (w_db (nd_world s))" and "run_ops (sys_step e a p) ops s = Some (rs, t)"
  defines "d \<equiv> w_db (nd_world s)" and "d' \<equiv> w_db (nd_world t)"
  shows "balance_total d' + flow_total d' = balance_total d + flow_total d \<and>
    payment_total d' - payment_total d = flow_total d' - flow_total d \<and>
    paid_total d' - paid_total d = payment_total d' - payment_total d \<and>
    int (paid_messages d') - int (paid_messages d) = int (length (t_payment d')) - int (length (t_payment d))"
  using books.sys_run_keeps [OF _ assms(2), of "ledger d"] assms(1) by (auto simp: ledger_def d_def d'_def)

text \<open>
  C3: an order is paid once. If no two payments belong to the same order and every payment belongs to a
  paid order with its amount as total, this stays so over any activity of the whole process.
\<close>

theorem order_paid_once:
  assumes "schema_ok e (w_db (nd_world s))" and "paid_once e (w_db (nd_world s))" and "run_ops (sys_step e a p) ops s = Some (rs, t)"
  shows "distinct (map (\<lambda>p. ckey e (ty_order_no p)) (t_payment (w_db (nd_world t)))) \<and>
    list_all (\<lambda>p. \<exists>r. order_row_of e (ty_order_no p) (w_db (nd_world t)) = Some r \<and> to_total_amount r = ty_amount p \<and> to_status r = 1)
      (t_payment (w_db (nd_world t)))"
  using payments.sys_run_keeps [OF _ assms(3)] assms(1,2) by (simp add: paid_once_def order_total_def)

text \<open>
  C4: no product is oversold. Over any activity of the whole process, units in stock plus units in
  orders stay constant for every product, and the stock is never negative.
\<close>

theorem system_no_oversell:
  assumes "schema_ok e (w_db (nd_world s))" and "run_ops (sys_step e a p) ops s = Some (rs, t)"
  shows "stock_of pid (w_db (nd_world t)) + sold pid (w_db (nd_world t)) = stock_of pid (w_db (nd_world s)) + sold pid (w_db (nd_world s)) \<and>
    0 \<le> stock_of pid (w_db (nd_world t))"
  using units.sys_run_keeps [OF _ assms(2), of pid "stock_of pid (w_db (nd_world s)) + sold pid (w_db (nd_world s))"] assms(1) stock_of_nonneg
  by (simp add: schema_ok_def)

text \<open>
  C31: a day is reconciled once. After a run stored the batch of a day, and after any activity of the
  whole process, another run for the day is answered with the code for an existing batch and changes
  nothing.
\<close>

theorem reconciled_once:
  assumes "ReconcileService_run e billDate (nd_world s) = Some (Inr res, w1)" and "run_reported res"
    and "run_ops (sys_step e a p) ops (s\<lparr>nd_world := w1\<rparr>) = Some (rs, s2)" and "healthy_from e (w_sql (nd_world s2))"
  shows "\<exists>w3. ReconcileService_run e billDate (nd_world s2) =
      Some (Inr (Result_fail kReconcileBatchStatusInvalid msg_batch_exists billDate), w3) \<and> w_db w3 = w_db (nd_world s2)"
  using assms(1) refl assms(2)
proof (cases rule: run_done)
  case (1 rows midnight day no n local cs)
  from run_stores_batch [OF assms(1,2) 1(3)] have "0 < batch_count e day kChannel (w_db w1)" by simp
  then have "0 < batch_count e day kChannel (w_db (nd_world s2))" using batch.sys_run_keeps [OF _ assms(3)] by simp
  from run_again [OF assms(4) 1(1,3) this] show ?thesis .
qed

text \<open>
  C32: a difference is settled once. A difference that was handled keeps its status, remark and time over
  any activity of the whole process, and handling it again is answered with the code for a handled
  difference and changes nothing.
\<close>

theorem diff_settled_once:
  assumes "schema_ok e (w_db (nd_world s))" and "diff_row_of i (w_db (nd_world s)) = Some row" and "td_handle_status row \<noteq> 0"
    and "run_ops (sys_step e a p) ops s = Some (rs, t)" and "healthy_from e (w_sql (nd_world t))" and "handleStatus_of action = Some st"
  shows "diff_row_of i (w_db (nd_world t)) = Some row \<and>
    (\<exists>w3. ReconcileService_handleDiff e i action remark (nd_world t) =
      Some (Inr (Result_fail kReconcileDiffAlreadyHandled msg_diff_handled ''''), w3) \<and> w_db w3 = w_db (nd_world t))"
proof -
  from handled.sys_run_keeps [OF _ assms(4)] assms(2,3) have row: "diff_row_of i (w_db (nd_world t)) = Some row" by blast
  from schema.sys_run_keeps [OF assms(1,4)] have "schema_ok e (w_db (nd_world t))" .
  from handleDiff_run [OF assms(5) this assms(6), of i remark] row assms(3) show ?thesis by (simp add: diff_open_def)
qed

section \<open>Witnesses\<close>

definition order_node :: node where
  "order_node = daily_node"

definition pay_node :: node where
  "pay_node = daily_node\<lparr>nd_world := pay_world\<rparr>"

lemmas sys_demo_defs = order_node_def pay_node_def daily_node_def order_request_def demo_peers_def relay_demo_defs

abbreviation demo_step :: "sys_op \<Rightarrow> http_response option node_act" where
  "demo_step \<equiv> sys_step demo_env (demo_amqp True) demo_peers"

lemma demo_order_run:
  "\<exists>resp s1 s2. demo_step (Http OrdersRoute (order_request ''0123456789abcdef'')) order_node = Some (Inr (Some resp), s1) \<and>
     w_db (nd_world s1) \<noteq> w_db (nd_world order_node) \<and> run_ops demo_step [RelayTick] s1 = Some ([Inr None], s2) \<and> w_clk (nd_world s2) = 3"
  by (simp add: eval_simps sys_demo_defs omap_find_def cong: eval_cong)

theorem order_retry_same_bytes_witness:
  "\<exists>resp s1 s2 s3. demo_step (Http OrdersRoute (order_request ''0123456789abcdef'')) order_node = Some (Inr (Some resp), s1) \<and>
     run_ops demo_step [RelayTick] s1 = Some ([Inr None], s2) \<and>
     demo_step (Http OrdersRoute (order_request ''0123456789abcdef'')) s2 = Some (Inr (Some resp), s3) \<and> w_db (nd_world s3) = w_db (nd_world s2)"
proof -
  let ?request = "order_request ''0123456789abcdef''"
  obtain resp s1 s2 where run: "demo_step (Http OrdersRoute ?request) order_node = Some (Inr (Some resp), s1)"
    "w_db (nd_world s1) \<noteq> w_db (nd_world order_node)" "run_ops demo_step [RelayTick] s1 = Some ([Inr None], s2)" "w_clk (nd_world s2) = 3"
    using demo_order_run by blast
  have req: "\<exists>req. orderReq_http demo_env ?request = Some req \<and> cor_quantity req = 2 \<and> cor_userId req = 7"
    by (simp add: orderReq_http_def order_request_def eval_simps omap_find_def)
  then obtain req where req: "orderReq_http demo_env ?request = Some req" "cor_quantity req = 2" "cor_userId req = 7" by blast
  have "schema_ok demo_env (w_db (nd_world order_node))" "same_printer demo_env" "rq_method ?request = Post"
    "request_ok demo_env req (nd_world s2)"
    using req(2,3) run(4) by (simp_all add: same_printer_def request_ok_def sys_demo_defs eval_simps)
  with order_retry_same_bytes [OF this(1,2,3) run(1,2,3) req(1)] run show ?thesis by auto
qed

lemma demo_payment_run:
  "\<exists>w1 s2. PaymentService_handleCallback demo_env (demo_callback ''c1'' ''5.00'') ''{}'' pay_world =
     Some (Inr (Result_ok (paidData (demo_callback ''c1'' ''5.00'')) ''c1''), w1) \<and>
     run_ops demo_step [RelayTick] (pay_node\<lparr>nd_world := w1\<rparr>) = Some ([Inr None], s2) \<and>
     w_gen (nd_world s2) = \<lparr>gLastTimestampMs = 1767225600001, gSequence = 0\<rparr> \<and> w_clk (nd_world s2) = 2 \<and>
     map ty_payment_no (t_payment (w_db (nd_world s2))) = [''264905529753735168'']"
  by (simp add: eval_simps sys_demo_defs pay_world_def demo_callback_def cong: eval_cong)

theorem payment_replay_witness:
  "\<exists>w1 s2 w3. PaymentService_handleCallback demo_env (demo_callback ''c1'' ''5.00'') ''{}'' pay_world =
       Some (Inr (Result_ok (paidData (demo_callback ''c1'' ''5.00'')) ''c1''), w1) \<and>
     run_ops demo_step [RelayTick] (pay_node\<lparr>nd_world := w1\<rparr>) = Some ([Inr None], s2) \<and>
     PaymentService_handleCallback demo_env (demo_callback ''c2'' ''5.00'') ''{}'' (nd_world s2) = Some (Inr (Result_ok JNull ''c2''), w3)"
proof -
  obtain w1 s2 where run: "PaymentService_handleCallback demo_env (demo_callback ''c1'' ''5.00'') ''{}'' pay_world =
       Some (Inr (Result_ok (paidData (demo_callback ''c1'' ''5.00'')) ''c1''), w1)"
     "run_ops demo_step [RelayTick] (pay_node\<lparr>nd_world := w1\<rparr>) = Some ([Inr None], s2)"
     "w_gen (nd_world s2) = \<lparr>gLastTimestampMs = 1767225600001, gSequence = 0\<rparr>" "w_clk (nd_world s2) = 2"
     "map ty_payment_no (t_payment (w_db (nd_world s2))) = [''264905529753735168'']"
    using demo_payment_run by (elim exE conjE) (rule that)
  have ready: "callback_ready demo_env (demo_callback ''c2'' ''5.00'') ''264905529762123776'' \<lparr>gLastTimestampMs = 1767225600002, gSequence = 0\<rparr> 3 (nd_world s2)"
    using demo_signed [of "''c2''" "''5.00''"] run(3,4)
    by (simp add: callback_ready_def, simp add: eval_simps demo_defs demo_callback_def)
  have new: "\<forall>r \<in> set (t_payment (w_db (nd_world s2))). ckey demo_env (ty_payment_no r) \<noteq> ckey demo_env ''264905529762123776''"
    using run(5) by (auto simp: demo_defs)
  have pay: "nd_world pay_node = pay_world" by (simp add: pay_node_def)
  have "\<exists>w3. PaymentService_handleCallback demo_env (demo_callback ''c2'' ''5.00'') ''{}'' (nd_world s2) =
      Some (Inr (Result_ok JNull (pcr_requestId (demo_callback ''c2'' ''5.00''))), w3) \<and> w_db w3 = w_db (nd_world s2)"
  proof (rule payment_replay [OF _ _ _ run(2) _ _ _ _ ready new])
    show "schema_ok demo_env (w_db (nd_world pay_node))" by (simp add: pay)
    show "PaymentService_handleCallback demo_env (demo_callback ''c1'' ''5.00'') ''{}'' (nd_world pay_node) =
       Some (Inr (Result_ok (paidData (demo_callback ''c1'' ''5.00'')) ''c1''), w1)" using run(1) by (simp only: pay)
    show "order_settled (demo_callback ''c1'' ''5.00'') (Result_ok (paidData (demo_callback ''c1'' ''5.00'')) ''c1'')"
      by (simp add: order_settled_def)
  qed (simp_all add: demo_callback_def)
  then obtain w3 where "PaymentService_handleCallback demo_env (demo_callback ''c2'' ''5.00'') ''{}'' (nd_world s2) = Some (Inr (Result_ok JNull ''c2''), w3)"
    by auto
  with run(1,2) show ?thesis by (intro exI conjI)
qed

text \<open>A payment that is notified in a run of the whole process: the ledger before and after.\<close>

definition callback_request :: http_req where
  "callback_request = \<lparr>rq_method = Post, rq_header = ''0123456789abcdef'', rq_attr = None, rq_batchNo = '''', rq_body = ''{}'',
     rq_json = Some (JObject [(''amount'', JString ''5.00''), (''channel'', JString ''MOCK''), (''channelTradeNo'', JString ''t1''),
       (''orderNo'', JString ''1''), (''sign'', JString (pcr_sign (demo_callback ''c1'' ''5.00''))), (''timestamp'', JInt 1767225600)])\<rparr>"

lemma demo_system_run:
  "\<exists>resp t. run_ops demo_step [Http CallbackRoute callback_request, RelayTick] pay_node = Some ([Inr (Some resp), Inr None], t) \<and>
     flow_total (w_db (nd_world t)) = 500 \<and> length (t_payment (w_db (nd_world t))) = 1"
  by (simp add: eval_simps sys_demo_defs pay_world_def demo_callback_def callback_request_def omap_find_def flow_total_def cong: eval_cong)

lemma pay_node_schema: "schema_ok demo_env (w_db (nd_world pay_node))"
  by (simp add: pay_node_def)

theorem ledger_balanced_witness:
  "\<exists>rs t. run_ops demo_step [Http CallbackRoute callback_request, RelayTick] pay_node = Some (rs, t) \<and>
     flow_total (w_db (nd_world t)) = 500 \<and> payment_total (w_db (nd_world t)) = 500 \<and> paid_messages (w_db (nd_world t)) = 1"
proof -
  obtain rs t where run: "run_ops demo_step [Http CallbackRoute callback_request, RelayTick] pay_node = Some (rs, t)"
    "flow_total (w_db (nd_world t)) = 500" "length (t_payment (w_db (nd_world t))) = 1"
    using demo_system_run by blast
  have "flow_total (w_db (nd_world pay_node)) = 0" "payment_total (w_db (nd_world pay_node)) = 0" "paid_messages (w_db (nd_world pay_node)) = 0"
    "length (t_payment (w_db (nd_world pay_node))) = 0"
    by (simp_all add: flow_total_def payment_total_def paid_messages_def pay_node_def pay_world_def demo_defs)
  with ledger_balanced [OF pay_node_schema run(1)] run show ?thesis by auto
qed

theorem order_paid_once_witness:
  "\<exists>rs t. run_ops demo_step [Http CallbackRoute callback_request, RelayTick] pay_node = Some (rs, t) \<and>
     length (t_payment (w_db (nd_world t))) = 1 \<and>
     list_all (\<lambda>p. \<exists>r. order_row_of demo_env (ty_order_no p) (w_db (nd_world t)) = Some r \<and> to_total_amount r = ty_amount p \<and> to_status r = 1)
       (t_payment (w_db (nd_world t)))"
proof -
  obtain rs t where run: "run_ops demo_step [Http CallbackRoute callback_request, RelayTick] pay_node = Some (rs, t)"
    "length (t_payment (w_db (nd_world t))) = 1"
    using demo_system_run by blast
  have "paid_once demo_env (w_db (nd_world pay_node))" by (simp add: paid_once_def pay_node_def pay_world_def demo_defs)
  from order_paid_once [OF pay_node_schema this run(1)] run show ?thesis by blast
qed

theorem system_no_oversell_witness:
  "\<exists>rs t. run_ops demo_step [Http OrdersRoute (order_request ''0123456789abcdef'')] order_node = Some (rs, t) \<and>
     stock_of 1 (w_db (nd_world t)) + sold 1 (w_db (nd_world t)) = 2"
proof -
  obtain resp t where run: "demo_step (Http OrdersRoute (order_request ''0123456789abcdef'')) order_node = Some (Inr (Some resp), t)"
    using demo_order_run by blast
  then have "run_ops demo_step [Http OrdersRoute (order_request ''0123456789abcdef'')] order_node = Some ([Inr (Some resp)], t)"
    by (simp del: sys_step.simps)
  moreover have "schema_ok demo_env (w_db (nd_world order_node))" "stock_of 1 (w_db (nd_world order_node)) + sold 1 (w_db (nd_world order_node)) = 2"
    by (simp_all add: stock_of_def sold_def sys_demo_defs eval_simps)
  ultimately show ?thesis using system_no_oversell [of demo_env order_node] by metis
qed

lemma bill_reconciled:
  "\<exists>res w1. ReconcileService_run bill_env ''2026-01-01'' bill_world = Some (Inr res, w1) \<and> run_reported res"
proof -
  from demo_run obtain d w1 where "ReconcileService_run bill_env ''2026-01-01'' bill_world = Some (Inr (Result_ok d ''2026-01-01''), w1)" by blast
  moreover have "run_reported (Result_ok d ''2026-01-01'')" by (simp add: run_reported_def)
  ultimately show ?thesis by blast
qed

theorem reconciled_once_witness:
  "\<exists>res w1 w3. ReconcileService_run bill_env ''2026-01-01'' bill_world = Some (Inr res, w1) \<and>
     ReconcileService_run bill_env ''2026-01-01'' w1 =
       Some (Inr (Result_fail kReconcileBatchStatusInvalid msg_batch_exists ''2026-01-01''), w3) \<and> w_db w3 = w_db w1"
proof -
  obtain res w1 where run: "ReconcileService_run bill_env ''2026-01-01'' bill_world = Some (Inr res, w1)" "run_reported res"
    using bill_reconciled by blast
  let ?s = "daily_node\<lparr>nd_world := bill_world\<rparr>"
  have "healthy_from bill_env n" for n by (simp add: healthy_from_def bill_env_def demo_env_def)
  with reconciled_once [of bill_env "''2026-01-01''" ?s res w1 _ _ "[]" "[]" "?s\<lparr>nd_world := w1\<rparr>"] run show ?thesis by auto
qed

theorem diff_settled_once_witness:
  "\<exists>row t w3. diff_row_of 1 (w_db (diff_world 2)) = Some row \<and>
     run_ops demo_step [RelayTick] (daily_node\<lparr>nd_world := diff_world 2\<rparr>) = Some ([Inr None], t) \<and>
     ReconcileService_handleDiff demo_env 1 ''verify'' ''ok'' (nd_world t) =
       Some (Inr (Result_fail kReconcileDiffAlreadyHandled msg_diff_handled ''''), w3)"
proof -
  let ?s = "daily_node\<lparr>nd_world := diff_world 2\<rparr>"
  have "\<exists>t. run_ops demo_step [RelayTick] ?s = Some ([Inr None], t)"
    by (simp add: eval_simps sys_demo_defs diff_world_def cong: eval_cong)
  then obtain t where t: "run_ops demo_step [RelayTick] ?s = Some ([Inr None], t)" ..
  have "schema_ok demo_env (w_db (nd_world ?s))" by (simp add: diff_world_def demo_defs eval_simps)
  moreover obtain row where row: "diff_row_of 1 (w_db (nd_world ?s)) = Some row" "td_handle_status row \<noteq> 0"
    by (simp add: diff_world_def diff_row_of_def first_where_def)
  moreover have "handleStatus_of ''verify'' = Some 1" by (simp add: handleStatus_of_def)
  ultimately show ?thesis
    using diff_settled_once [OF _ row t demo_env_healthy, of "''verify''" 1 "''ok''"] t by auto
qed

end
