(* ===== verification/Pipeline.thy ===== *)
theory Pipeline
  imports SystemProperties
begin

text \<open>
  The way of a payment to the merchant, across the callback's transaction, the outbox, the relay, the
  broker and the consumer: what the merchant is told is true, and a settled order is told. The parts
  are those of \<open>PaymentService\<close>, \<open>MessageRelayTask\<close>, \<open>MqClient\<close> and \<open>NotifyConsumer\<close>, run by
  \<open>System\<close>; the broker is any that delivers only what was published.
\<close>

section \<open>Settled orders\<close>

text \<open>The order is paid, and a payment of its amount is recorded for it.\<close>

definition settled :: "env \<Rightarrow> string \<Rightarrow> int \<Rightarrow> db \<Rightarrow> bool" where
  "settled e no amt d \<longleftrightarrow>
     (\<exists>r. order_row_of e no d = Some r \<and> to_order_no r = no \<and> to_status r = 1 \<and> to_total_amount r = amt) \<and>
     (\<exists>p \<in> set (t_payment d). ckey e (ty_order_no p) = ckey e no \<and> ty_amount p = amt)"

interpretation settled_kept: table_invariant e "settled e no amt" for e no amt
proof (unfold_locales, goal_cases)
  case (3 order)
  show ?case
    by (rule stmt_keepsI) (auto simp: sql_insertOrder_eq settled_def order_row_of_def first_where_append split: option.splits)
next
  case (5 no')
  show ?case
    by (rule stmt_keepsI)
      (auto simp: sql_markPaid_def order_markPaid_def update_where_def settled_def order_row_of_def sql_eq_def
        first_where_map_if [of "\<lambda>r. ckey e (to_order_no r)"])
next
  case (6 pay)
  show ?case
    by (rule stmt_keepsI) (auto simp: sql_insertPayment_def payment_ins_def settled_def order_row_of_def split: option.splits if_splits)
qed (rule stmt_only_keeps, rule stmt_tables, simp add: settled_def order_row_of_def)+

lemma settled_placed: "settled e no amt d \<Longrightarrow> settled e no amt (placed_db e req order rec x y d)"
  by (auto simp: settled_def order_row_of_def placed_db_def first_where_append)

lemma order_row_of_paid: "order_row_of e no (paid_db e no' n acc q p f m d) = order_row_of e no (pay_order e no' n d)"
  by (simp add: paid_db_def order_row_of_def)

lemma settled_paid:
  "settled e no amt d \<Longrightarrow> settled e no amt (paid_db e no' n acc q p f m d)"
  by (cases "ckey e no = ckey e no'") (auto simp: settled_def order_row_of_paid order_row_of_pay_order)

lemma settled_now:
  assumes "order_row_of e (pcr_orderNo cb) d = Some ord" and "paid_payment cb ord p"
  shows "settled e (to_order_no ord) (to_total_amount ord) (paid_db e (pcr_orderNo cb) n acc q p f m d)"
proof -
  from order_row_of_SomeD [OF assms(1)] have key: "ckey e (to_order_no ord) = ckey e (pcr_orderNo cb)" by simp
  then have "order_row_of e (to_order_no ord) d = Some ord" using assms(1) by (simp add: order_row_of_def sql_eq_def)
  with key assms(2) show ?thesis
    by (simp add: settled_def order_row_of_paid order_row_of_pay_order paid_payment_def)
qed

section \<open>The outbox\<close>

text \<open>Every message was written for a settled order.\<close>

definition outbox_settled :: "env \<Rightarrow> db \<Rightarrow> bool" where
  "outbox_settled e d \<longleftrightarrow> (\<forall>m \<in> set (t_local_message d). \<exists>order.
     tl_payload m = json_styled e (paidPayload (tl_message_id m) order) \<and> settled e (ord_orderNo order) (ord_totalAmountFen order) d)"

lemma outbox_settled_rewrite:
  assumes "outbox_settled e d" and "\<And>r. tl_payload (f r) = tl_payload r \<and> tl_message_id (f r) = tl_message_id r"
  shows "outbox_settled e (d\<lparr>t_local_message := map f (t_local_message d)\<rparr>)"
  using assms by (simp add: outbox_settled_def settled_def order_row_of_def)

interpretation outbox: effect_invariant e "outbox_settled e" for e
proof (unfold_locales, goal_cases)
  case 1
  have "t_local_message (placed_db e req order rec x y d) = t_local_message d" for req order rec x y d
    by (simp add: placed_db_def)
  with 1 show ?case unfolding outbox_settled_def by (metis settled_placed)
next
  case (2 d cb ord a pay f m n)
  let ?d = "paid_db e (pcr_orderNo cb) n (ta_account_no a) (to_total_amount ord) pay f m d"
  have "t_local_message ?d = t_local_message d @ [m]" by (simp add: paid_db_def)
  moreover have "\<exists>order. tl_payload m = json_styled e (paidPayload (tl_message_id m) order) \<and>
      settled e (ord_orderNo order) (ord_totalAmountFen order) ?d"
    using 2(8) settled_now [OF 2(3,6)]
    by (intro exI [of _ "order_of_row e ord"]) (simp add: paid_message_def)
  moreover have "\<forall>m' \<in> set (t_local_message d). \<exists>order. tl_payload m' = json_styled e (paidPayload (tl_message_id m') order) \<and>
      settled e (ord_orderNo order) (ord_totalAmountFen order) ?d"
    using 2(2) settled_paid unfolding outbox_settled_def by blast
  ultimately show ?case unfolding outbox_settled_def by auto
next
  case (6 i)
  show ?case by (rule stmt_keepsI) (auto simp: sql_markAcked_def update_where_def intro!: outbox_settled_rewrite)
next
  case (7 i k b)
  show ?case by (rule stmt_keepsI) (auto simp: sql_markMessageFailed_def update_where_def intro!: outbox_settled_rewrite)
next
  case (8 i)
  show ?case by (rule stmt_keepsI) (auto simp: sql_markGiveUp_def update_where_def intro!: outbox_settled_rewrite)
qed (rule stmt_only_keeps, rule stmt_tables, simp add: outbox_settled_def settled_def order_row_of_def)+

section \<open>Identifiers\<close>

text \<open>The characters of the generated identifiers, which every printer and parser leaves alone.\<close>

definition plain :: "char \<Rightarrow> bool" where
  "plain c \<longleftrightarrow> is_digit c \<or> c = CHR ''-''"

definition ids_plain :: "db \<Rightarrow> bool" where
  "ids_plain d \<longleftrightarrow> list_all (\<lambda>r. list_all plain (to_order_no r)) (t_order d) \<and>
     list_all (\<lambda>m. list_all plain (tl_message_id m)) (t_local_message d)"

lemma plain_string_of_int: "list_all plain (string_of_int i)"
  by (auto simp: string_of_int_def list_all_iff plain_def string_of_nat_digits)

lemma nextId_plain: "nextId e w = Some (Inr x, w') \<Longrightarrow> list_all plain x"
  by (auto simp: nextId_eq IdGenerator_nextId_def Let_def finish_id_def plain_string_of_int split: if_splits option.splits)

text \<open>What follows a call of the generator may rely on the shape of the identifier.\<close>

lemma preserves_nextId:
  assumes "preserves P (nextId e)" and "\<And>x. list_all plain x \<Longrightarrow> preserves P (f x)"
  shows "preserves P (bnd (nextId e) f)"
proof (rule preservesI)
  fix s r t
  assume "P s" and run: "bnd (nextId e) f s = Some (r, t)"
  from run obtain x u where u: "nextId e s = Some (x, u)" and
    rest: "case x of Inl exn \<Rightarrow> t = u | Inr v \<Rightarrow> f v u = Some (r, t)"
    by (auto simp: bnd_def split: option.splits sum.splits)
  from preservesD [OF assms(1) u \<open>P s\<close>] have "P u" .
  show "P t"
  proof (cases x)
    case (Inr v)
    with u have "list_all plain v" using nextId_plain by blast
    with assms(2) Inr rest \<open>P u\<close> show ?thesis using preservesD by fastforce
  qed (use rest \<open>P u\<close> in simp)
qed

lemma createOrder_keeps_plain:
  assumes "\<And>rec. stmt_keeps P (sql_acquire e rec)" and "\<And>pid q. stmt_keeps P (sql_deductStock pid q)"
    and "\<And>order. list_all plain (ord_orderNo order) \<Longrightarrow> stmt_keeps P (sql_insertOrder e order)"
    and "\<And>rid body. stmt_keeps P (sql_markSuccess e rid body)"
  shows "preserves (committed P) (OrderService_createOrder e req)"
proof -
  have "preserves (all_tables P) (createOrder_execute e req)"
    unfolding createOrder_execute_def ProductDao_getById_def ProductDao_deductStock_def OrderDao_insert_def IdempotentDao_markSuccess_def
    by (intro preserves_nextId preserves_intro assms; simp add: orderOf_def)
  then show ?thesis
    unfolding OrderService_createOrder_def createOrder_scope_def buildIdempotentRecord_def
      IdempotentDao_tryAcquire_def createOrder_catch_def
    by (intro preserves_intro assms) (auto split: exn.split intro: preserves_intro)
qed

lemma handleCallback_keeps_plain:
  assumes "\<And>no. stmt_keeps P (sql_markPaid e no)" and "\<And>p. stmt_keeps P (sql_insertPayment e p)"
    and "\<And>no q. stmt_keeps P (sql_deduct e no q)" and "\<And>flow. stmt_keeps P (sql_insertFlow e flow)"
    and "\<And>m. list_all plain (msg_messageId m) \<Longrightarrow> stmt_keeps P (sql_insertMessage e m)"
  shows "preserves (committed P) (PaymentService_handleCallback e req rawBody)"
proof -
  have "preserves (all_tables P) (handleCallback_message e req order)" for order
    unfolding handleCallback_message_def LocalMessageDao_insert_def
    by (intro preserves_nextId preserves_intro assms; simp add: messageOf_def)
  then show ?thesis
    unfolding handleCallback_debit_def handleCallback_settle_def handleCallback_scope_def handleCallback_catch_def
      PaymentService_handleCallback_def OrderDao_getByOrderNo_def OrderDao_markPaid_def PaymentDao_insertWithDedup_def
      PaymentDao_getByChannelTradeNo_def AccountDao_getByUserId_def AccountDao_deduct_def AccountDao_insertFlow_def
    by (intro preserves_intro assms) (auto split: exn.split intro: preserves_intro)
qed

lemma ids_plain_stmts:
  "list_all plain (ord_orderNo order) \<Longrightarrow> stmt_keeps ids_plain (sql_insertOrder e order)"
  "list_all plain (msg_messageId m) \<Longrightarrow> stmt_keeps ids_plain (sql_insertMessage e m)"
  "stmt_keeps ids_plain (sql_markPaid e no)" "stmt_keeps ids_plain (sql_markAcked e i)"
  "stmt_keeps ids_plain (sql_markMessageFailed e i k b)" "stmt_keeps ids_plain (sql_markGiveUp e i)"
  by (rule stmt_keepsI; auto simp: sql_insertOrder_eq order_row_for_def sql_insertMessage_def message_row_for_def sql_markPaid_def
      order_markPaid_def sql_markAcked_def sql_markMessageFailed_def sql_markGiveUp_def update_where_def ids_plain_def list_all_iff
      split: if_splits)+

lemma ids_plain_others:
  "stmt_keeps ids_plain (sql_acquire e rec)" "stmt_keeps ids_plain (sql_deductStock pid q)" "stmt_keeps ids_plain (sql_markSuccess e rid body)"
  "stmt_keeps ids_plain (sql_insertPayment e pay)" "stmt_keeps ids_plain (sql_deduct e acc q)" "stmt_keeps ids_plain (sql_insertFlow e flow)"
  "stmt_keeps ids_plain (sql_insertBatch e batch)" "stmt_keeps ids_plain (sql_insertDiff e diff)" "stmt_keeps ids_plain (sql_handleDiff e fid st remark)"
  "stmt_keeps ids_plain (sql_insertNotify e no ord url mid)" "stmt_keeps ids_plain (sql_notifySuccess e no answer)"
  "stmt_keeps ids_plain (sql_notifyFailed e no k answer)"
  by (rule stmt_only_keeps, rule stmt_tables, simp add: ids_plain_def)+

interpretation identifiers: service_invariant e ids_plain for e
  by unfold_locales
    (intro createOrder_keeps_plain handleCallback_keeps_plain run_keeps handleDiff_keeps ids_plain_stmts ids_plain_others, assumption?)+

section \<open>What is sent\<close>

text \<open>The broker's store and the requests to the merchant stay within two sets.\<close>

definition sent_within :: "publication set \<Rightarrow> http_request set \<Rightarrow> node \<Rightarrow> bool" where
  "sent_within S R s \<longleftrightarrow> set (mq_stored (nd_mq s)) \<subseteq> S \<and> set (nd_requests s) \<subseteq> R"

lemma publish_within:
  assumes "(c_str ex, c_str rk, c_str body) \<in> S"
  shows "preserves (\<lambda>q. set (mq_stored q) \<subseteq> S) (MqClient_publish a ex rk body)"
proof -
  have "preserves (\<lambda>q. set (mq_stored q) \<subseteq> S) (amqp_call f)" for f :: "nat \<Rightarrow> amqp_frame option"
    by (rule preservesI) (auto simp: amqp_call_def)
  moreover have "preserves (\<lambda>q. set (mq_stored q) \<subseteq> S) (amqp_call f)" for f :: "nat \<Rightarrow> bool"
    by (rule preservesI) (auto simp: amqp_call_def)
  moreover have "preserves (\<lambda>q. set (mq_stored q) \<subseteq> S) (basic_publish a (c_str ex, c_str rk, c_str body))"
    by (rule preservesI) (use assms in \<open>auto simp: basic_publish_def split: if_splits\<close>)
  moreover have "preserves (\<lambda>q. set (mq_stored q) \<subseteq> S) MqClient_close" "preserves (\<lambda>q. set (mq_stored q) \<subseteq> S) (modify (\<lambda>s. s\<lparr>mq_conn := c\<rparr>))" for c
    unfolding MqClient_close_def by (rule preserves_modify, simp)+
  ultimately show ?thesis
    unfolding MqClient_publish_def publish_connected_def ensureConnected_def waitConfirm_def rpcOk_def declareExchange_def close_false_def
    by (intro preserves_intro)
qed

lemma within_lifted [preserves_intro]:
  "preserves (sent_within S R) (on_db m)"
  "preserves (\<lambda>q. set (mq_stored q) \<subseteq> S) n \<Longrightarrow> preserves (sent_within S R) (on_mq n)"
  unfolding preserves_def sent_within_def by (auto simp: eff_simps simp del: subset_iff) (metis subsetD)+

lemma within_flags [preserves_intro]:
  "preserves (sent_within S R) (modify (\<lambda>s. s\<lparr>nd_mqClient := b\<rparr>))" "preserves (sent_within S R) (modify (\<lambda>s. s\<lparr>nd_relaying := b\<rparr>))"
  "preserves (sent_within S R) (modify (\<lambda>s. s\<lparr>nd_reconciling := b\<rparr>))" "preserves (sent_within S R) (on_consumer f)"
  "preserves (sent_within S R) (sleep_for k)"
  unfolding on_consumer_def sleep_for_def by (rule preserves_modify, simp add: sent_within_def)+

lemma within_request [preserves_intro]: "req \<in> R \<Longrightarrow> preserves (sent_within S R) (send_request p req)"
  unfolding send_request_def by (intro preserves_intro preserves_modify) (simp add: sent_within_def)

lemma attempts_within: "req \<in> R \<Longrightarrow> preserves (sent_within S R) (notify_attempts e p req no a)"
proof (induction e p req no a rule: notify_attempts.induct)
  case (1 e p req no a)
  show ?case
    unfolding notify_attempts.simps [of e p req no a]
    by (rule preserves_bnd) (auto split: option.split intro!: preserves_intro 1)
qed

lemma delivery_within:
  assumes "\<And>j mid ord amt base no. json_parse e body = Some j \<Longrightarrow> message_fields j = Some (Some (mid, ord, amt)) \<Longrightarrow>
    notifyRequest e base no ord amt \<in> R"
  shows "preserves (sent_within S R) (handleMessage e p body tag)"
  unfolding handleMessage_def
proof (rule preserves_bnd)
  show "preserves (sent_within S R) (NotifyConsumer_process e p body)"
  proof (cases "\<exists>j q. json_parse e body = Some j \<and> message_fields j = Some (Some q)")
    case True
    then obtain j mid ord amt where "json_parse e body = Some j" "message_fields j = Some (Some (mid, ord, amt))" by auto
    with assms [OF this] show ?thesis
      by (simp add: NotifyConsumer_process_def or_throw_def notify_merchant_def)
         (auto intro!: preserves_intro attempts_within)
  next
    case False
    then show ?thesis
      by (auto simp: NotifyConsumer_process_def or_throw_def intro!: preserves_intro split: option.split)
  qed
qed (intro preserves_intro)

lemma relay_one_within:
  assumes "(c_str (msg_exchange m), c_str (msg_routingKey m), c_str (msg_payload m)) \<in> S"
  shows "preserves (sent_within S R) (relay_one e a m)"
  unfolding relay_one_def relay_failed_def Let_def by (intro preserves_intro publish_within assms)

lemma relay_each_within:
  "\<forall>m \<in> set msgs. (c_str (msg_exchange m), c_str (msg_routingKey m), c_str (msg_payload m)) \<in> S \<Longrightarrow>
   preserves (sent_within S R) (relay_each e a msgs)"
  by (induction msgs) (auto intro!: preserves_intro relay_one_within)

lemma relay_tick_within:
  assumes "relay_tick e a s = Some (r, t)" and "sent_within S R s"
    and "publication_of ` set (t_local_message (w_db (nd_world s))) \<subseteq> S"
  shows "sent_within S R t"
proof -
  have scan: "sent_within S R u'" if "bnd (on_db (LocalMessageDao_scanPending e kBatchLimit)) (\<lambda>messages. relay_each e a messages) u = Some (r', u')"
    "sent_within S R u" "w_db (nd_world u) = w_db (nd_world s)" for u r' u'
  proof -
    from that(1) obtain x w where x: "LocalMessageDao_scanPending e kBatchLimit (nd_world u) = Some (x, w)"
      "case x of Inl _ \<Rightarrow> u' = u\<lparr>nd_world := w\<rparr> | Inr msgs \<Rightarrow> relay_each e a msgs (u\<lparr>nd_world := w\<rparr>) = Some (r', u')"
      by (auto simp: bnd_def on_db_def split: option.splits sum.splits)
    have u: "sent_within S R (u\<lparr>nd_world := w\<rparr>)" using that(2) by (simp add: sent_within_def)
    show ?thesis
    proof (cases x)
      case (Inl exn)
      with x(2) u show ?thesis by simp
    next
      case (Inr msgs)
      with x(1) that(3) have "set msgs \<subseteq> message_of_row ` set (t_local_message (w_db (nd_world s)))"
        by (auto simp: LocalMessageDao_scanPending_def execSqlSync_auto_def sql_scanPending_def due_messages_def
            split: if_splits dest!: in_set_takeD)
      with assms(3) have "\<forall>m \<in> set msgs. (c_str (msg_exchange m), c_str (msg_routingKey m), c_str (msg_payload m)) \<in> S"
        by (fastforce simp: publication_of_def message_of_row_def)
      from preservesD [OF relay_each_within [OF this]] x(2) Inr u show ?thesis by auto
    qed
  qed
  have relay: "sent_within S R u'" if "MessageRelayTask_relay e a u = Some (r', u')" "sent_within S R u" "nd_world u = nd_world s" for u r' u'
  proof -
    from that(1) consider "u' = u" | "bnd (on_db (LocalMessageDao_scanPending e kBatchLimit)) (\<lambda>messages. relay_each e a messages) u = Some (r', u')"
      | "bnd (on_db (LocalMessageDao_scanPending e kBatchLimit)) (\<lambda>messages. relay_each e a messages) (u\<lparr>nd_mqClient := True\<rparr>) = Some (r', u')"
      by (auto simp: MessageRelayTask_relay_def create_client_def bnd_def gets_def ret_def or_throw_def throw_def modify_def
          split: if_splits option.splits)
    then show ?thesis using scan [of u] scan [of "u\<lparr>nd_mqClient := True\<rparr>"] that(2,3) by cases (auto simp: sent_within_def)
  qed
  show ?thesis
  proof (cases "nd_relaying s")
    case True
    with assms(1,2) show ?thesis by (simp add: relay_tick_def MessageRelayTask_runOnce_def bnd_def gets_def ret_def)
  next
    case False
    with assms(1) obtain r1 u where u: "MessageRelayTask_relay e a (s\<lparr>nd_relaying := True\<rparr>) = Some (r1, u)" "t = u \<or> t = u\<lparr>nd_relaying := False\<rparr>"
      by (auto simp: relay_tick_def MessageRelayTask_runOnce_def bnd_def gets_def ret_def modify_def worker_run_def try_catch_def relay_job_def
          split: option.splits sum.splits)
    from relay [OF u(1)] assms(2) have "sent_within S R u" by (simp add: sent_within_def)
    with u(2) show ?thesis by (auto simp: sent_within_def)
  qed
qed

section \<open>The pipeline\<close>

text \<open>
  What is asked of jsoncpp: the string members of a payload survive printing, the C string of the
  publisher and parsing. (The parser may read a number back with another type, and the printer
  replaces bytes that are not UTF-8, so this is asked of strings only, and only when the identifiers
  are plain.)
\<close>

definition payload_roundtrip :: "env \<Rightarrow> bool" where
  "payload_roundtrip e \<longleftrightarrow>
     (\<forall>mid order. list_all plain mid \<longrightarrow> list_all plain (ord_orderNo order) \<longrightarrow>
        (\<exists>j. json_parse e (c_str (json_styled e (paidPayload mid order))) = Some j \<and>
           (\<forall>k x. jget (paidPayload mid order) k = Some (JString x) \<longrightarrow> jget j k = Some (JString x))))"

lemma paidPayload_members:
  "jget (paidPayload mid order) k =
     Some (if k = ''status'' then JInt 1 else if k = ''userId'' then JUInt (uint (ord_userId order))
       else if k = ''amount'' then JString (fenToYuanString (ord_totalAmountFen order)) else if k = ''orderNo'' then JString (ord_orderNo order)
       else if k = ''bizType'' then JString kBizTypeOrderPaid else if k = ''messageId'' then JString mid else JNull)"
  by (auto simp: paidPayload_def omap_find_upd omap_find_def)

text \<open>The operations of the process, with a broker that delivers only what was published.\<close>

fun genuine :: "sys_op \<Rightarrow> node \<Rightarrow> bool" where
  "genuine (Delivery body tag) s \<longleftrightarrow> list_ex (\<lambda>(ex, rk, b). b = body) (mq_stored (nd_mq s))"
| "genuine oper s \<longleftrightarrow> True"

inductive pipeline :: "env \<Rightarrow> amqp \<Rightarrow> peers \<Rightarrow> node \<Rightarrow> node \<Rightarrow> bool" for e a p where
  start: "pipeline e a p s s"
| step: "pipeline e a p s t \<Longrightarrow> genuine oper t \<Longrightarrow> sys_step e a p oper t = Some (r, u) \<Longrightarrow> pipeline e a p s u"

definition notifyBody :: "env \<Rightarrow> string \<Rightarrow> int \<Rightarrow> string" where
  "notifyBody e no amt = json_styled e (jset ''amount'' (JString (fenToYuanString amt)) (jset ''orderNo'' (JString no) JNull))"

definition settled_publications :: "env \<Rightarrow> db \<Rightarrow> publication set" where
  "settled_publications e d = {(ex, rk, b). \<exists>mid order. b = c_str (json_styled e (paidPayload mid order)) \<and>
     list_all plain mid \<and> settled e (ord_orderNo order) (ord_totalAmountFen order) d}"

definition settled_requests :: "env \<Rightarrow> db \<Rightarrow> http_request set" where
  "settled_requests e d = {q. \<exists>no amt. hr_body q = notifyBody e no amt \<and> settled e no amt d}"

definition pipe_ok :: "env \<Rightarrow> node \<Rightarrow> bool" where
  "pipe_ok e s \<longleftrightarrow> (let d = w_db (nd_world s) in
     schema_ok e d \<and> ids_plain d \<and> outbox_settled e d \<and>
     sent_within (settled_publications e d) (settled_requests e d) s)"

lemma settled_plain:
  assumes "settled e no amt d" and "ids_plain d"
  shows "list_all plain no"
  using assms by (auto simp: settled_def ids_plain_def list_all_iff dest: order_row_of_SomeD)

lemma jget_string_member: "jget j k = Some (JString x) \<Longrightarrow> isMember j k = Some True \<and> memberOr j k y = Some x"
  by (cases j) (auto simp: memberOr_def split: option.splits)

lemma payload_fields:
  assumes "payload_roundtrip e" and "list_all plain mid" and "list_all plain (ord_orderNo order)"
  obtains j where "json_parse e (c_str (json_styled e (paidPayload mid order))) = Some j"
    "message_fields j = Some (Some (mid, ord_orderNo order, fenToYuanString (ord_totalAmountFen order)))"
proof -
  from assms obtain j where j: "json_parse e (c_str (json_styled e (paidPayload mid order))) = Some j"
    "\<And>k x. jget (paidPayload mid order) k = Some (JString x) \<Longrightarrow> jget j k = Some (JString x)"
    unfolding payload_roundtrip_def by blast
  have "jget j ''messageId'' = Some (JString mid)" "jget j ''orderNo'' = Some (JString (ord_orderNo order))"
    "jget j ''amount'' = Some (JString (fenToYuanString (ord_totalAmountFen order)))"
    by (rule j(2), simp add: paidPayload_members)+
  from this [THEN jget_string_member] have
    "message_fields j = Some (Some (mid, ord_orderNo order, fenToYuanString (ord_totalAmountFen order)))"
    by (simp add: message_fields_def)
  with j(1) that show thesis by blast
qed

lemma delivered_request:
  assumes "payload_roundtrip e" and "ids_plain d" and "(ex, rk, body) \<in> settled_publications e d"
    and "json_parse e body = Some j" and "message_fields j = Some (Some (mid, ord, amt))"
  shows "notifyRequest e base no ord amt \<in> settled_requests e d"
proof -
  from assms(3) obtain mid' order where body: "body = c_str (json_styled e (paidPayload mid' order))" "list_all plain mid'"
    and s: "settled e (ord_orderNo order) (ord_totalAmountFen order) d" by (auto simp: settled_publications_def)
  from payload_fields [OF assms(1) body(2) settled_plain [OF s assms(2)]] body(1) assms(4,5)
  have "ord = ord_orderNo order" "amt = fenToYuanString (ord_totalAmountFen order)" by auto
  with s show ?thesis by (auto simp: settled_requests_def notifyRequest_def notifyBody_def)
qed

lemma outbox_publications:
  assumes "outbox_settled e d" and "ids_plain d"
  shows "publication_of ` set (t_local_message d) \<subseteq> settled_publications e d"
proof (rule image_subsetI)
  fix m
  assume m: "m \<in> set (t_local_message d)"
  with assms(1) obtain order where "tl_payload m = json_styled e (paidPayload (tl_message_id m) order)"
    "settled e (ord_orderNo order) (ord_totalAmountFen order) d" unfolding outbox_settled_def by blast
  moreover from assms(2) m have "list_all plain (tl_message_id m)" by (simp add: ids_plain_def list_all_iff)
  ultimately show "publication_of m \<in> settled_publications e d"
    unfolding settled_publications_def publication_of_def by (simp, intro exI [of _ "tl_message_id m"] exI [of _ order] conjI) simp_all
qed

lemma sys_step_within:
  assumes "payload_roundtrip e" and "pipe_ok e s" and "genuine oper s" and "sys_step e a p oper s = Some (r, t)"
  shows "sent_within (settled_publications e (w_db (nd_world s))) (settled_requests e (w_db (nd_world s))) t"
    (is "sent_within ?S ?R t")
proof -
  from assms(2) have ok: "sent_within ?S ?R s" "ids_plain (w_db (nd_world s))" "outbox_settled e (w_db (nd_world s))"
    by (simp_all add: pipe_ok_def Let_def)
  show ?thesis
  proof (cases oper)
    case (Http route request)
    have "preserves (sent_within ?S ?R) (sys_step e a p oper)" unfolding Http by (simp, intro preserves_intro)
    from preservesD [OF this assms(4) ok(1)] show ?thesis .
  next
    case RelayTick
    with assms(4) obtain r' where tick: "relay_tick e a s = Some (r', t)" by (auto simp: bnd_def ret_def split: option.splits sum.splits)
    from relay_tick_within [OF tick ok(1) outbox_publications [OF ok(3,2)]] show ?thesis .
  next
    case ReconcileTick
    have "preserves (sent_within ?S ?R) (reconcile_tick e)"
      unfolding reconcile_tick_def ReconcileTask_runOnce_def reconcile_job_def ReconcileTask_checkAndRun_def worker_run_def
      by (intro preserves_intro)
    then have "preserves (sent_within ?S ?R) (sys_step e a p oper)" unfolding ReconcileTick by (simp, intro preserves_intro)
    from preservesD [OF this assms(4) ok(1)] show ?thesis .
  next
    case (Delivery body tag)
    with assms(3) ok(1) obtain ex rk where "(ex, rk, body) \<in> ?S" by (auto simp: list_ex_iff sent_within_def)
    from delivered_request [OF assms(1) ok(2) this] have "preserves (sent_within ?S ?R) (handleMessage e p body tag)"
      by (intro delivery_within)
    then have "preserves (sent_within ?S ?R) (sys_step e a p oper)" unfolding Delivery by (simp, intro preserves_intro)
    from preservesD [OF this assms(4) ok(1)] show ?thesis .
  qed
qed

lemma pipe_ok_step:
  assumes "payload_roundtrip e" and "pipe_ok e s" and "genuine oper s" and "sys_step e a p oper s = Some (r, t)"
  shows "pipe_ok e t"
proof -
  let ?d = "w_db (nd_world s)" and ?d' = "w_db (nd_world t)"
  from assms(2) have ok: "schema_ok e ?d" "ids_plain ?d" "outbox_settled e ?d" by (simp_all add: pipe_ok_def Let_def)
  have keep: "P ?d'" if "service_invariant e P" "P ?d" for P
    using preservesD [OF service_invariant.sys_step_keeps [OF that(1)] assms(4)] that(2) by (simp add: in_world_def committed_def)
  have "settled e no amt ?d \<Longrightarrow> settled e no amt ?d'" for no amt
    by (rule keep) (rule settled_kept.service_invariant_axioms)
  then have grow: "settled_publications e ?d \<subseteq> settled_publications e ?d'" "settled_requests e ?d \<subseteq> settled_requests e ?d'"
    by (fastforce simp: settled_publications_def settled_requests_def)+
  have "ids_plain ?d'" by (rule keep [OF identifiers.service_invariant_axioms ok(2)])
  moreover have "schema_ok e ?d' \<and> outbox_settled e ?d'"
    by (rule keep [OF outbox.service_invariant_axioms]) (simp add: ok)
  ultimately show ?thesis
    using sys_step_within [OF assms] grow by (auto simp: pipe_ok_def Let_def sent_within_def)
qed

lemma pipe_ok_reachable: "pipeline e a p s t \<Longrightarrow> payload_roundtrip e \<Longrightarrow> pipe_ok e s \<Longrightarrow> pipe_ok e t"
  by (induction rule: pipeline.induct) (auto intro: pipe_ok_step)

section \<open>A run without faults\<close>

text \<open>A broker that is up: it takes every call, has a queue bound for every message and confirms every message.\<close>

definition broker_up :: "amqp \<Rightarrow> bool" where
  "broker_up a \<longleftrightarrow> (\<forall>n. socket_new_ok a n \<and> socket_open_ok a n \<and> rpc_normal a n \<and> publish_sent a n \<and> broker_takes a n \<and>
     (\<forall>ex rk. routable a n ex rk) \<and> wait_frame a n = Some (MethodFrame AMQP_BASIC_ACK_METHOD))"

lemma publish_up:
  assumes "broker_up a"
  shows "\<exists>q'. MqClient_publish a ex rk body q = Some (Inr True, q') \<and> mq_stored q' = mq_stored q @ [(c_str ex, c_str rk, c_str body)]"
  using assms by (cases "mq_conn q") (simp_all add: broker_up_def mq_defs bnd_def gets_def modify_def ret_def)

definition message_publication :: "LocalMessage \<Rightarrow> publication" where
  "message_publication m = (c_str (msg_exchange m), c_str (msg_routingKey m), c_str (msg_payload m))"

text \<open>The node after a round that only moved messages.\<close>

definition relayed :: "node \<Rightarrow> mq \<Rightarrow> message_row list \<Rightarrow> nat \<Rightarrow> node" where
  "relayed s q rows n = s\<lparr>nd_mq := q, nd_world := (nd_world s)\<lparr>w_db := (w_db (nd_world s))\<lparr>t_local_message := rows\<rparr>, w_sql := n\<rparr>\<rparr>"

lemma relay_one_up:
  assumes "healthy_from e (w_sql (nd_world s))" and "broker_up a"
  shows "\<exists>q rows. relay_one e a m s = Some (Inr Sent, relayed s q rows (Suc (w_sql (nd_world s)))) \<and>
    mq_stored q = mq_stored (nd_mq s) @ [message_publication m]"
proof -
  from publish_up [OF assms(2)] obtain q where q: "MqClient_publish a (msg_exchange m) (msg_routingKey m) (msg_payload m) (nd_mq s) = Some (Inr True, q)"
    "mq_stored q = mq_stored (nd_mq s) @ [message_publication m]" by (metis message_publication_def)
  then show ?thesis
    using outbox_dao_runs(1) [OF assms(1) order_refl]
    by (simp add: relay_one_def try_catch_def bnd_def on_mq_def on_db_def ret_def relayed_def sql_markAcked_def) blast
qed

lemma relay_each_up:
  assumes "healthy_from e (w_sql (nd_world s))" and "broker_up a"
  shows "\<exists>q rows n rs. relay_each e a msgs s = Some (Inr rs, relayed s q rows n) \<and> w_sql (nd_world s) \<le> n \<and>
    mq_stored q = mq_stored (nd_mq s) @ map message_publication msgs"
  using assms(1)
proof (induction msgs arbitrary: s)
  case Nil
  show ?case
    by (intro exI [of _ "nd_mq s"] exI [of _ "t_local_message (w_db (nd_world s))"] exI [of _ "w_sql (nd_world s)"] exI [of _ "[]"])
       (simp add: ret_def relayed_def)
next
  case (Cons m msgs)
  from relay_one_up [OF Cons.prems assms(2)] obtain q rows where
    one: "relay_one e a m s = Some (Inr Sent, relayed s q rows (Suc (w_sql (nd_world s))))"
      "mq_stored q = mq_stored (nd_mq s) @ [message_publication m]" by blast
  let ?u = "relayed s q rows (Suc (w_sql (nd_world s)))"
  have "healthy_from e (w_sql (nd_world ?u))" using Cons.prems by (simp add: relayed_def healthy_from_mono)
  from Cons.IH [OF this] obtain q' rows' n rs where
    "relay_each e a msgs ?u = Some (Inr rs, relayed ?u q' rows' n)" "w_sql (nd_world ?u) \<le> n"
    "mq_stored q' = mq_stored (nd_mq ?u) @ map message_publication msgs" by blast
  with one show ?case
    by (intro exI [of _ q'] exI [of _ rows'] exI [of _ n] exI [of _ "Sent # rs"]) (simp add: bnd_def ret_def relayed_def)
qed

lemma relay_tick_up:
  assumes "healthy_from e (w_sql (nd_world s))" and "broker_up a" and "nd_mqClient s" and "\<not> nd_relaying s"
  shows "\<exists>q rows n. relay_tick e a s = Some (Inr (), relayed s q rows n) \<and> w_sql (nd_world s) \<le> n \<and>
    mq_stored q = mq_stored (nd_mq s) @
      map publication_of (take kBatchLimit (due_messages (db_now e (w_sql (nd_world s))) (w_db (nd_world s))))"
proof -
  let ?rows = "take kBatchLimit (due_messages (db_now e (w_sql (nd_world s))) (w_db (nd_world s)))"
  let ?s = "s\<lparr>nd_relaying := True, nd_world := (nd_world s)\<lparr>w_sql := Suc (w_sql (nd_world s))\<rparr>\<rparr>"
  have "healthy_from e (w_sql (nd_world ?s))" using assms(1) by (simp add: healthy_from_mono)
  from relay_each_up [OF this assms(2), of "map message_of_row ?rows"] obtain q rows n rs where
    r: "relay_each e a (map message_of_row ?rows) ?s = Some (Inr rs, relayed ?s q rows n)" "Suc (w_sql (nd_world s)) \<le> n"
      "mq_stored q = mq_stored (nd_mq s) @ map message_publication (map message_of_row ?rows)" by auto
  have same: "message_publication (message_of_row r) = publication_of r" for r
    by (simp add: message_publication_def message_of_row_def publication_of_def)
  have "relay_tick e a s = Some (Inr (), relayed s q rows n)"
    using r(1) assms(1,3,4) healthy_fromD [OF assms(1) order_refl]
    by (simp add: relay_tick_def MessageRelayTask_runOnce_def bnd_def gets_def modify_def ret_def worker_run_def try_catch_def relay_job_def
        MessageRelayTask_relay_def create_client_def on_db_def LocalMessageDao_scanPending_def execSqlSync_auto_def sql_scanPending_def relayed_def)
  with r(2,3) show ?thesis
    by (intro exI [of _ q] exI [of _ rows] exI [of _ n]) (simp add: same comp_def)
qed

text \<open>The delivery of the message of a settled order that the merchant accepts.\<close>

lemma delivery_up:
  assumes "payload_roundtrip e" and "healthy_from e (w_sql (nd_world s))"
    and "tl_payload m = json_styled e (paidPayload (tl_message_id m) order)"
    and "list_all plain (tl_message_id m)" "list_all plain (ord_orderNo order)"
    and "nextId e (nd_world s) = Some (Inr no, w)"
    and "\<forall>x \<in> set (t_notify_record (w_db (nd_world s))). ckey e (tn_notify_no x) \<noteq> ckey e no \<and> ckey e (tn_message_id x) \<noteq> ckey e (tl_message_id m)"
    and "accepted_body (final_reply p (length (nd_requests s))) \<noteq> None"
  shows "\<exists>t x. handleMessage e p (c_str (tl_payload m)) tag s = Some (Inr (), t) \<and>
    nd_requests t = nd_requests s @ replicate (attempts_made p (length (nd_requests s)))
      (notifyRequest e (nd_notifyBaseUrl s) no (ord_orderNo order) (fenToYuanString (ord_totalAmountFen order))) \<and>
    cc_answers (nd_consumer t) = cc_answers (nd_consumer s) @ [(tag, True)] \<and>
    t_notify_record (w_db (nd_world t)) = t_notify_record (w_db (nd_world s)) @ [x] \<and>
    tn_message_id x = tl_message_id m \<and> tn_status x = 1"
proof -
  obtain j where j: "json_parse e (c_str (tl_payload m)) = Some j"
    "message_fields j = Some (Some (tl_message_id m, ord_orderNo order, fenToYuanString (ord_totalAmountFen order)))"
    using payload_fields [OF assms(1,4,5)] assms(3) by metis
  let ?x = "notify_final (final_reply p (length (nd_requests s)))
    (notify_row_for no (ord_orderNo order) (nd_notifyBaseUrl s @ kNotifyPath) (tl_message_id m))"
  from notify_process_run [OF assms(2) j assms(6), of p] assms(7,8) obtain u where
    u: "NotifyConsumer_process e p (c_str (tl_payload m)) s = Some (Inr True, u)"
      "nd_requests u = nd_requests s @ replicate (attempts_made p (length (nd_requests s)))
         (notifyRequest e (nd_notifyBaseUrl s) no (ord_orderNo order) (fenToYuanString (ord_totalAmountFen order)))"
      "t_notify_record (w_db (nd_world u)) = t_notify_record (w_db (nd_world s)) @ [?x]"
    by (auto simp: list_all_iff)
  have "nd_consumer u = nd_consumer s"
    using u(1) by (cases rule: process_cases) (auto simp: left_alone_def newly_recorded_def)
  moreover have "tn_message_id ?x = tl_message_id m" "tn_status ?x = 1"
    using assms(8) by (auto simp: notify_final_def notify_row_for_def)
  ultimately show ?thesis
    using u by (intro exI [of _ "u\<lparr>nd_consumer := (nd_consumer u)\<lparr>cc_answers := cc_answers (nd_consumer u) @ [(tag, True)]\<rparr>\<rparr>"] exI [of _ ?x])
      (simp add: handleMessage_def bnd_def on_consumer_def modify_def)
qed

text \<open>Notifications refer to messages of the outbox.\<close>

definition notified_known :: "env \<Rightarrow> db \<Rightarrow> bool" where
  "notified_known e d \<longleftrightarrow> list_all (\<lambda>x. list_ex (\<lambda>m. sql_eq e (tn_message_id x) (tl_message_id m)) (t_local_message d)) (t_notify_record d)"

definition all_due :: "int \<Rightarrow> db \<Rightarrow> bool" where
  "all_due now d \<longleftrightarrow> list_all (\<lambda>m. tl_status m = 0 \<longrightarrow> tl_next_retry_time m \<le> now) (t_local_message d) \<and>
     length (filter (\<lambda>m. tl_status m = 0) (t_local_message d)) \<le> kBatchLimit"

lemma all_due_relayed:
  assumes "all_due now d" and "m \<in> set (t_local_message d)" and "tl_status m = 0"
  shows "m \<in> set (take kBatchLimit (due_messages now d))"
proof -
  from assms(1) have "due_messages now d = filter (\<lambda>m. tl_status m = 0) (t_local_message d)"
    by (auto simp: due_messages_def all_due_def list_all_iff intro: filter_cong)
  with assms show ?thesis by (simp add: all_due_def)
qed

text \<open>The message that a settled callback leaves.\<close>

lemma settled_message:
  assumes "PaymentService_handleCallback e cb rawBody w = Some (Inr res, w1)" and "order_settled cb res"
    and "schema_ok e (w_db w)" and "ids_plain (w_db w)" and "notified_known e (w_db w)"
  obtains ord m where "order_row_of e (pcr_orderNo cb) (w_db w) = Some ord" "m \<in> set (t_local_message (w_db w1))" "tl_status m = 0"
    "tl_payload m = json_styled e (paidPayload (tl_message_id m) (order_of_row e ord))"
    "list_all plain (tl_message_id m)" "list_all plain (ord_orderNo (order_of_row e ord))"
    "t_notify_record (w_db w1) = t_notify_record (w_db w)"
    "\<forall>x \<in> set (t_notify_record (w_db w1)). ckey e (tn_message_id x) \<noteq> ckey e (tl_message_id m)"
  using assms(1) refl assms(2,3)
proof (cases rule: handleCallback_paid)
  case (1 ord acc pay f m n)
  from preservesD [OF identifiers.callback_keeps assms(1)] assms(4) have plain: "ids_plain (w_db w1)" by (simp add: committed_def)
  from preservesD [OF schema_handleCallback assms(1)] assms(3) have schema: "schema_ok e (w_db w1)" by (simp add: committed_def)
  from 1(14) have rows: "t_local_message (w_db w1) = t_local_message (w_db w) @ [m]"
    "t_notify_record (w_db w1) = t_notify_record (w_db w)" by (simp_all add: paid_db_def)
  from schema rows(1) have "\<forall>r \<in> set (t_local_message (w_db w)). ckey e (tl_message_id r) \<noteq> ckey e (tl_message_id m)"
    by (auto simp: schema_ok_def message_ok_def image_iff)
  then have "\<forall>x \<in> set (t_notify_record (w_db w1)). ckey e (tn_message_id x) \<noteq> ckey e (tl_message_id m)"
    using assms(5) by (auto simp: notified_known_def rows(2) list_all_iff list_ex_iff sql_eq_def)
  moreover have "list_all plain (ord_orderNo (order_of_row e ord))"
    using assms(4) order_row_of_SomeD [OF 1(2)] by (auto simp: ids_plain_def list_all_iff)
  ultimately show thesis
    using 1(2,11) rows plain by (intro that [of ord m]) (simp_all add: paid_message_def ids_plain_def)
qed

section \<open>The request at the mock merchant\<close>

text \<open>
  The header \<open>X-Request-Id\<close> of a notification passes the filter of the mock merchant's route while
  identifiers have 18 digits.
\<close>

lemma notifyNo_valid:
  assumes "clock_18_digits (clock_ns e)" and "idgen_ok (w_gen w)" and "nextId e w = Some (Inr no, w')"
  shows "isValidRequestId no"
proof -
  from assms(3) obtain g k where "IdGenerator_nextId (clock_ns e) (w_gen w, w_clk w) = Some (Inr no, g, k)" by (auto simp: nextId_eq)
  from snowflake_18.op_ok [OF _ this] assms(1,2) obtain v where v: "no = string_of_int v" "10 ^ 17 \<le> v" "v < 10 ^ 18" by auto
  then have "10 ^ 17 \<le> nat v" "nat v < 10 ^ 18" by (simp_all add: le_nat_iff nat_less_iff)
  with v have "length no = 18" "\<forall>c \<in> set no. is_digit c"
    using length_string_of_nat [of "nat v" 18] length_string_of_nat_ge [of 17 "nat v"] string_of_nat_digits
    by (auto simp: string_of_int_def)
  then show ?thesis by (auto simp: isValidRequestId_iff is_hex_def char_in_def is_digit_def)
qed

text \<open>The request as the route gets it: method and path are those of its registration.\<close>

definition merchant_request :: "env \<Rightarrow> http_request \<Rightarrow> http_req" where
  "merchant_request e q = \<lparr>rq_method = Post, rq_header = hr_requestId q, rq_attr = None, rq_batchNo = [],
     rq_body = hr_body q, rq_json = json_parse e (hr_body q)\<rparr>"

lemma mock_merchant_accepts:
  assumes "isValidRequestId no" and "isMember j ''fail'' = Some False" and "memberOr j ''orderNo'' ''unknown'' = Some x"
    and "json_parse e (hr_body (notifyRequest e base no ord amt)) = Some j"
  shows "hr_path (notifyRequest e base no ord amt) = rg_path (registration_of NotifyRoute) \<and> route_method NotifyRoute = Post \<and>
    (\<exists>resp. serve e False NotifyRoute (merchant_request e (notifyRequest e base no ord amt)) w = Some (Inr (Some resp), w) \<and>
      accepted_body \<lparr>rp_ok = True, rp_response = Some (rs_status resp, rs_body resp)\<rparr> = Some (rs_body resp))"
  using assms
  by (simp add: merchant_request_def serve_def doFilter_def MockNotifyController_notify_def notifyOrderNo_def simulateFailure_def or_throw_def
      bnd_def ret_def notifyRequest_def kNotifyPath_def method_lists accepted_body_def newHttpJsonResponse_def)

section \<open>Properties\<close>

text \<open>
  C15: the merchant is told the truth. Over any activity of the whole process (requests on all routes,
  timer ticks, faults), with a broker that delivers only what was published, in any order and as
  often as it likes, every request sent to the merchant names an order that is paid, with its total as
  amount, and for which a payment of that amount is recorded.
\<close>

theorem merchant_told_truth:
  assumes "payload_roundtrip e" and "schema_ok e (w_db (nd_world s))" and "ids_plain (w_db (nd_world s))"
    and "outbox_settled e (w_db (nd_world s))" and "mq_stored (nd_mq s) = []" and "nd_requests s = []"
    and "pipeline e a p s t" and "q \<in> set (nd_requests t)"
  shows "\<exists>r pay. r \<in> set (t_order (w_db (nd_world t))) \<and> to_status r = 1 \<and>
    hr_body q = notifyBody e (to_order_no r) (to_total_amount r) \<and>
    pay \<in> set (t_payment (w_db (nd_world t))) \<and> ckey e (ty_order_no pay) = ckey e (to_order_no r) \<and>
    ty_amount pay = to_total_amount r"
proof -
  have "pipe_ok e s" using assms(2-6) by (simp add: pipe_ok_def sent_within_def)
  from pipe_ok_reachable [OF assms(7,1) this] assms(8) have "q \<in> settled_requests e (w_db (nd_world t))"
    by (auto simp: pipe_ok_def Let_def sent_within_def)
  then obtain r pay where "order_row_of e (to_order_no r) (w_db (nd_world t)) = Some r" "to_status r = 1"
    "hr_body q = notifyBody e (to_order_no r) (to_total_amount r)" "pay \<in> set (t_payment (w_db (nd_world t)))"
    "ckey e (ty_order_no pay) = ckey e (to_order_no r)" "ty_amount pay = to_total_amount r"
    by (auto simp: settled_requests_def settled_def)
  with order_row_of_SomeD [OF this(1)] show ?thesis by blast
qed

text \<open>
  C16: a paid order reaches the merchant. After a callback settled an order, with server and broker up,
  the queues bound and all pending messages due, one tick of the relay stores the message of the order at the broker;
  its delivery, if the merchant accepts one of three requests, sends the order's number and amount
  under a new identifier one to three times, records the notification as successful and acknowledges
  the delivery.
\<close>

theorem paid_order_notified:
  assumes "payload_roundtrip e" and "schema_ok e (w_db (nd_world s))" and "ids_plain (w_db (nd_world s))"
    and "notified_known e (w_db (nd_world s))"
    and "PaymentService_handleCallback e cb rawBody (nd_world s) = Some (Inr res, w1)" and "order_settled cb res"
    and "healthy_from e (w_sql w1)" and "broker_up a" and "nd_mqClient s" and "\<not> nd_relaying s"
    and "all_due (db_now e (w_sql w1)) (w_db w1)"
    and "nextId e w1 = Some (Inr no, w2)"
    and "\<forall>x \<in> set (t_notify_record (w_db w1)). ckey e (tn_notify_no x) \<noteq> ckey e no"
    and "accepted_body (final_reply p (length (nd_requests s))) \<noteq> None"
  shows "\<exists>ord body t1 t2 k x. order_row_of e (pcr_orderNo cb) (w_db (nd_world s)) = Some ord \<and>
    relay_tick e a (s\<lparr>nd_world := w1\<rparr>) = Some (Inr (), t1) \<and>
    list_ex (\<lambda>(ex, rk, b). b = body) (mq_stored (nd_mq t1)) \<and>
    handleMessage e p body tag t1 = Some (Inr (), t2) \<and>
    1 \<le> k \<and> k \<le> 3 \<and>
    nd_requests t2 = nd_requests s @ replicate k
      (notifyRequest e (nd_notifyBaseUrl s) no (to_order_no ord) (fenToYuanString (to_total_amount ord))) \<and>
    cc_answers (nd_consumer t2) = cc_answers (nd_consumer s) @ [(tag, True)] \<and>
    t_notify_record (w_db (nd_world t2)) = t_notify_record (w_db (nd_world s)) @ [x] \<and> tn_status x = 1"
proof -
  from settled_message [OF assms(5,6,2,3,4)] obtain ord m where
    ord: "order_row_of e (pcr_orderNo cb) (w_db (nd_world s)) = Some ord" and m: "m \<in> set (t_local_message (w_db w1))" "tl_status m = 0"
      "tl_payload m = json_styled e (paidPayload (tl_message_id m) (order_of_row e ord))"
      "list_all plain (tl_message_id m)" "list_all plain (ord_orderNo (order_of_row e ord))" and
    notify: "t_notify_record (w_db w1) = t_notify_record (w_db (nd_world s))"
      "\<forall>x \<in> set (t_notify_record (w_db w1)). ckey e (tn_message_id x) \<noteq> ckey e (tl_message_id m)" by metis
  let ?s = "s\<lparr>nd_world := w1\<rparr>" and ?body = "c_str (tl_payload m)" and ?k = "attempts_made p (length (nd_requests s))"
  from relay_tick_up [of e ?s a] assms(7-10) obtain q ms k where
    tick: "relay_tick e a ?s = Some (Inr (), relayed ?s q ms k)" "w_sql w1 \<le> k"
      "mq_stored q = mq_stored (nd_mq s) @ map publication_of (take kBatchLimit (due_messages (db_now e (w_sql w1)) (w_db w1)))" by auto
  let ?t = "relayed ?s q ms k"
  have stored: "list_ex (\<lambda>(ex, rk, b). b = ?body) (mq_stored (nd_mq ?t))"
    using all_due_relayed [OF assms(11) m(1,2)] by (auto simp: relayed_def tick(3) list_ex_iff publication_of_def image_iff)
  have world: "nd_requests ?t = nd_requests s" "nd_notifyBaseUrl ?t = nd_notifyBaseUrl s" "nd_consumer ?t = nd_consumer s"
    "t_notify_record (w_db (nd_world ?t)) = t_notify_record (w_db w1)" "w_sql (nd_world ?t) = k" by (simp_all add: relayed_def)
  from assms(12) have "\<exists>w. nextId e (nd_world ?t) = Some (Inr no, w)" by (auto simp: nextId_eq relayed_def)
  then obtain w3 where ident: "nextId e (nd_world ?t) = Some (Inr no, w3)" ..
  have "healthy_from e (w_sql (nd_world ?t))" using healthy_from_mono [OF assms(7) tick(2)] world(5) by simp
  from delivery_up [OF assms(1) this m(3-5) ident, of p tag] assms(13,14) notify(2) obtain t2 x where
    "handleMessage e p ?body tag ?t = Some (Inr (), t2)"
    "nd_requests t2 = nd_requests s @ replicate ?k
      (notifyRequest e (nd_notifyBaseUrl s) no (to_order_no ord) (fenToYuanString (to_total_amount ord)))"
    "cc_answers (nd_consumer t2) = cc_answers (nd_consumer s) @ [(tag, True)]"
    "t_notify_record (w_db (nd_world t2)) = t_notify_record (w_db (nd_world s)) @ [x]" "tn_status x = 1"
    unfolding world notify(1) by auto
  moreover have "1 \<le> ?k" "?k \<le> 3" by (simp_all add: attempts_made_def)
  ultimately show ?thesis using ord tick(1) stored by blast
qed

section \<open>Witnesses\<close>

text \<open>A printer and a parser for the payload: the three strings, separated by bars.\<close>

definition clean :: "string \<Rightarrow> bool" where
  "clean x \<longleftrightarrow> list_all (\<lambda>c. c \<noteq> CHR ''|'' \<and> c \<noteq> CHR 0x00) x"

fun json_text :: "json option \<Rightarrow> string" where
  "json_text (Some (JString x)) = x"
| "json_text v = []"

definition bar_print :: "json \<Rightarrow> string" where
  "bar_print v = json_text (jget v ''messageId'') @ ''|'' @ json_text (jget v ''orderNo'') @ ''|'' @ json_text (jget v ''amount'')"

definition bar_parse :: "string \<Rightarrow> json option" where
  "bar_parse b = (case getlines CHR ''|'' b of
     [x, y, z] \<Rightarrow> Some (JObject [(''amount'', JString z), (''bizType'', JString kBizTypeOrderPaid), (''messageId'', JString x), (''orderNo'', JString y)])
   | _ \<Rightarrow> None)"

definition pipe_env :: env where
  "pipe_env = demo_env\<lparr>json_styled := bar_print, json_parse := bar_parse\<rparr>"

lemma is_digit_clean: "is_digit c \<Longrightarrow> c \<noteq> CHR ''|'' \<and> c \<noteq> CHR 0x00"
  by (auto simp: is_digit_def)

lemma clean_identifiers: "list_all plain x \<Longrightarrow> clean x" "clean (fenToYuanString fen)"
proof -
  have "clean (string_of_nat n)" for n using is_digit_clean string_of_nat_digits by (auto simp: clean_def list_all_iff)
  then show "clean (fenToYuanString fen)" by (simp add: fenToYuanString_def Let_def clean_def)
qed (use is_digit_clean in \<open>auto simp: clean_def plain_def list_all_iff\<close>)

lemma pipe_env_roundtrip: "payload_roundtrip pipe_env"
  unfolding payload_roundtrip_def
proof (intro allI impI)
  fix mid and order :: Order
  assume "list_all plain mid" "list_all plain (ord_orderNo order)"
  let ?amount = "fenToYuanString (ord_totalAmountFen order)"
  have clean: "clean mid" "clean (ord_orderNo order)" "clean ?amount" and amount: "?amount \<noteq> []"
    using clean_identifiers \<open>list_all plain mid\<close> \<open>list_all plain (ord_orderNo order)\<close> by (simp_all add: fenToYuanString_def Let_def)
  have print: "json_styled pipe_env (paidPayload mid order) = mid @ ''|'' @ ord_orderNo order @ ''|'' @ ?amount"
    by (simp add: pipe_env_def bar_print_def paidPayload_members)
  have "c_str (mid @ ''|'' @ ord_orderNo order @ ''|'' @ ?amount) = mid @ ''|'' @ ord_orderNo order @ ''|'' @ ?amount"
    using clean by (auto simp: c_str_def clean_def list_all_iff intro!: takeWhile_eq_all_conv [THEN iffD2])
  moreover have "getlines CHR ''|'' (mid @ ''|'' @ ord_orderNo order @ ''|'' @ ?amount) = [mid, ord_orderNo order, ?amount]"
  proof -
    have "CHR ''|'' \<notin> set mid" "CHR ''|'' \<notin> set (ord_orderNo order)" "CHR ''|'' \<notin> set ?amount"
      using clean by (auto simp: clean_def list_all_iff)
    then show ?thesis using amount by (simp only: append_Cons append_Nil getlines_field getlines_last not_False_eq_True)
  qed
  ultimately show "\<exists>j. json_parse pipe_env (c_str (json_styled pipe_env (paidPayload mid order))) = Some j \<and>
      (\<forall>k x. jget (paidPayload mid order) k = Some (JString x) \<longrightarrow> jget j k = Some (JString x))"
    unfolding print by (simp add: pipe_env_def bar_parse_def omap_find_def paidPayload_members)
qed

lemmas pipe_defs = pipe_env_def bar_print_def bar_parse_def sys_demo_defs pay_world_def demo_callback_def callback_request_def
  paidPayload_def

definition pipe_node :: node where
  "pipe_node = pay_node\<lparr>nd_mqClient := True\<rparr>"

lemma pipe_node_start:
  "schema_ok pipe_env (w_db (nd_world pipe_node))" "ids_plain (w_db (nd_world pipe_node))" "outbox_settled pipe_env (w_db (nd_world pipe_node))"
  "notified_known pipe_env (w_db (nd_world pipe_node))" "mq_stored (nd_mq pipe_node) = []" "nd_requests pipe_node = []"
  "nd_mqClient pipe_node" "\<not> nd_relaying pipe_node" "nd_world pipe_node = pay_world"
  by (simp_all add: eval_simps pipe_node_def pipe_defs ids_plain_def outbox_settled_def notified_known_def plain_def is_digit_def)

abbreviation pipe_step :: "sys_op \<Rightarrow> http_response option node_act" where
  "pipe_step \<equiv> sys_step pipe_env (demo_amqp True) demo_peers"

text \<open>A callback, a tick of the relay and the delivery of its message, which the merchant accepts at the third request.\<close>

lemma pipe_run:
  "\<exists>r1 r2 s2. run_ops pipe_step [Http CallbackRoute callback_request, RelayTick] pipe_node = Some ([r1, r2], s2) \<and>
     genuine (Delivery ''264905529757929472|1|5.00'' 7) s2"
  "\<exists>r1 r2 r3 t. run_ops pipe_step [Http CallbackRoute callback_request, RelayTick, Delivery ''264905529757929472|1|5.00'' 7] pipe_node =
      Some ([r1, r2, r3], t) \<and> map hr_body (nd_requests t) = [''|1|5.00'', ''|1|5.00'', ''|1|5.00'']"
  by (simp_all add: eval_simps pipe_node_def pipe_defs omap_find_def cong: eval_cong)

theorem merchant_told_truth_witness:
  "\<exists>t q r. pipeline pipe_env (demo_amqp True) demo_peers pipe_node t \<and> q \<in> set (nd_requests t) \<and>
     r \<in> set (t_order (w_db (nd_world t))) \<and> to_status r = 1 \<and> hr_body q = notifyBody pipe_env (to_order_no r) (to_total_amount r)"
proof -
  let ?last = "Delivery ''264905529757929472|1|5.00'' 7"
  obtain rs t where full: "run_ops pipe_step [Http CallbackRoute callback_request, RelayTick, ?last] pipe_node = Some (rs, t)"
    "map hr_body (nd_requests t) = [''|1|5.00'', ''|1|5.00'', ''|1|5.00'']" using pipe_run(2) by (elim exE conjE) (rule that)
  then obtain r1 r2 r3 s1 s2 where run: "pipe_step (Http CallbackRoute callback_request) pipe_node = Some (r1, s1)" "pipe_step RelayTick s1 = Some (r2, s2)"
    "pipe_step ?last s2 = Some (r3, t)" by (auto simp: run_ops_Cons_eq simp del: run_ops.simps(2) sys_step.simps)
  have genuine: "genuine ?last s2"
    using pipe_run(1) run(1,2) by (auto simp: run_ops_Cons_eq simp del: run_ops.simps(2) sys_step.simps genuine.simps)
  have "pipeline pipe_env (demo_amqp True) demo_peers pipe_node s1"
    by (rule pipeline.step [OF pipeline.start _ run(1)]) simp
  then have "pipeline pipe_env (demo_amqp True) demo_peers pipe_node s2"
    by (rule pipeline.step [OF _ _ run(2)]) simp
  then have reach: "pipeline pipe_env (demo_amqp True) demo_peers pipe_node t"
    by (rule pipeline.step [OF _ genuine run(3)])
  from full(2) have "nd_requests t \<noteq> []" by auto
  then obtain q where q: "q \<in> set (nd_requests t)" using list.set_sel(1) by blast
  from merchant_told_truth [OF pipe_env_roundtrip pipe_node_start(1-3,5,6) reach q] reach q show ?thesis by blast
qed

lemma pipe_settled:
  "\<exists>w1 w2. PaymentService_handleCallback pipe_env (demo_callback ''c1'' ''5.00'') ''{}'' pay_world =
       Some (Inr (Result_ok (paidData (demo_callback ''c1'' ''5.00'')) ''c1''), w1) \<and>
     all_due (db_now pipe_env (w_sql w1)) (w_db w1) \<and> nextId pipe_env w1 = Some (Inr ''264905529762123776'', w2) \<and> t_notify_record (w_db w1) = []"
  by (simp add: eval_simps pipe_defs all_due_def cong: eval_cong)

theorem paid_order_notified_witness:
  "\<exists>w1 t1 t2 body. PaymentService_handleCallback pipe_env (demo_callback ''c1'' ''5.00'') ''{}'' pay_world =
       Some (Inr (Result_ok (paidData (demo_callback ''c1'' ''5.00'')) ''c1''), w1) \<and>
     relay_tick pipe_env (demo_amqp True) (pipe_node\<lparr>nd_world := w1\<rparr>) = Some (Inr (), t1) \<and>
     handleMessage pipe_env demo_peers body 7 t1 = Some (Inr (), t2) \<and> nd_requests t2 \<noteq> []"
proof -
  obtain w1 w2 where w1: "PaymentService_handleCallback pipe_env (demo_callback ''c1'' ''5.00'') ''{}'' pay_world =
       Some (Inr (Result_ok (paidData (demo_callback ''c1'' ''5.00'')) ''c1''), w1)"
     "all_due (db_now pipe_env (w_sql w1)) (w_db w1)" "nextId pipe_env w1 = Some (Inr ''264905529762123776'', w2)" "t_notify_record (w_db w1) = []"
    using pipe_settled by blast
  have up: "healthy_from pipe_env (w_sql w1)" "broker_up (demo_amqp True)" "accepted_body (final_reply demo_peers (length (nd_requests pipe_node))) \<noteq> None"
    by (simp_all add: healthy_from_def broker_up_def final_reply_def attempts_made_def accepted_body_def pipe_node_start pipe_env_def notify_demo_defs)
  have settled: "order_settled (demo_callback ''c1'' ''5.00'') (Result_ok (paidData (demo_callback ''c1'' ''5.00'')) ''c1'')"
    by (simp add: order_settled_def demo_callback_def)
  have run: "PaymentService_handleCallback pipe_env (demo_callback ''c1'' ''5.00'') ''{}'' (nd_world pipe_node) =
       Some (Inr (Result_ok (paidData (demo_callback ''c1'' ''5.00'')) ''c1''), w1)" using w1(1) by (simp only: pipe_node_start(9))
  have fresh: "\<forall>x \<in> set (t_notify_record (w_db w1)). ckey pipe_env (tn_notify_no x) \<noteq> ckey pipe_env ''264905529762123776''"
    using w1(4) by simp
  from paid_order_notified [OF pipe_env_roundtrip pipe_node_start(1,2,4) run settled up(1,2) pipe_node_start(7,8) w1(2,3) fresh up(3), of 7]
  obtain t1 t2 body k q where "relay_tick pipe_env (demo_amqp True) (pipe_node\<lparr>nd_world := w1\<rparr>) = Some (Inr (), t1)"
    "handleMessage pipe_env demo_peers body 7 t1 = Some (Inr (), t2)" "1 \<le> k" "nd_requests t2 = nd_requests pipe_node @ replicate k q"
    by (elim exE conjE) (rule that)
  moreover from this(3,4) have "nd_requests t2 \<noteq> []" by auto
  ultimately show ?thesis using w1(1) by (intro exI conjI)
qed

end
