(* ===== verification/Startup.thy ===== *)
theory Startup
  imports NotifyConsumer Logger
begin

text \<open>
  \<^verbatim>\<open>src/main.cc\<close>: the command line, and the order in which the process brings its parts up and down.
  The event loop, the redirection of drogon's own log and the reading of the configuration file are
  drogon's; the configuration is a parameter of the model.
\<close>

fun config_loop :: "string list \<Rightarrow> string \<Rightarrow> string" where
  "config_loop (arg # val # args) path = (if arg = ''--config'' then config_loop args val else config_loop (val # args) path)"
| "config_loop args path = path"

definition parseConfigPath :: "string list \<Rightarrow> string" where
  "parseConfigPath argv = config_loop (tl argv) ''./config/config.json''"

definition kIoThreads :: nat where "kIoThreads = 4"

record process =
  pr_log :: Logger
  pr_pool :: "unit ThreadPool option" \<comment> \<open>the pool, created by its first use\<close>
  pr_configPath :: "string option" \<comment> \<open>the file \<open>loadConfigFile\<close> was called with\<close>
  pr_ioThreads :: nat
  pr_timers :: "string list" \<comment> \<open>tasks whose timer is started\<close>
  pr_node :: node

type_synonym 'a process_act = "(process, exn, 'a) eff"

definition on_log :: "'a log_act \<Rightarrow> 'a process_act" where
  "on_log m s = map_option (\<lambda>(r, l). (r, s\<lparr>pr_log := l\<rparr>)) (m (pr_log s))"

definition on_node :: "'a node_act \<Rightarrow> 'a process_act" where
  "on_node m s = map_option (\<lambda>(r, n). (r, s\<lparr>pr_node := n\<rparr>)) (m (pr_node s))"

text \<open>Everything before \<open>drogon::app().run()\<close>.\<close>

definition main_start :: "env \<Rightarrow> bool \<Rightarrow> string list \<Rightarrow> unit process_act" where
  "main_start e file_ok argv =
     bnd (on_log (Logger_init file_ok Debug)) (\<lambda>_.
     bnd (on_log (Logger_get file_ok)) (\<lambda>log.
     bnd (modify (\<lambda>s. s\<lparr>pr_pool := Some globalThreadPool\<rparr>)) (\<lambda>_.
     bnd (modify (\<lambda>s. s\<lparr>pr_configPath := Some (parseConfigPath argv)\<rparr>)) (\<lambda>_.
     bnd (modify (\<lambda>s. s\<lparr>pr_ioThreads := kIoThreads\<rparr>)) (\<lambda>_.
     bnd (modify (\<lambda>s. s\<lparr>pr_timers := pr_timers s @ [''MessageRelayTask'']\<rparr>)) (\<lambda>_.
     bnd (on_node (NotifyConsumer_start e)) (\<lambda>_.
     modify (\<lambda>s. s\<lparr>pr_timers := pr_timers s @ [''ReconcileTask'']\<rparr>))))))))"

text \<open>Everything after it; the pool, a static object, is destroyed when \<open>main\<close> has returned.\<close>

definition main_stop :: "unit process_act" where
  "main_stop = on_log Logger_shutdown"

definition static_destruction :: "unit process_act" where
  "static_destruction = modify (\<lambda>s. s\<lparr>pr_pool := map_option ThreadPool_stop (pr_pool s)\<rparr>)"

declare on_log_def [eval_simps] on_node_def [eval_simps] main_start_def [eval_simps] main_stop_def [eval_simps]
  static_destruction_def [eval_simps] parseConfigPath_def [eval_simps] kIoThreads_def [eval_simps]

section \<open>Lemmas\<close>

text \<open>The last complete option wins; without one the default stands.\<close>

lemma parseConfigPath_single [simp]: "parseConfigPath [prog, ''--config'', path] = path"
  by (simp add: parseConfigPath_def)

lemma parseConfigPath_default: "''--config'' \<notin> set (tl argv) \<Longrightarrow> parseConfigPath argv = ''./config/config.json''"
proof -
  have "''--config'' \<notin> set args \<Longrightarrow> config_loop args path = path" for args path
    by (induction args path rule: config_loop.induct) auto
  then show "''--config'' \<notin> set (tl argv) \<Longrightarrow> ?thesis" by (simp add: parseConfigPath_def)
qed

text \<open>
  A pool that still has work when the process stops runs it after the logger is gone: a job that
  asks for the logger of its request then dereferences the null pointer.
\<close>

lemma job_logs_after_main:
  assumes "lg_initFlag (pr_log s)" and "main_stop s = Some (r, t)" and "static_destruction t = Some (r', u)" and "rid \<noteq> ''''"
  shows "on_log (Logger_withRequestId file_ok rid) u = None"
  using assms
  by (auto simp: main_stop_def static_destruction_def on_log_def Logger_shutdown_def modify_def Logger_withRequestId_def
      Logger_ensureInitialized_def deref_logger_def bnd_def gets_def ret_def undefined_behaviour_def)

end
