(* ===== verification/StepPrograms.thy ===== *)
theory StepPrograms
  imports OrderService PaymentService
begin

text \<open>
  The transactions of \<^verbatim>\<open>OrderService::createOrder\<close> and \<^verbatim>\<open>PaymentService::handleCallback\<close> as sequences of single
  steps: one SQL statement, one identifier or one reading of the clock each. Between two steps other
  transactions may run, which the theory \<open>Interleaving\<close> uses. Run without interruption, the steps are the
  services (\<open>run_createOrder_prog\<close>, \<open>run_handleCallback_prog\<close>).
\<close>

section \<open>Programs\<close>

text \<open>
  \<open>Leave\<close> ends the scope of the guard without a commit, with a result or an exception; \<open>Commit\<close> commits and
  returns. A SELECT gives the tables it reads to the rest of the program; any other statement gives the
  number of affected rows.
\<close>

datatype 'a prog =
    Leave "exn + 'a"
  | Stuck
  | Select "db \<Rightarrow> 'a prog"
  | Exec "nat stmt" "nat \<Rightarrow> 'a prog"
  | NextId "string \<Rightarrow> 'a prog"
  | Now "int \<Rightarrow> 'a prog"
  | Commit 'a

definition leave_with :: "exn + 'a \<Rightarrow> 'a act" where
  "leave_with r = (case r of Inl x \<Rightarrow> throw x | Inr v \<Rightarrow> ret v)"

primrec run_prog :: "env \<Rightarrow> 'a prog \<Rightarrow> 'a act" where
  "run_prog e (Leave r) = leave_with r"
| "run_prog e Stuck = undefined_behaviour"
| "run_prog e (Select k) = bnd (execSqlSync_tx e (query (\<lambda>d. run_prog e (k d)))) (\<lambda>m. m)"
| "run_prog e (Exec st k) = bnd (execSqlSync_tx e st) (\<lambda>n. run_prog e (k n))"
| "run_prog e (NextId k) = bnd (nextId e) (\<lambda>s. run_prog e (k s))"
| "run_prog e (Now k) = bnd (now_ns e) (\<lambda>t. run_prog e (k t))"
| "run_prog e (Commit v) = bnd (TransactionGuard_commit e) (\<lambda>_. ret v)"

text \<open>A statement whose number of rows the caller ignores.\<close>

definition uncounted :: "unit stmt \<Rightarrow> nat stmt" where
  "uncounted st n d = map_option (\<lambda>(d', _). (d', 1)) (st n d)"

text \<open>A SELECT and what its result is used for.\<close>

definition select :: "(db \<Rightarrow> 'b) \<Rightarrow> ('b \<Rightarrow> 'a prog) \<Rightarrow> 'a prog" where
  "select f F = Select (\<lambda>d. F (f d))"

definition refuse :: "ErrCode \<Rightarrow> string \<Rightarrow> 'a prog" where
  "refuse c m = Leave (Inl (BizException c m))"

definition or_refuse :: "'b option \<Rightarrow> ('b \<Rightarrow> 'a prog) \<Rightarrow> 'a prog" where
  "or_refuse v k = (case v of None \<Rightarrow> Leave (Inl StdException) | Some x \<Rightarrow> k x)"

text \<open>The parameter \<open>reply\<close> of the programs turns the result of the service into the answer of the caller.\<close>

section \<open>createOrder\<close>

definition order_mark :: "env \<Rightarrow> (CreateOrderOutcome \<Rightarrow> 'a) \<Rightarrow> CreateOrderReq \<Rightarrow> Order \<Rightarrow> 'a prog" where
  "order_mark e reply req order =
     Exec (uncounted (sql_markSuccess e (cor_requestId req) (orderSnapshot e order (cor_requestId req)))) (\<lambda>_.
       Commit (reply (executed (Result_ok order (cor_requestId req)))))"

definition order_insert :: "env \<Rightarrow> (CreateOrderOutcome \<Rightarrow> 'a) \<Rightarrow> CreateOrderReq \<Rightarrow> Order \<Rightarrow> 'a prog" where
  "order_insert e reply req order = Exec (uncounted (sql_insertOrder e order)) (\<lambda>_. order_mark e reply req order)"

definition order_number :: "env \<Rightarrow> (CreateOrderOutcome \<Rightarrow> 'a) \<Rightarrow> CreateOrderReq \<Rightarrow> Product \<Rightarrow> 'a prog" where
  "order_number e reply req p =
     NextId (\<lambda>orderNo. Now (\<lambda>t. order_insert e reply req (orderOf req p orderNo (dbTimeAfter t kOrderExpireMinutes))))"

definition order_deduct :: "env \<Rightarrow> (CreateOrderOutcome \<Rightarrow> 'a) \<Rightarrow> CreateOrderReq \<Rightarrow> Product \<Rightarrow> 'a prog" where
  "order_deduct e reply req p =
     Exec (sql_deductStock (cor_productId req) (cor_quantity req)) (\<lambda>affected.
       if affected = 0 then refuse kStockNotEnough msg_stock_short else order_number e reply req p)"

definition order_product :: "env \<Rightarrow> (CreateOrderOutcome \<Rightarrow> 'a) \<Rightarrow> CreateOrderReq \<Rightarrow> 'a prog" where
  "order_product e reply req =
     select (\<lambda>d. map_option product_of_row (product_row_of (cor_productId req) d)) (\<lambda>found. case found of
         None \<Rightarrow> refuse kProductNotFound msg_product_missing
       | Some p \<Rightarrow>
           if \<not> Product_onSale p then refuse kProductNotFound msg_product_off_sale else order_deduct e reply req p)"

definition order_repeated :: "env \<Rightarrow> (CreateOrderOutcome \<Rightarrow> 'a) \<Rightarrow> CreateOrderReq \<Rightarrow> 'a prog" where
  "order_repeated e reply req =
     select (idem_row_of e (cor_requestId req)) (\<lambda>found. Leave (Inr (reply (case found of
         None \<Rightarrow> executed (Result_fail kDuplicateRequest (toMessage kDuplicateRequest) (cor_requestId req))
       | Some row \<Rightarrow>
           if ti_status row = 1 then cached (case ti_response_body row of None \<Rightarrow> [] | Some b \<Rightarrow> b)
           else executed (Result_fail kDuplicateRequest (toMessage kDuplicateRequest) (cor_requestId req))))))"

definition idemRecord :: "CreateOrderReq \<Rightarrow> int \<Rightarrow> Idempotent" where
  "idemRecord req t =
     \<lparr>idm_requestId = cor_requestId req, idm_userId = cor_userId req, idm_apiPath = kCreateOrderApiPath,
      idm_requestHash = cor_requestHash req, idm_expireTime = dbTimeAfter t kIdempotentExpireMinutes\<rparr>"

definition order_acquire :: "env \<Rightarrow> (CreateOrderOutcome \<Rightarrow> 'a) \<Rightarrow> CreateOrderReq \<Rightarrow> Idempotent \<Rightarrow> 'a prog" where
  "order_acquire e reply req rec =
     Exec (sql_acquire e rec) (\<lambda>affected. if affected = 1 then order_product e reply req else order_repeated e reply req)"

definition createOrder_prog :: "env \<Rightarrow> (CreateOrderOutcome \<Rightarrow> 'a) \<Rightarrow> CreateOrderReq \<Rightarrow> 'a prog" where
  "createOrder_prog e reply req = Now (\<lambda>t. order_acquire e reply req (idemRecord req t))"

section \<open>handleCallback\<close>

definition pay_store :: "env \<Rightarrow> (json Result \<Rightarrow> 'a) \<Rightarrow> PaymentCallbackReq \<Rightarrow> LocalMessage \<Rightarrow> 'a prog" where
  "pay_store e reply req message =
     Exec (uncounted (sql_insertMessage e message)) (\<lambda>_. Commit (reply (Result_ok (paidData req) (pcr_requestId req))))"

definition pay_message_id :: "env \<Rightarrow> (json Result \<Rightarrow> 'a) \<Rightarrow> PaymentCallbackReq \<Rightarrow> Order \<Rightarrow> json \<Rightarrow> 'a prog" where
  "pay_message_id e reply req order rabbitCfg =
     NextId (\<lambda>messageId.
       or_refuse (memberOr rabbitCfg ''exchange'' ''trade.exchange'') (\<lambda>exchange.
         or_refuse (memberOr rabbitCfg ''routing_key_notify'' ''order.paid'') (\<lambda>routingKey.
           pay_store e reply req (messageOf e req order messageId exchange routingKey))))"

definition pay_message :: "env \<Rightarrow> (json Result \<Rightarrow> 'a) \<Rightarrow> PaymentCallbackReq \<Rightarrow> Order \<Rightarrow> 'a prog" where
  "pay_message e reply req order =
     or_refuse (jget (custom_config e) ''rabbitmq'') (\<lambda>rabbitCfg. pay_message_id e reply req order rabbitCfg)"

definition pay_flow :: "env \<Rightarrow> (json Result \<Rightarrow> 'a) \<Rightarrow> PaymentCallbackReq \<Rightarrow> Order \<Rightarrow> AccountFlow \<Rightarrow> 'a prog" where
  "pay_flow e reply req order flow = Exec (uncounted (sql_insertFlow e flow)) (\<lambda>_. pay_message e reply req order)"

definition pay_after :: "env \<Rightarrow> (json Result \<Rightarrow> 'a) \<Rightarrow> PaymentCallbackReq \<Rightarrow> Order \<Rightarrow> int64 \<Rightarrow> string \<Rightarrow> 'a prog" where
  "pay_after e reply req order amountFen accountNo =
     select (\<lambda>d. map_option account_of_row (account_row_of (ord_userId order) d)) (\<lambda>found. case found of
         None \<Rightarrow> Stuck
       | Some a \<Rightarrow> pay_flow e reply req order (flowOf req accountNo amountFen (acc_balanceFen a)))"

definition pay_deduct :: "env \<Rightarrow> (json Result \<Rightarrow> 'a) \<Rightarrow> PaymentCallbackReq \<Rightarrow> Order \<Rightarrow> int64 \<Rightarrow> string \<Rightarrow> 'a prog" where
  "pay_deduct e reply req order amountFen accountNo =
     Exec (sql_deduct e accountNo amountFen) (\<lambda>affected.
       if affected = 0 then refuse kBalanceNotEnough msg_balance_short else pay_after e reply req order amountFen accountNo)"

definition pay_account :: "env \<Rightarrow> (json Result \<Rightarrow> 'a) \<Rightarrow> PaymentCallbackReq \<Rightarrow> Order \<Rightarrow> int64 \<Rightarrow> 'a prog" where
  "pay_account e reply req order amountFen =
     select (\<lambda>d. map_option account_of_row (account_row_of (ord_userId order) d)) (\<lambda>found. case found of
         None \<Rightarrow> refuse kAccountNotFound msg_account_missing
       | Some a \<Rightarrow> pay_deduct e reply req order amountFen (acc_accountNo a))"

definition pay_beaten :: "env \<Rightarrow> (json Result \<Rightarrow> 'a) \<Rightarrow> PaymentCallbackReq \<Rightarrow> 'a prog" where
  "pay_beaten e reply req =
     select (\<lambda>d. map_option (order_of_row e) (order_row_of e (pcr_orderNo req) d)) (\<lambda>found. case found of
         None \<Rightarrow> refuse kOrderStatusInvalid msg_order_status
       | Some c \<Rightarrow>
           if ord_status c = OrderStatus_kPaid then Leave (Inr (reply (Result_ok JNull (pcr_requestId req))))
           else refuse kOrderStatusInvalid msg_order_status)"

definition pay_settle :: "env \<Rightarrow> (json Result \<Rightarrow> 'a) \<Rightarrow> PaymentCallbackReq \<Rightarrow> Order \<Rightarrow> int64 \<Rightarrow> 'a prog" where
  "pay_settle e reply req order amountFen =
     Exec (sql_markPaid e (pcr_orderNo req)) (\<lambda>affected.
       if affected = 0 then pay_beaten e reply req else pay_account e reply req order amountFen)"

definition pay_repeated :: "env \<Rightarrow> (json Result \<Rightarrow> 'a) \<Rightarrow> PaymentCallbackReq \<Rightarrow> 'a prog" where
  "pay_repeated e reply req =
     select (\<lambda>d. map_option payment_of_row (payment_row_of e (pcr_channel req) (pcr_channelTradeNo req) d)) (\<lambda>found. case found of
         None \<Rightarrow> refuse kChannelTradeConflict msg_trade_conflict
       | Some p \<Rightarrow>
           if pay_orderNo p = pcr_orderNo req then Leave (Inr (reply (Result_ok JNull (pcr_requestId req))))
           else refuse kChannelTradeConflict msg_trade_conflict)"

definition pay_record :: "env \<Rightarrow> (json Result \<Rightarrow> 'a) \<Rightarrow> PaymentCallbackReq \<Rightarrow> Order \<Rightarrow> Payment \<Rightarrow> 'a prog" where
  "pay_record e reply req order payment =
     Exec (sql_insertPayment e payment) (\<lambda>affected.
       if affected = 1 then pay_settle e reply req order (pay_amountFen payment) else pay_repeated e reply req)"

definition pay_number :: "env \<Rightarrow> (json Result \<Rightarrow> 'a) \<Rightarrow> PaymentCallbackReq \<Rightarrow> string \<Rightarrow> Order \<Rightarrow> int64 \<Rightarrow> 'a prog" where
  "pay_number e reply req rawBody order amountFen =
     NextId (\<lambda>paymentNo.
       or_refuse (epochToBeijing (pcr_timestamp req)) (\<lambda>callbackTime.
         pay_record e reply req order (paymentOf req rawBody paymentNo amountFen callbackTime)))"

definition handleCallback_prog :: "env \<Rightarrow> (json Result \<Rightarrow> 'a) \<Rightarrow> PaymentCallbackReq \<Rightarrow> string \<Rightarrow> 'a prog" where
  "handleCallback_prog e reply req rawBody =
     select (\<lambda>d. map_option (order_of_row e) (order_row_of e (pcr_orderNo req) d)) (\<lambda>found. case found of
         None \<Rightarrow> refuse kOrderNotFound msg_order_missing
       | Some order \<Rightarrow>
           (case yuanStringToFen (pcr_amount req) of
              None \<Rightarrow> refuse kAmountMismatch msg_amount_mismatch
            | Some amountFen \<Rightarrow>
                if amountFen \<noteq> ord_totalAmountFen order then refuse kAmountMismatch msg_amount_mismatch
                else pay_number e reply req rawBody order amountFen))"

section \<open>Agreement with the services\<close>

named_theorems prog_simps \<open>running a program step by step\<close>

lemma run_leave [prog_simps]:
  "leave_with (Inl x) = throw x" "leave_with (Inr v) = ret v"
  by (simp_all add: leave_with_def)

lemma run_refuse [prog_simps]: "run_prog e (refuse c m) = throw (BizException c m)"
  by (simp add: refuse_def prog_simps)

lemma run_or_refuse [prog_simps]: "run_prog e (or_refuse v k) = bnd (or_throw StdException v) (\<lambda>x. run_prog e (k x))"
  by (cases v) (simp_all add: or_refuse_def or_throw_def prog_simps)

lemma run_select [prog_simps]: "run_prog e (select f F) = bnd (execSqlSync_tx e (query f)) (\<lambda>x. run_prog e (F x))"
  by (rule ext) (simp add: select_def bnd_def execSqlSync_tx_def query_def)

lemma uncounted_bnd [prog_simps]: "bnd (execSqlSync_tx e (uncounted st)) (\<lambda>_. m) = bnd (execSqlSync_tx e st) (\<lambda>_. m)"
  by (rule ext) (simp add: bnd_def execSqlSync_tx_def uncounted_def split: option.split)

lemma run_prog_case [prog_simps]:
  "run_prog e (case v of None \<Rightarrow> p | Some x \<Rightarrow> q x) = (case v of None \<Rightarrow> run_prog e p | Some x \<Rightarrow> run_prog e (q x))"
  "run_prog e (if b then p else p') = (if b then run_prog e p else run_prog e p')"
  by (simp_all split: option.split)

lemma run_order_number:
  "run_prog e (order_number e (\<lambda>x. x) req p) = bnd (nextId e) (\<lambda>orderNo.
     bnd (now_ns e) (\<lambda>t.
       bnd (OrderDao_insert e (orderOf req p orderNo (dbTimeAfter t kOrderExpireMinutes))) (\<lambda>_.
         bnd (IdempotentDao_markSuccess e (cor_requestId req)
                (orderSnapshot e (orderOf req p orderNo (dbTimeAfter t kOrderExpireMinutes)) (cor_requestId req))) (\<lambda>_.
           bnd (TransactionGuard_commit e) (\<lambda>_.
             ret (executed (Result_ok (orderOf req p orderNo (dbTimeAfter t kOrderExpireMinutes)) (cor_requestId req))))))))"
  by (simp add: order_number_def order_insert_def order_mark_def prog_simps OrderDao_insert_def IdempotentDao_markSuccess_def)

lemma run_order_product: "run_prog e (order_product e (\<lambda>x. x) req) = createOrder_execute e req"
  by (simp add: order_product_def prog_simps order_deduct_def run_order_number createOrder_execute_def ProductDao_getById_def ProductDao_deductStock_def
      cong: option.case_cong if_cong)

lemma run_order_acquire:
  "run_prog e (order_acquire e (\<lambda>x. x) req rec) =
     bnd (IdempotentDao_tryAcquire e rec) (\<lambda>outcome.
       if io_kind outcome = kCachedSuccess then ret (cached (io_cachedResponseBody outcome))
       else if io_kind outcome = kProcessing
       then ret (executed (Result_fail kDuplicateRequest (toMessage kDuplicateRequest) (cor_requestId req)))
       else createOrder_execute e req)"
  if "idm_requestId rec = cor_requestId req"
proof -
  have "run_prog e (order_repeated e (\<lambda>x. x) req) = bnd (execSqlSync_tx e (query (idem_row_of e (idm_requestId rec)))) (\<lambda>found.
      ret (case found of
         None \<Rightarrow> executed (Result_fail kDuplicateRequest (toMessage kDuplicateRequest) (cor_requestId req))
       | Some row \<Rightarrow>
           if ti_status row = 1 then cached (case ti_response_body row of None \<Rightarrow> [] | Some b \<Rightarrow> b)
           else executed (Result_fail kDuplicateRequest (toMessage kDuplicateRequest) (cor_requestId req))))"
    by (simp add: order_repeated_def that prog_simps)
  then show ?thesis
    by (simp add: order_acquire_def IdempotentDao_tryAcquire_def bnd_assoc prog_simps run_order_product cong: if_cong)
      (rule ext, auto simp: bnd_def ret_def split: option.splits sum.splits prod.splits if_splits)
qed

lemma run_createOrder_prog: "run_prog e (createOrder_prog e (\<lambda>x. x) req) = createOrder_scope e req"
  by (simp add: createOrder_prog_def createOrder_scope_def buildIdempotentRecord_def bnd_assoc run_order_acquire idemRecord_def)

lemma run_pay_message:
  "run_prog e (pay_message e (\<lambda>x. x) req order) = bnd (handleCallback_message e req order) (\<lambda>_.
     bnd (TransactionGuard_commit e) (\<lambda>_. ret (Result_ok (paidData req) (pcr_requestId req))))"
  by (simp add: pay_message_def pay_message_id_def handleCallback_message_def pay_store_def prog_simps bnd_assoc LocalMessageDao_insert_def)

lemma run_pay_account:
  "run_prog e (pay_account e (\<lambda>x. x) req order amountFen) = bnd (handleCallback_debit e req order amountFen) (\<lambda>_.
     run_prog e (pay_message e (\<lambda>x. x) req order))"
proof -
  have after: "run_prog e (pay_after e (\<lambda>x. x) req order amountFen no) =
    bnd (bnd (AccountDao_getByUserId e (ord_userId order)) (\<lambda>after.
       case after of None \<Rightarrow> undefined_behaviour
       | Some a \<Rightarrow> AccountDao_insertFlow e (flowOf req no amountFen (acc_balanceFen a))))
      (\<lambda>_. run_prog e (pay_message e (\<lambda>x. x) req order))" for no
    by (rule ext) (simp add: pay_after_def bnd_def prog_simps pay_flow_def AccountDao_getByUserId_def AccountDao_insertFlow_def
        undefined_behaviour_def execSqlSync_tx_def query_def uncounted_def split: option.splits)
  show ?thesis
    by (rule ext) (simp add: pay_account_def bnd_def prog_simps pay_deduct_def after handleCallback_debit_def AccountDao_getByUserId_def AccountDao_deduct_def
        throw_def execSqlSync_tx_def query_def split: option.splits sum.splits)
qed

lemma run_pay_settle: "run_prog e (pay_settle e (\<lambda>x. x) req order amountFen) = handleCallback_settle e req order amountFen"
  by (simp add: pay_settle_def handleCallback_settle_def prog_simps OrderDao_markPaid_def pay_beaten_def OrderDao_getByOrderNo_def
      run_pay_account run_pay_message cong: option.case_cong if_cong)

lemma run_handleCallback_prog: "run_prog e (handleCallback_prog e (\<lambda>x. x) req rawBody) = handleCallback_scope e req rawBody"
proof -
  have repeated: "run_prog e (pay_repeated e (\<lambda>x. x) req) =
    bnd (PaymentDao_getByChannelTradeNo e (pcr_channel req) (pcr_channelTradeNo req)) (\<lambda>existing.
      case existing of
        None \<Rightarrow> throw (BizException kChannelTradeConflict msg_trade_conflict)
      | Some p \<Rightarrow>
          if pay_orderNo p = pcr_orderNo req then ret (Result_ok JNull (pcr_requestId req))
          else throw (BizException kChannelTradeConflict msg_trade_conflict))"
    by (simp add: pay_repeated_def prog_simps PaymentDao_getByChannelTradeNo_def cong: option.case_cong if_cong)
  have dup: "(if (if b then kPaymentInserted else kPaymentDuplicate) = kPaymentDuplicate then x else y) = (if b then y else x)"
    for b and x y :: "json Result act" by simp
  have "run_prog e (pay_number e (\<lambda>x. x) req rawBody order amountFen) =
    bnd (nextId e) (\<lambda>paymentNo.
      bnd (or_throw StdException (epochToBeijing (pcr_timestamp req))) (\<lambda>callbackTime.
        bnd (PaymentDao_insertWithDedup e (paymentOf req rawBody paymentNo amountFen callbackTime)) (\<lambda>dedup.
          if dedup = kPaymentDuplicate then run_prog e (pay_repeated e (\<lambda>x. x) req)
          else handleCallback_settle e req order amountFen)))" for order amountFen
    by (simp add: pay_number_def pay_record_def prog_simps PaymentDao_insertWithDedup_def bnd_assoc run_pay_settle paymentOf_def dup cong: if_cong)
  then show ?thesis
    by (simp add: handleCallback_prog_def handleCallback_scope_def prog_simps OrderDao_getByOrderNo_def repeated cong: option.case_cong if_cong)
qed

end
