(* ===== verification/Interleaving.thy ===== *)
theory Interleaving
  imports System StepPrograms
begin

text \<open>
  The order and payment transactions of several requests, running at the same time on one SQL server.
  The tables are a history of committed versions. Every open transaction has the rest of its program
  (\<open>StepPrograms\<close>), the statements with which it has changed rows and the locks on these rows.

  \<^item> INSERT and UPDATE read the latest committed rows and the transaction's own changes; they take the locks of
    the rows they write, and wait (the step is not possible) while another transaction holds one. The locks
    are kept until the transaction ends. A lock stands for a key of a row: two rows with the same unique key
    have a lock in common.
  \<^item> The changes of an open transaction are kept as the statements that made them (\<open>tx_log\<close>, with the number of
    the statement, which fixes its \<^verbatim>\<open>NOW()\<close>) and replayed on the latest committed tables. As their rows are
    locked, every replay gives the same rows.
  \<^item> SELECT is a consistent read: it sees one committed version, and the rows the transaction has written
    itself. Which version is part of the event \<open>Step i v\<close>. The latest version at every SELECT is READ COMMITTED,
    the same version throughout is REPEATABLE READ, so the schedules of both are among those of the model.
  \<^item> Any statement may fail (\<open>Fail i\<close>): a lost connection, a timeout of a lock, a deadlock. The transaction
    then ends without its changes, as it does when the guard is left without a commit.
  \<^item> The statements of the relay, the consumer and the operator commit one by one, the rows of a
    reconciliation together (\<open>background\<close>); they write columns and tables that orders and payments do
    not use.
\<close>

section \<open>Row locks\<close>

datatype lock =
    ProductLock int
  | OrderLock string
  | OrderRequestLock string
  | IdempotentLock string
  | AccountLock string
  | FlowLock string int
  | PaymentLock string
  | TradeLock string string
  | MessageLock string

definition product_locks :: "product_row \<Rightarrow> lock list" where
  "product_locks r = [ProductLock (tp_id r)]"

definition order_locks :: "env \<Rightarrow> order_row \<Rightarrow> lock list" where
  "order_locks e r = [OrderLock (ckey e (to_order_no r)), OrderRequestLock (ckey e (to_request_id r))]"

definition idempotent_locks :: "env \<Rightarrow> idempotent_row \<Rightarrow> lock list" where
  "idempotent_locks e r = [IdempotentLock (ckey e (ti_request_id r))]"

definition account_locks :: "env \<Rightarrow> account_row \<Rightarrow> lock list" where
  "account_locks e r = [AccountLock (ckey e (ta_account_no r))]"

definition flow_locks :: "env \<Rightarrow> flow_row \<Rightarrow> lock list" where
  "flow_locks e r = [FlowLock (ckey e (tf_request_id r)) (tf_biz_type r)]"

definition payment_locks :: "env \<Rightarrow> payment_row \<Rightarrow> lock list" where
  "payment_locks e r = [PaymentLock (ckey e (ty_payment_no r)), TradeLock (ckey e (ty_channel r)) (ckey e (ty_channel_trade_no r))]"

definition message_locks :: "env \<Rightarrow> message_row \<Rightarrow> lock list" where
  "message_locks e r = [MessageLock (ckey e (tl_message_id r))]"

lemmas row_locks = product_locks_def order_locks_def idempotent_locks_def account_locks_def flow_locks_def
  payment_locks_def message_locks_def

text \<open>The rows a statement inserted or changed are those in which the tables before and after it differ.\<close>

definition touched :: "('r \<Rightarrow> lock list) \<Rightarrow> 'r list \<Rightarrow> 'r list \<Rightarrow> lock list" where
  "touched locks rows rows' =
     concat (map locks (filter (\<lambda>r. r \<notin> set rows) rows' @ filter (\<lambda>r. r \<notin> set rows') rows))"

definition written_locks :: "env \<Rightarrow> db \<Rightarrow> db \<Rightarrow> lock list" where
  "written_locks e d d' =
     touched product_locks (t_product d) (t_product d') @ touched (order_locks e) (t_order d) (t_order d') @
     touched (idempotent_locks e) (t_idempotent d) (t_idempotent d') @ touched (account_locks e) (t_account d) (t_account d') @
     touched (flow_locks e) (t_account_flow d) (t_account_flow d') @ touched (payment_locks e) (t_payment d) (t_payment d') @
     touched (message_locks e) (t_local_message d) (t_local_message d')"

section \<open>Transactions of the server\<close>

datatype answer = OrderAnswer CreateOrderOutcome | PayAnswer "json Result"

type_synonym redo = "(nat \<times> nat stmt) list"

fun replay :: "redo \<Rightarrow> db \<Rightarrow> db" where
  "replay [] d = d"
| "replay ((n, st) # log) d = replay log (case st n d of None \<Rightarrow> d | Some (d', _) \<Rightarrow> d')"

record tx =
  tx_prog :: "answer prog" \<comment> \<open>what is left to do\<close>
  tx_log :: redo \<comment> \<open>the statements that changed rows\<close>
  tx_locks :: "lock list" \<comment> \<open>the rows they changed\<close>

record server =
  sv_history :: "db list" \<comment> \<open>the committed tables, the latest version first\<close>
  sv_txs :: "tx list"
  sv_gen :: idgen
  sv_clk :: nat
  sv_sql :: nat

abbreviation tables :: "server \<Rightarrow> db" where
  "tables s \<equiv> hd (sv_history s)"

definition ended :: "exn + answer \<Rightarrow> tx" where
  "ended r = \<lparr>tx_prog = Leave r, tx_log = [], tx_locks = []\<rparr>"

definition overlay :: "('r \<Rightarrow> lock list) \<Rightarrow> lock list \<Rightarrow> 'r list \<Rightarrow> 'r list \<Rightarrow> 'r list" where
  "overlay locks held old new =
     filter (\<lambda>r. \<not> list_ex (\<lambda>l. l \<in> set held) (locks r)) old @ filter (\<lambda>r. list_ex (\<lambda>l. l \<in> set held) (locks r)) new"

definition read_view :: "env \<Rightarrow> lock list \<Rightarrow> db \<Rightarrow> db \<Rightarrow> db" where
  "read_view e held old new =
     old\<lparr>t_product := overlay product_locks held (t_product old) (t_product new),
         t_order := overlay (order_locks e) held (t_order old) (t_order new),
         t_idempotent := overlay (idempotent_locks e) held (t_idempotent old) (t_idempotent new),
         t_account := overlay (account_locks e) held (t_account old) (t_account new),
         t_account_flow := overlay (flow_locks e) held (t_account_flow old) (t_account_flow new),
         t_payment := overlay (payment_locks e) held (t_payment old) (t_payment new),
         t_local_message := overlay (message_locks e) held (t_local_message old) (t_local_message new)\<rparr>"

definition held_elsewhere :: "nat \<Rightarrow> lock list \<Rightarrow> tx list \<Rightarrow> bool" where
  "held_elsewhere i ls txs \<longleftrightarrow>
     list_ex (\<lambda>j. j \<noteq> i \<and> list_ex (\<lambda>l. l \<in> set (tx_locks (txs ! j))) ls) [0..<length txs]"

definition put_tx :: "nat \<Rightarrow> tx \<Rightarrow> server \<Rightarrow> server" where
  "put_tx i t s = s\<lparr>sv_txs := (sv_txs s)[i := t]\<rparr>"

definition next_sql :: "server \<Rightarrow> server" where
  "next_sql s = s\<lparr>sv_sql := Suc (sv_sql s)\<rparr>"

definition exec_step :: "env \<Rightarrow> nat \<Rightarrow> tx \<Rightarrow> nat stmt \<Rightarrow> (nat \<Rightarrow> answer prog) \<Rightarrow> server \<Rightarrow> server option" where
  "exec_step e i t st k s =
     (let v = replay (tx_log t) (tables s) in
      case st (sv_sql s) v of
        None \<Rightarrow> Some (next_sql (put_tx i (ended (Inl DrogonDbException)) s))
      | Some (v', affected) \<Rightarrow>
          let ls = written_locks e v v' in
          if held_elsewhere i ls (sv_txs s) then None
          else Some (next_sql (put_tx i
            \<lparr>tx_prog = k affected, tx_log = (if ls = [] then tx_log t else tx_log t @ [(sv_sql s, st)]),
             tx_locks = tx_locks t @ ls\<rparr> s)))"

definition step_tx :: "env \<Rightarrow> nat \<Rightarrow> nat \<Rightarrow> server \<Rightarrow> server option" where
  "step_tx e i v s =
     (if length (sv_txs s) \<le> i then None
      else let t = sv_txs s ! i in
        case tx_prog t of
          Leave r \<Rightarrow> Some (put_tx i (ended r) s)
        | Stuck \<Rightarrow> None
        | Select k \<Rightarrow>
            if v < length (sv_history s)
            then Some (next_sql (put_tx i
              (t\<lparr>tx_prog := k (read_view e (tx_locks t) (sv_history s ! v) (replay (tx_log t) (tables s)))\<rparr>) s))
            else None
        | Exec st k \<Rightarrow> exec_step e i t st k s
        | NextId k \<Rightarrow>
            (case IdGenerator_nextId (clock_ns e) (sv_gen s, sv_clk s) of
               None \<Rightarrow> None
             | Some (r, g, c) \<Rightarrow>
                 Some (put_tx i (t\<lparr>tx_prog := (case r of Inl x \<Rightarrow> Leave (Inl x) | Inr no \<Rightarrow> k no)\<rparr>)
                   (s\<lparr>sv_gen := g, sv_clk := c\<rparr>)))
        | Now k \<Rightarrow> Some (put_tx i (t\<lparr>tx_prog := k (clock_ns e (sv_clk s))\<rparr>) (s\<lparr>sv_clk := Suc (sv_clk s)\<rparr>))
        | Commit a \<Rightarrow>
            Some (next_sql (put_tx i (ended (Inr a)) (s\<lparr>sv_history := replay (tx_log t) (tables s) # sv_history s\<rparr>))))"

section \<open>Events\<close>

datatype call = CreateOrder CreateOrderReq | HandleCallback PaymentCallbackReq string

definition createOrder_call :: "env \<Rightarrow> CreateOrderReq \<Rightarrow> answer prog" where
  "createOrder_call e req =
     (if cor_quantity req \<le> 0 \<or> kMaxQuantity < cor_quantity req
      then Leave (Inr (OrderAnswer (executed (Result_fail kParamInvalid msg_quantity_range (cor_requestId req)))))
      else createOrder_prog e OrderAnswer req)"

definition handleCallback_call :: "env \<Rightarrow> PaymentCallbackReq \<Rightarrow> string \<Rightarrow> answer prog" where
  "handleCallback_call e req rawBody =
     (if pcr_channel req \<noteq> kSupportedChannel
      then Leave (Inr (PayAnswer (Result_fail kUnsupportedChannel msg_channel_unsupported (pcr_requestId req))))
      else or_refuse (configValue (custom_config e) ''mock_channel'' ''secret'' []) (\<lambda>secret.
        if secret = [] \<or> \<not> verifyMockSign e secret (pcr_orderNo req) (pcr_channelTradeNo req)
                                 (pcr_amount req) (pcr_timestamp req) (pcr_sign req)
        then Leave (Inr (PayAnswer (Result_fail kSignVerifyFailed msg_sign_failed (pcr_requestId req))))
        else handleCallback_prog e PayAnswer req rawBody))"

fun call_prog :: "env \<Rightarrow> call \<Rightarrow> answer prog" where
  "call_prog e (CreateOrder req) = createOrder_call e req"
| "call_prog e (HandleCallback req rawBody) = handleCallback_call e req rawBody"

declare createOrder_call_def [simp] handleCallback_call_def [simp]

datatype background =
    MarkAcked string
  | MarkFailed string int int
  | MarkGiveUp string
  | InsertNotify string string string string
  | NotifySuccess string string
  | NotifyFailed string int string
  | HandleDiff int64 int string
  | StoreBatch ReconcileBatch "ReconcileDiff list"

fun background_stmts :: "env \<Rightarrow> background \<Rightarrow> nat stmt list" where
  "background_stmts e (MarkAcked m) = [uncounted (sql_markAcked e m)]"
| "background_stmts e (MarkFailed m k b) = [uncounted (sql_markMessageFailed e m k b)]"
| "background_stmts e (MarkGiveUp m) = [uncounted (sql_markGiveUp e m)]"
| "background_stmts e (InsertNotify no ord url m) = [sql_insertNotify e no ord url m]"
| "background_stmts e (NotifySuccess no body) = [uncounted (sql_notifySuccess e no body)]"
| "background_stmts e (NotifyFailed no k body) = [uncounted (sql_notifyFailed e no k body)]"
| "background_stmts e (HandleDiff i st remark) = [sql_handleDiff e i st remark]"
| "background_stmts e (StoreBatch b fs) = uncounted (sql_insertBatch e b) # map (\<lambda>f. uncounted (sql_insertDiff e f)) fs"

fun run_stmts :: "nat stmt list \<Rightarrow> nat \<Rightarrow> db \<Rightarrow> db option" where
  "run_stmts [] n d = Some d"
| "run_stmts (st # sts) n d = (case st n d of None \<Rightarrow> None | Some (d', _) \<Rightarrow> run_stmts sts (Suc n) d')"

fun at_statement :: "'a prog \<Rightarrow> bool" where
  "at_statement (Select k) \<longleftrightarrow> True"
| "at_statement (Exec st k) \<longleftrightarrow> True"
| "at_statement (Commit a) \<longleftrightarrow> True"
| "at_statement _ \<longleftrightarrow> False"

datatype event = Open call | Step nat nat | Fail nat | Background background

fun conc_step :: "env \<Rightarrow> event \<Rightarrow> server \<Rightarrow> server option" where
  "conc_step e (Open c) s = Some (s\<lparr>sv_txs := sv_txs s @ [\<lparr>tx_prog = call_prog e c, tx_log = [], tx_locks = []\<rparr>]\<rparr>)"
| "conc_step e (Step i v) s = step_tx e i v s"
| "conc_step e (Fail i) s =
     (if i < length (sv_txs s) \<and> at_statement (tx_prog (sv_txs s ! i))
      then Some (next_sql (put_tx i (ended (Inl DrogonDbException)) s)) else None)"
| "conc_step e (Background b) s =
     (let sts = background_stmts e b in
      case run_stmts sts (sv_sql s) (tables s) of
        None \<Rightarrow> Some (s\<lparr>sv_sql := sv_sql s + length sts\<rparr>)
      | Some d \<Rightarrow> Some (s\<lparr>sv_history := d # sv_history s, sv_sql := sv_sql s + length sts\<rparr>))"

fun conc_run :: "env \<Rightarrow> event list \<Rightarrow> server \<Rightarrow> server option" where
  "conc_run e [] s = Some s"
| "conc_run e (ev # evs) s = (case conc_step e ev s of None \<Rightarrow> None | Some t \<Rightarrow> conc_run e evs t)"


section \<open>Rows that a statement touches\<close>

lemma touched_same [simp]: "touched locks rows rows = []"
  by (simp add: touched_def)

lemma touched_append:
  assumes "r \<notin> set rows"
  shows "touched locks rows (rows @ [r]) = locks r"
  using assms by (simp add: touched_def)

lemma touched_keyed:
  assumes "distinct (map key rows)" and "r0 \<in> set rows" and "f r0 \<noteq> r0" and "\<And>r. key (f r) = key r" and "locks (f r0) = locks r0"
  shows "set (touched locks rows (map (\<lambda>r. if key r = key r0 then f r else r) rows)) = set (locks r0)"
proof -
  let ?upd = "map (\<lambda>r. if key r = key r0 then f r else r) rows"
  have uniq: "r = r0" if "r \<in> set rows" "key r = key r0" for r
    using that assms(1,2) by (auto simp: distinct_map dest: inj_onD)
  have "{r \<in> set ?upd. r \<notin> set rows} = {f r0}"
  proof (intro equalityI subsetI)
    fix r
    assume "r \<in> {r \<in> set ?upd. r \<notin> set rows}"
    then obtain r1 where "r1 \<in> set rows" "key r1 = key r0" "r = f r1" by (auto split: if_splits)
    with uniq [of r1] show "r \<in> {f r0}" by simp
  next
    fix r
    assume "r \<in> {f r0}"
    then show "r \<in> {r \<in> set ?upd. r \<notin> set rows}"
      using assms(2-4) uniq [of "f r0"] by (auto simp: image_iff intro!: bexI [of _ r0])
  qed
  moreover have "{r \<in> set rows. r \<notin> set ?upd} = {r0}"
  proof (intro equalityI subsetI)
    fix r
    assume "r \<in> {r \<in> set rows. r \<notin> set ?upd}"
    then have r: "r \<in> set rows" "r \<notin> set ?upd" by blast+
    have "r \<in> set ?upd" if "r \<in> set rows" "key r \<noteq> key r0"
      using imageI [OF that(1), of "\<lambda>r. if key r = key r0 then f r else r"] that(2) by simp
    with r have "key r = key r0" by blast
    with uniq [of r] r(1) show "r \<in> {r0}" by simp
  next
    fix r
    assume "r \<in> {r0}"
    moreover have "r0 \<notin> set ?upd"
    proof
      assume "r0 \<in> set ?upd"
      then obtain r1 where r1: "r1 \<in> set rows" "r0 = (if key r1 = key r0 then f r1 else r1)" by auto
      then have "key r1 = key r0" by metis
      with uniq [OF r1(1)] r1(2) assms(3) show False by simp
    qed
    ultimately show "r \<in> {r \<in> set rows. r \<notin> set ?upd}" using assms(2) by simp
  qed
  ultimately show ?thesis using assms(5) by (auto simp: touched_def)
qed

lemma overlay_none: "(\<And>r l. l \<in> set (locks r) \<Longrightarrow> l \<notin> set held) \<Longrightarrow> overlay locks held old new = old"
  by (induction old) (auto simp: overlay_def list_ex_iff)

end
