(* ===== verification/Interference.thy ===== *)
theory Interference
  imports Interleaving
begin

text \<open>
  What the commits of others can change for a transaction that holds some locks (\<open>foreign\<close>): rows it has
  locked stay, keys it has locked stay free, and prices, owners, amounts and account numbers never change.
  Then the locks that each statement of the two transactions takes.
\<close>

section \<open>Changes made by others\<close>

definition free :: "('r \<Rightarrow> 'k) \<Rightarrow> 'k \<Rightarrow> 'r list \<Rightarrow> bool" where
  "free key k rows \<longleftrightarrow> list_all (\<lambda>r. key r \<noteq> k) rows"

lemma free_append [simp]: "free key k (xs @ ys) \<longleftrightarrow> free key k xs \<and> free key k ys"
  by (simp add: free_def)

lemma free_single [simp]: "free key k [r] \<longleftrightarrow> key r \<noteq> k" "free key k []"
  by (simp_all add: free_def)

lemma free_map: "(\<And>r. key (f r) = key r) \<Longrightarrow> free key k (map f rows) = free key k rows"
  by (simp add: free_def list_all_iff)

lemma free_notin: "free key (key r) rows \<Longrightarrow> r \<notin> set rows"
  by (auto simp: free_def list_all_iff)

lemma free_iff: "free key k rows \<longleftrightarrow> k \<notin> set (map key rows)"
  by (auto simp: free_def list_all_iff)

lemma free_keys: "map key rows' = map key rows \<Longrightarrow> free key k rows' = free key k rows"
  by (simp only: free_iff)

abbreviation idem_key :: "env \<Rightarrow> idempotent_row \<Rightarrow> string" where "idem_key e r \<equiv> ckey e (ti_request_id r)"
abbreviation order_key :: "env \<Rightarrow> order_row \<Rightarrow> string" where "order_key e r \<equiv> ckey e (to_order_no r)"
abbreviation order_req_key :: "env \<Rightarrow> order_row \<Rightarrow> string" where "order_req_key e r \<equiv> ckey e (to_request_id r)"
abbreviation pay_key :: "env \<Rightarrow> payment_row \<Rightarrow> string" where "pay_key e r \<equiv> ckey e (ty_payment_no r)"
abbreviation flow_key :: "env \<Rightarrow> flow_row \<Rightarrow> string \<times> int" where "flow_key e r \<equiv> (ckey e (tf_request_id r), tf_biz_type r)"
abbreviation message_key :: "env \<Rightarrow> message_row \<Rightarrow> string" where "message_key e r \<equiv> ckey e (tl_message_id r)"

text \<open>What no statement of the program ever changes in a committed row.\<close>

definition later :: "env \<Rightarrow> db \<Rightarrow> db \<Rightarrow> bool" where
  "later e c c' \<longleftrightarrow>
     (\<forall>pid r. product_row_of pid c = Some r \<longrightarrow>
        (\<exists>r'. product_row_of pid c' = Some r' \<and> tp_price r' = tp_price r \<and> tp_status r' = tp_status r)) \<and>
     (\<forall>no r. order_row_of e no c = Some r \<longrightarrow>
        (\<exists>r'. order_row_of e no c' = Some r' \<and> to_user_id r' = to_user_id r \<and> to_total_amount r' = to_total_amount r \<and>
           to_order_no r' = to_order_no r \<and> to_request_id r' = to_request_id r \<and> (to_status r = 1 \<longrightarrow> to_status r' = 1))) \<and>
     (\<forall>u a. account_row_of u c = Some a \<longrightarrow> (\<exists>a'. account_row_of u c' = Some a' \<and> ta_account_no a' = ta_account_no a))"

lemma later_refl [simp]: "later e c c"
  by (simp add: later_def)

lemma later_trans: "later e a b \<Longrightarrow> later e b c \<Longrightarrow> later e a c"
  unfolding later_def by (intro conjI allI impI; metis)

text \<open>What a transaction that holds the locks \<open>L\<close> can rely on while others commit.\<close>

definition foreign :: "env \<Rightarrow> lock set \<Rightarrow> db \<Rightarrow> db \<Rightarrow> bool" where
  "foreign e L c c' \<longleftrightarrow> later e c c' \<and>
     (\<forall>k. IdempotentLock k \<in> L \<longrightarrow> free (idem_key e) k (t_idempotent c) \<longrightarrow> free (idem_key e) k (t_idempotent c')) \<and>
     (\<forall>pid. ProductLock (sint pid) \<in> L \<longrightarrow> product_row_of pid c' = product_row_of pid c) \<and>
     (\<forall>k. OrderLock k \<in> L \<longrightarrow> free (order_key e) k (t_order c) \<longrightarrow> free (order_key e) k (t_order c')) \<and>
     (\<forall>k. OrderRequestLock k \<in> L \<longrightarrow> free (order_req_key e) k (t_order c) \<longrightarrow> free (order_req_key e) k (t_order c')) \<and>
     (\<forall>no r. OrderLock (ckey e no) \<in> L \<longrightarrow> order_row_of e no c = Some r \<longrightarrow> order_row_of e no c' = Some r) \<and>
     (\<forall>u a. account_row_of u c = Some a \<longrightarrow> AccountLock (ckey e (ta_account_no a)) \<in> L \<longrightarrow> account_row_of u c' = Some a) \<and>
     (\<forall>k. PaymentLock k \<in> L \<longrightarrow> free (pay_key e) k (t_payment c) \<longrightarrow> free (pay_key e) k (t_payment c')) \<and>
     (\<forall>k. TradeLock (fst k) (snd k) \<in> L \<longrightarrow> free (trade_key e) k (t_payment c) \<longrightarrow> free (trade_key e) k (t_payment c')) \<and>
     (\<forall>k. FlowLock (fst k) (snd k) \<in> L \<longrightarrow> free (flow_key e) k (t_account_flow c) \<longrightarrow> free (flow_key e) k (t_account_flow c')) \<and>
     (\<forall>k. MessageLock k \<in> L \<longrightarrow> free (message_key e) k (t_local_message c) \<longrightarrow> free (message_key e) k (t_local_message c'))"

lemma foreign_same [simp]: "foreign e L c c"
  by (simp add: foreign_def)

lemma foreign_later: "foreign e L c c' \<Longrightarrow> later e c c'"
  by (simp add: foreign_def)

text \<open>The relay, the consumer and the reconciliation.\<close>

definition quiet :: "db \<Rightarrow> db \<Rightarrow> bool" where
  "quiet d d' \<longleftrightarrow> t_product d' = t_product d \<and> t_order d' = t_order d \<and> t_idempotent d' = t_idempotent d \<and>
     t_account d' = t_account d \<and> t_account_flow d' = t_account_flow d \<and> t_payment d' = t_payment d \<and>
     map tl_message_id (t_local_message d') = map tl_message_id (t_local_message d)"

lemma quiet_refl [simp]: "quiet d d"
  by (simp add: quiet_def)

lemma quiet_trans: "quiet a b \<Longrightarrow> quiet b c \<Longrightarrow> quiet a c"
  by (simp add: quiet_def)

lemma quiet_background:
  "st \<in> set (background_stmts e b) \<Longrightarrow> st n d = Some (d', x) \<Longrightarrow> quiet d d'"
  by (cases b)
    (auto simp: quiet_def uncounted_def sql_markAcked_def sql_markMessageFailed_def sql_markGiveUp_def sql_insertNotify_def notify_ins_def
      sql_notifySuccess_def sql_notifyFailed_def sql_handleDiff_def diff_handle_def sql_insertBatch_def sql_insertDiff_def update_where_def
      split: if_splits option.splits)

lemma quiet_stmts:
  "(\<And>st n d d' x. st \<in> set sts \<Longrightarrow> st n d = Some (d', x) \<Longrightarrow> quiet d d') \<Longrightarrow> run_stmts sts n d = Some d' \<Longrightarrow> quiet d d'"
proof (induction sts arbitrary: n d)
  case (Cons st sts)
  from Cons.prems(2) obtain d1 x where "st n d = Some (d1, x)" "run_stmts sts (Suc n) d1 = Some d'"
    by (auto split: option.splits)
  with Cons.prems(1) [of st] have "quiet d d1" "run_stmts sts (Suc n) d1 = Some d'" by simp_all
  moreover from Cons.IH [OF _ this(2)] Cons.prems(1) have "quiet d1 d'" by (meson list.set_intros(2))
  ultimately show ?case using quiet_trans by blast
qed simp

lemma foreign_quiet: "quiet d d' \<Longrightarrow> foreign e L d d'"
proof -
  assume q: "quiet d d'"
  then have "map (ckey e) (map tl_message_id (t_local_message d')) = map (ckey e) (map tl_message_id (t_local_message d))"
    by (simp only: quiet_def)
  then have "map (\<lambda>m. message_key e m) (t_local_message d') = map (\<lambda>m. message_key e m) (t_local_message d)"
    by (simp add: comp_def del: map_eq_conv)
  then have "free (message_key e) k (t_local_message d') = free (message_key e) k (t_local_message d)" for k by (rule free_keys)
  with q show ?thesis
    by (simp add: foreign_def later_def quiet_def product_row_of_def order_row_of_def account_row_of_def)
qed

text \<open>A placed order and a settled payment, seen by a transaction that holds none of their locks.\<close>

lemma product_row_of_placed_db:
  "product_row_of pid (placed_db e req order rec x y d) =
     map_option (\<lambda>r. if pid = cor_productId req
       then r\<lparr>tp_stock := tp_stock r - cor_quantity req, tp_version := tp_version r + 1\<rparr> else r) (product_row_of pid d)"
  by (simp add: product_row_of_def placed_db_def sell_def first_where_map_keyed [of tp_id] sint_eq_iff)

lemma order_row_of_placed_db:
  "order_row_of e no d = Some r \<Longrightarrow> order_row_of e no (placed_db e req order rec x y d) = Some r"
  by (simp add: order_row_of_def placed_db_def first_where_append)

lemma foreign_placed:
  assumes "ProductLock (sint (cor_productId req)) \<notin> L" "IdempotentLock (ckey e (idm_requestId rec)) \<notin> L"
    "OrderLock (ckey e (ord_orderNo order)) \<notin> L" "OrderRequestLock (ckey e (ord_requestId order)) \<notin> L"
  shows "foreign e L d (placed_db e req order rec x y d)"
proof -
  have "later e d (placed_db e req order rec x y d)"
    unfolding later_def by (auto simp: product_row_of_placed_db order_row_of_placed_db) (simp add: account_row_of_def placed_db_def)
  moreover have "product_row_of pid (placed_db e req order rec x y d) = product_row_of pid d" if "ProductLock (sint pid) \<in> L" for pid
    using that assms(1) by (cases "pid = cor_productId req") (simp_all add: product_row_of_placed_db option.map_ident)
  moreover have "account_row_of u (placed_db e req order rec x y d) = account_row_of u d" for u
    by (simp add: account_row_of_def placed_db_def)
  ultimately show ?thesis
    using assms unfolding foreign_def
    by (intro conjI allI impI; simp add: order_row_of_placed_db)
      (auto simp: placed_db_def order_row_for_def idem_row_for_def)
qed

lemma foreign_paid:
  assumes "OrderLock (ckey e no) \<notin> L" "AccountLock (ckey e accNo) \<notin> L" "PaymentLock (pay_key e p) \<notin> L"
    "TradeLock (ckey e (ty_channel p)) (ckey e (ty_channel_trade_no p)) \<notin> L"
    "FlowLock (ckey e (tf_request_id f)) (tf_biz_type f) \<notin> L" "MessageLock (message_key e m) \<notin> L"
  shows "foreign e L d (paid_db e no n accNo q p f m d)"
proof -
  let ?d = "paid_db e no n accNo q p f m d"
  have acc: "account_row_of u ?d = map_option (\<lambda>r. if ckey e (ta_account_no r) = ckey e accNo
      then r\<lparr>ta_balance := ta_balance r - q, ta_version := ta_version r + 1\<rparr> else r) (account_row_of u d)" for u
    by (simp add: account_row_of_def paid_db_def debit_def first_where_map_if [of ta_user_id])
  have ord: "order_row_of e no' ?d = map_option (\<lambda>r. if ckey e (to_order_no r) = ckey e no
      then r\<lparr>to_status := 1, to_paid_at := Some (db_now e n)\<rparr> else r) (order_row_of e no' d)" for no'
    by (simp add: order_row_of_def paid_db_def pay_order_def sql_eq_def first_where_map_if [of "\<lambda>r. ckey e (to_order_no r)"])
  have prod: "product_row_of pid ?d = product_row_of pid d" for pid
    by (simp add: product_row_of_def paid_db_def)
  have "later e d ?d"
    unfolding later_def by (auto simp: acc ord prod)
  moreover have "order_row_of e no' ?d = Some r" if "OrderLock (ckey e no') \<in> L" "order_row_of e no' d = Some r" for no' r
    using that assms(1) order_row_of_SomeD [OF that(2)] by (auto simp: ord)
  moreover have "account_row_of u ?d = Some a" if "account_row_of u d = Some a" "AccountLock (ckey e (ta_account_no a)) \<in> L" for u a
    using that assms(2) by (auto simp: acc)
  ultimately show ?thesis
    using assms prod unfolding foreign_def
    by (intro conjI allI impI; simp)
      (auto simp: paid_db_def pay_order_def debit_def free_map trade_key_def)
qed

section \<open>The statements of the transactions\<close>

lemma sql_acquire_free:
  "sql_acquire e rec n d =
     (case dt_parse e (idm_expireTime rec) of
        None \<Rightarrow> None
      | Some y \<Rightarrow>
          if sint (idm_userId rec) < 0 then None
          else if free (idem_key e) (ckey e (idm_requestId rec)) (t_idempotent d)
          then Some (d\<lparr>t_idempotent := t_idempotent d @ [idem_row_for rec y]\<rparr>, 1) else Some (d, 0))"
  by (auto simp: sql_acquire_def idem_ins_def idem_row_for_def free_def sql_eq_def list_ex_iff list_all_iff split: option.split)

lemma sql_insertOrder_free:
  "sql_insertOrder e order n d =
     (case dt_parse e (ord_expireTime order) of
        None \<Rightarrow> None
      | Some x \<Rightarrow>
          if sint (ord_userId order) < 0 \<or> sint (ord_productId order) < 0 \<or> ord_quantity order \<le> 0 \<or>
             to_total_amount (order_row_for e order x) < 0 then None
          else if free (order_key e) (ckey e (ord_orderNo order)) (t_order d) \<and> free (order_req_key e) (ckey e (ord_requestId order)) (t_order d)
          then Some (d\<lparr>t_order := t_order d @ [order_row_for e order x]\<rparr>, ()) else None)"
  by (auto simp: sql_insertOrder_def order_row_for_def free_def sql_eq_def list_ex_iff list_all_iff Let_def split: option.split)

lemma sql_insertPayment_free:
  "sql_insertPayment e p n d =
     (case dt_parse e (pay_callbackTime p) of
        None \<Rightarrow> None
      | Some t \<Rightarrow>
          if free (pay_key e) (ckey e (pay_paymentNo p)) (t_payment d) \<and>
             free (trade_key e) (ckey e (pay_channel p), ckey e (pay_channelTradeNo p)) (t_payment d)
          then Some (d\<lparr>t_payment := t_payment d @ [payment_row_for e p t]\<rparr>, 1) else Some (d, 0))"
  by (auto simp: sql_insertPayment_def payment_ins_def payment_row_for_def free_def sql_eq_def trade_key_def list_ex_iff list_all_iff split: option.split)

lemma sql_insertFlow_free:
  "sql_insertFlow e flow n d =
     (if tf_amount (flow_row_for e flow) \<le> 0 then None
      else if free (flow_key e) (ckey e (flw_requestId flow), FlowBizType_int (flw_bizType flow)) (t_account_flow d)
      then Some (d\<lparr>t_account_flow := t_account_flow d @ [flow_row_for e flow]\<rparr>, ()) else None)"
  by (auto simp: sql_insertFlow_def free_def sql_eq_def list_ex_iff list_all_iff)

lemma sql_insertMessage_free:
  "sql_insertMessage e m n d =
     (if free (message_key e) (ckey e (msg_messageId m)) (t_local_message d)
      then Some (d\<lparr>t_local_message := t_local_message d @ [message_row_for e m n]\<rparr>, ()) else None)"
  by (auto simp: sql_insertMessage_def free_def sql_eq_def list_ex_iff list_all_iff)

lemma written_insert:
  "r \<notin> set (t_idempotent d) \<Longrightarrow> written_locks e d (d\<lparr>t_idempotent := t_idempotent d @ [r]\<rparr>) = idempotent_locks e r"
  "r1 \<notin> set (t_order d) \<Longrightarrow> written_locks e d (d\<lparr>t_order := t_order d @ [r1]\<rparr>) = order_locks e r1"
  "r2 \<notin> set (t_payment d) \<Longrightarrow> written_locks e d (d\<lparr>t_payment := t_payment d @ [r2]\<rparr>) = payment_locks e r2"
  "r3 \<notin> set (t_account_flow d) \<Longrightarrow> written_locks e d (d\<lparr>t_account_flow := t_account_flow d @ [r3]\<rparr>) = flow_locks e r3"
  "r4 \<notin> set (t_local_message d) \<Longrightarrow> written_locks e d (d\<lparr>t_local_message := t_local_message d @ [r4]\<rparr>) = message_locks e r4"
  by (simp_all add: written_locks_def touched_append)

lemma written_same [simp]: "written_locks e d d = []"
  by (simp add: written_locks_def)

lemma written_sell:
  assumes "product_ok (t_product d)" and "product_row_of pid d = Some r"
  shows "set (written_locks e d (sell pid q d)) = {ProductLock (sint pid)}"
proof -
  from first_where_Some [OF assms(2) [unfolded product_row_of_def]] have r: "r \<in> set (t_product d)" "tp_id r = sint pid" by simp_all
  let ?f = "\<lambda>r. r\<lparr>tp_stock := tp_stock r - q, tp_version := tp_version r + 1\<rparr>"
  have ne: "?f r \<noteq> r"
  proof
    assume "?f r = r"
    then have "tp_version (?f r) = tp_version r" by (rule arg_cong)
    then show False by simp
  qed
  from touched_keyed [where key = tp_id and f = ?f and locks = product_locks, OF _ r(1) ne] assms(1) r(2) show ?thesis
    by (simp add: written_locks_def sell_def product_ok_def product_locks_def)
qed

lemma written_pay_order:
  assumes "order_ok e (t_order d)" and "order_row_of e no d = Some r" and "to_status r = 0"
  shows "set (written_locks e d (pay_order e no n d)) = set (order_locks e r)"
proof -
  from order_row_of_SomeD [OF assms(2)] have r: "r \<in> set (t_order d)" "ckey e (to_order_no r) = ckey e no" by simp_all
  let ?f = "\<lambda>r. r\<lparr>to_status := 1, to_paid_at := Some (db_now e n)\<rparr>"
  have ne: "?f r \<noteq> r"
  proof
    assume "?f r = r"
    then have "to_status (?f r) = to_status r" by (rule arg_cong)
    with assms(3) show False by simp
  qed
  from touched_keyed [where key = "\<lambda>r. ckey e (to_order_no r)" and f = ?f and locks = "order_locks e", OF _ r(1) ne] assms(1) r(2) show ?thesis
    by (simp add: written_locks_def pay_order_def order_ok_def order_locks_def)
qed

lemma written_debit:
  assumes "account_ok e (t_account d)" and "account_row_of u d = Some a"
  shows "set (written_locks e d (debit e (ta_account_no a) q d)) = {AccountLock (ckey e (ta_account_no a))}"
proof -
  from first_where_Some [OF assms(2) [unfolded account_row_of_def]] have a: "a \<in> set (t_account d)" by simp
  let ?f = "\<lambda>r. r\<lparr>ta_balance := ta_balance r - q, ta_version := ta_version r + 1\<rparr>"
  have ne: "?f a \<noteq> a"
  proof
    assume "?f a = a"
    then have "ta_version (?f a) = ta_version a" by (rule arg_cong)
    then show False by simp
  qed
  from touched_keyed [where key = "\<lambda>r. ckey e (ta_account_no r)" and f = ?f and locks = "account_locks e", OF _ a ne] assms(1) show ?thesis
    by (simp add: written_locks_def debit_def account_ok_def account_locks_def)
qed

end
