(* ===== verification/OrderStages.thy ===== *)
theory OrderStages
  imports Interference
begin

text \<open>
  The progress of an order through its transaction: \<open>order_stage\<close> says, for each point of the program, which
  statements have changed rows, which locks are held, and what the committed tables are known to
  satisfy. It survives the commits of others and every move of the transaction itself.
\<close>

section \<open>What a transaction may do next\<close>

inductive tx_move :: "env \<Rightarrow> db set \<Rightarrow> db \<Rightarrow> tx \<Rightarrow> tx \<Rightarrow> bool" for e H c t where
  select: "tx_prog t = Select k \<Longrightarrow> h \<in> H \<Longrightarrow>
    tx_move e H c t (t\<lparr>tx_prog := k (read_view e (tx_locks t) h (replay (tx_log t) c))\<rparr>)"
| exec: "tx_prog t = Exec st k \<Longrightarrow> st n (replay (tx_log t) c) = Some (v, a) \<Longrightarrow> ls = written_locks e (replay (tx_log t) c) v \<Longrightarrow>
    tx_move e H c t \<lparr>tx_prog = k a, tx_log = (if ls = [] then tx_log t else tx_log t @ [(n, st)]), tx_locks = tx_locks t @ ls\<rparr>"
| nextId: "tx_prog t = NextId k \<Longrightarrow> tx_move e H c t (t\<lparr>tx_prog := k no\<rparr>)"
| now: "tx_prog t = Now k \<Longrightarrow> tx_move e H c t (t\<lparr>tx_prog := k x\<rparr>)"

text \<open>A program that only reads, and then ends without a report of success.\<close>

definition success :: "exn + answer \<Rightarrow> bool" where
  "success r \<longleftrightarrow> (\<exists>order rid. r = Inr (OrderAnswer (executed (Result_ok order rid)))) \<or>
     (\<exists>cb. r = Inr (PayAnswer (Result_ok (paidData cb) (pcr_requestId cb))))"

primrec harmless :: "answer prog \<Rightarrow> bool" where
  "harmless (Leave r) \<longleftrightarrow> \<not> success r"
| "harmless Stuck \<longleftrightarrow> False"
| "harmless (Select k) \<longleftrightarrow> (\<forall>d. harmless (k d))"
| "harmless (Exec st k) \<longleftrightarrow> False"
| "harmless (NextId k) \<longleftrightarrow> False"
| "harmless (Now k) \<longleftrightarrow> False"
| "harmless (Commit a) \<longleftrightarrow> False"

lemma harmless_move: "tx_move e H c t t' \<Longrightarrow> harmless (tx_prog t) \<Longrightarrow> harmless (tx_prog t')"
  by (induction rule: tx_move.induct) auto

lemma success_simps [simp]:
  "\<not> success (Inl x)" "\<not> success (Inr (PayAnswer (Result_ok JNull rid)))"
  "c \<noteq> kSuccess \<Longrightarrow> \<not> success (Inr (PayAnswer (Result_fail c m rid)))"
  "c \<noteq> kSuccess \<Longrightarrow> \<not> success (Inr (OrderAnswer (executed (Result_fail c m rid))))"
  "\<not> success (Inr (OrderAnswer (cached b)))"
  by (auto simp: success_def Result_ok_def Result_fail_def executed_def cached_def paidData_def)

lemma harmless_refuse [simp]: "harmless (refuse c m)"
  by (simp add: refuse_def)

lemma harmless_order_repeated [simp]: "harmless (order_repeated e OrderAnswer req)"
  by (auto simp: order_repeated_def select_def split: option.split)

lemma harmless_pay_beaten [simp]: "harmless (pay_beaten e PayAnswer req)"
  by (auto simp: pay_beaten_def select_def split: option.split)

lemma harmless_pay_repeated [simp]: "harmless (pay_repeated e PayAnswer req)"
  by (auto simp: pay_repeated_def select_def split: option.split)

section \<open>Stages of an order\<close>

definition key_held :: "env \<Rightarrow> CreateOrderReq \<Rightarrow> db \<Rightarrow> Idempotent \<Rightarrow> int \<Rightarrow> bool" where
  "key_held e req c rec y \<longleftrightarrow> idm_requestId rec = cor_requestId req \<and> dt_parse e (idm_expireTime rec) = Some y \<and>
     0 \<le> sint (idm_userId rec) \<and> free (idem_key e) (ckey e (cor_requestId req)) (t_idempotent c)"

definition priced :: "CreateOrderReq \<Rightarrow> db \<Rightarrow> Product \<Rightarrow> bool" where
  "priced req c p \<longleftrightarrow> (\<exists>r. product_row_of (cor_productId req) c = Some r \<and> tp_price r = prd_priceFen p)"

definition stocked :: "CreateOrderReq \<Rightarrow> db \<Rightarrow> Product \<Rightarrow> bool" where
  "stocked req c p \<longleftrightarrow> (\<exists>r. product_row_of (cor_productId req) c = Some r \<and> tp_price r = prd_priceFen p \<and>
     tp_status r = 1 \<and> cor_quantity req \<le> tp_stock r)"

definition order_fits :: "env \<Rightarrow> db \<Rightarrow> Order \<Rightarrow> int \<Rightarrow> bool" where
  "order_fits e c order x \<longleftrightarrow> dt_parse e (ord_expireTime order) = Some x \<and> 0 \<le> sint (ord_userId order) \<and>
     0 \<le> sint (ord_productId order) \<and> 0 < ord_quantity order \<and> 0 \<le> to_total_amount (order_row_for e order x) \<and>
     free (order_key e) (ckey e (ord_orderNo order)) (t_order c) \<and> free (order_req_key e) (ckey e (ord_requestId order)) (t_order c)"

abbreviation key_lock :: "env \<Rightarrow> CreateOrderReq \<Rightarrow> lock" where
  "key_lock e req \<equiv> IdempotentLock (ckey e (cor_requestId req))"

abbreviation stock_lock :: "CreateOrderReq \<Rightarrow> lock" where
  "stock_lock req \<equiv> ProductLock (sint (cor_productId req))"

abbreviation numbers :: "env \<Rightarrow> Order \<Rightarrow> lock set" where
  "numbers e order \<equiv> {OrderLock (ckey e (ord_orderNo order)), OrderRequestLock (ckey e (ord_requestId order))}"

inductive order_stage :: "env \<Rightarrow> CreateOrderReq \<Rightarrow> db \<Rightarrow> answer prog \<Rightarrow> redo \<Rightarrow> lock set \<Rightarrow> bool" for e req c where
  start: "order_stage e req c (createOrder_prog e OrderAnswer req) [] {}"
| acquire: "idm_requestId rec = cor_requestId req \<Longrightarrow> order_stage e req c (order_acquire e OrderAnswer req rec) [] {}"
| product: "key_held e req c rec y \<Longrightarrow>
    order_stage e req c (order_product e OrderAnswer req) [(n1, sql_acquire e rec)] {key_lock e req}"
| deduct: "key_held e req c rec y \<Longrightarrow> priced req c p \<Longrightarrow>
    order_stage e req c (order_deduct e OrderAnswer req p) [(n1, sql_acquire e rec)] {key_lock e req}"
| number: "key_held e req c rec y \<Longrightarrow> stocked req c p \<Longrightarrow>
    order_stage e req c (order_number e OrderAnswer req p)
      [(n1, sql_acquire e rec), (n2, sql_deductStock (cor_productId req) (cor_quantity req))] {key_lock e req, stock_lock req}"
| date: "key_held e req c rec y \<Longrightarrow> stocked req c p \<Longrightarrow>
    order_stage e req c (Now (\<lambda>t. order_insert e OrderAnswer req (orderOf req p no (dbTimeAfter t kOrderExpireMinutes))))
      [(n1, sql_acquire e rec), (n2, sql_deductStock (cor_productId req) (cor_quantity req))] {key_lock e req, stock_lock req}"
| insert: "key_held e req c rec y \<Longrightarrow> stocked req c p \<Longrightarrow> order = orderOf req p no expiry \<Longrightarrow>
    order_stage e req c (order_insert e OrderAnswer req order)
      [(n1, sql_acquire e rec), (n2, sql_deductStock (cor_productId req) (cor_quantity req))] {key_lock e req, stock_lock req}"
| mark: "key_held e req c rec y \<Longrightarrow> stocked req c p \<Longrightarrow> order = orderOf req p no expiry \<Longrightarrow> order_fits e c order x \<Longrightarrow>
    order_stage e req c (order_mark e OrderAnswer req order)
      [(n1, sql_acquire e rec), (n2, sql_deductStock (cor_productId req) (cor_quantity req)), (n3, uncounted (sql_insertOrder e order))]
      ({key_lock e req, stock_lock req} \<union> numbers e order)"
| commit: "key_held e req c rec y \<Longrightarrow> stocked req c p \<Longrightarrow> order = orderOf req p no expiry \<Longrightarrow> order_fits e c order x \<Longrightarrow>
    order_stage e req c (Commit (OrderAnswer (executed (Result_ok order (cor_requestId req)))))
      [(n1, sql_acquire e rec), (n2, sql_deductStock (cor_productId req) (cor_quantity req)), (n3, uncounted (sql_insertOrder e order)),
       (n4, uncounted (sql_markSuccess e (cor_requestId req) (orderSnapshot e order (cor_requestId req))))]
      ({key_lock e req, stock_lock req} \<union> numbers e order)"

text \<open>The tables as the transaction sees them.\<close>

lemma replay_acquired:
  "key_held e req c rec y \<Longrightarrow> replay [(n1, sql_acquire e rec)] c = c\<lparr>t_idempotent := t_idempotent c @ [idem_row_for rec y]\<rparr>"
  by (auto simp: key_held_def sql_acquire_free)

lemma replay_stocked:
  assumes "key_held e req c rec y" and "stocked req c p" and "product_ok (t_product c)"
  shows "replay [(n1, sql_acquire e rec), (n2, sql_deductStock (cor_productId req) (cor_quantity req))] c =
    (sell (cor_productId req) (cor_quantity req) c)\<lparr>t_idempotent := t_idempotent c @ [idem_row_for rec y]\<rparr>"
proof -
  from assms(2) have "\<exists>s. on_sale_stock (cor_productId req) c = Some s \<and> cor_quantity req \<le> s"
    by (auto simp: stocked_def on_sale_stock_def)
  with replay_acquired [OF assms(1), of n1] assms(3) show ?thesis
    by (auto simp: sql_deductStock_def product_dec_eq on_sale_stock_def product_row_of_def sell_def)
qed

lemma replay_inserted:
  assumes "key_held e req c rec y" and "stocked req c p" and "product_ok (t_product c)" and "order_fits e c order x"
  shows "replay [(n1, sql_acquire e rec), (n2, sql_deductStock (cor_productId req) (cor_quantity req)), (n3, uncounted (sql_insertOrder e order))] c =
    (sell (cor_productId req) (cor_quantity req) c)\<lparr>t_idempotent := t_idempotent c @ [idem_row_for rec y],
       t_order := t_order c @ [order_row_for e order x]\<rparr>"
proof -
  let ?v = "replay [(n1, sql_acquire e rec), (n2, sql_deductStock (cor_productId req) (cor_quantity req))] c"
  have "replay [(n1, sql_acquire e rec), (n2, sql_deductStock (cor_productId req) (cor_quantity req)), (n3, uncounted (sql_insertOrder e order))] c
    = replay [(n3, uncounted (sql_insertOrder e order))] ?v" by simp
  also have "\<dots> = (sell (cor_productId req) (cor_quantity req) c)\<lparr>t_idempotent := t_idempotent c @ [idem_row_for rec y],
       t_order := t_order c @ [order_row_for e order x]\<rparr>"
    unfolding replay_stocked [OF assms(1-3)] using assms(4)
    by (simp add: uncounted_def sql_insertOrder_free order_fits_def sell_def)
  finally show ?thesis .
qed

lemma replay_placed:
  assumes "key_held e req c rec y" and "stocked req c p" and "product_ok (t_product c)" and "order_fits e c order x"
  shows "replay [(n1, sql_acquire e rec), (n2, sql_deductStock (cor_productId req) (cor_quantity req)), (n3, uncounted (sql_insertOrder e order)),
       (n4, uncounted (sql_markSuccess e (cor_requestId req) (orderSnapshot e order (cor_requestId req))))] c =
    placed_db e req order rec x y c"
proof -
  let ?log = "[(n1, sql_acquire e rec), (n2, sql_deductStock (cor_productId req) (cor_quantity req)), (n3, uncounted (sql_insertOrder e order))]"
  let ?d = "c\<lparr>t_product := t_product (sell (cor_productId req) (cor_quantity req) c), t_order := t_order c @ [order_row_for e order x]\<rparr>"
  from assms(1) have row: "ti_request_id (idem_row_for rec y) = cor_requestId req" "ti_status (idem_row_for rec y) = 0"
    and new: "idem_lookup e (ckey e (cor_requestId req)) ?d = None"
    by (simp_all add: key_held_def idem_row_for_def idem_lookup_def first_where_None free_def list_all_iff)
  have "replay (?log @ [(n4, uncounted (sql_markSuccess e (cor_requestId req) (orderSnapshot e order (cor_requestId req))))]) c =
    idem_markSuccess e (cor_requestId req) (orderSnapshot e order (cor_requestId req)) (replay ?log c)"
    by (simp add: uncounted_def sql_markSuccess_def)
  also have "replay ?log c = ?d\<lparr>t_idempotent := t_idempotent ?d @ [idem_row_for rec y]\<rparr>"
    unfolding replay_inserted [OF assms] by (simp add: sell_def)
  finally show ?thesis using idem_markSuccess_new [OF new row] by (simp add: placed_db_def)
qed

lemma key_held_foreign: "key_held e req c rec y \<Longrightarrow> foreign e L c c' \<Longrightarrow> key_lock e req \<in> L \<Longrightarrow> key_held e req c' rec y"
  by (simp add: key_held_def foreign_def)

lemma priced_foreign: "priced req c p \<Longrightarrow> foreign e L c c' \<Longrightarrow> priced req c' p"
  unfolding priced_def foreign_def later_def by metis

lemma stocked_foreign: "stocked req c p \<Longrightarrow> foreign e L c c' \<Longrightarrow> stock_lock req \<in> L \<Longrightarrow> stocked req c' p"
  by (auto simp: stocked_def foreign_def)

lemma order_fits_foreign: "order_fits e c order x \<Longrightarrow> foreign e L c c' \<Longrightarrow> numbers e order \<subseteq> L \<Longrightarrow> order_fits e c' order x"
  by (simp add: order_fits_def foreign_def)

text \<open>The progress of a transaction survives the commits of others.\<close>

lemma order_stage_foreign:
  assumes "order_stage e req c p log L" and "foreign e L c c'"
  shows "order_stage e req c' p log L"
  using assms
proof (induction rule: order_stage.induct)
  case start
  show ?case by (rule order_stage.start)
next
  case (acquire rec)
  then show ?case by (intro order_stage.acquire)
next
  case (product rec y n1)
  from key_held_foreign [OF product] show ?case by (intro order_stage.product) simp
next
  case (deduct rec y p n1)
  from key_held_foreign [OF deduct(1,3)] priced_foreign [OF deduct(2,3)] show ?case by (intro order_stage.deduct) simp_all
next
  case (number rec y p n1 n2)
  from key_held_foreign [OF number(1,3)] stocked_foreign [OF number(2,3)] show ?case by (intro order_stage.number) simp_all
next
  case (date rec y p no n1 n2)
  from key_held_foreign [OF date(1,3)] stocked_foreign [OF date(2,3)] show ?case by (intro order_stage.date) simp_all
next
  case (insert rec y p order no expiry n1 n2)
  from key_held_foreign [OF insert(1,4)] stocked_foreign [OF insert(2,4)] insert(3) show ?case by (intro order_stage.insert) simp_all
next
  case (mark rec y p order no expiry x n1 n2 n3)
  from key_held_foreign [OF mark(1,5)] stocked_foreign [OF mark(2,5)] mark(3) order_fits_foreign [OF mark(4,5)]
  show ?case by (intro order_stage.mark) simp_all
next
  case (commit rec y p order no expiry x n1 n2 n3 n4)
  from key_held_foreign [OF commit(1,5)] stocked_foreign [OF commit(2,5)] commit(3) order_fits_foreign [OF commit(4,5)]
  show ?case by (intro order_stage.commit) simp_all
qed

lemma touched_last: "r \<notin> set rows \<Longrightarrow> r' \<notin> set rows \<Longrightarrow> r \<noteq> r' \<Longrightarrow> touched locks (rows @ [r]) (rows @ [r']) = locks r' @ locks r"
  by (simp add: touched_def)

lemma set_single_nonempty: "set xs = {x} \<Longrightarrow> xs \<noteq> []"
  by auto

text \<open>The four kinds of moves, read off the program.\<close>

lemma move_exec:
  assumes "tx_move e H c t t'" and "tx_prog t = Exec st k" and "replay (tx_log t) c = d"
  obtains n v a where "st n d = Some (v, a)"
    "t' = \<lparr>tx_prog = k a, tx_log = (if written_locks e d v = [] then tx_log t else tx_log t @ [(n, st)]),
       tx_locks = tx_locks t @ written_locks e d v\<rparr>"
  using assms by (cases rule: tx_move.cases) auto

lemma move_select:
  assumes "tx_move e H c t t'" and "tx_prog t = select f F"
  obtains h where "h \<in> H" "t' = t\<lparr>tx_prog := F (f (read_view e (tx_locks t) h (replay (tx_log t) c)))\<rparr>"
  using assms by (cases rule: tx_move.cases) (auto simp: select_def)

lemma move_draw:
  assumes "tx_move e H c t t'"
  shows "tx_prog t = NextId k \<Longrightarrow> \<exists>no. t' = t\<lparr>tx_prog := k no\<rparr>" "tx_prog t = Now k' \<Longrightarrow> \<exists>x. t' = t\<lparr>tx_prog := k' x\<rparr>"
  using assms by (cases rule: tx_move.cases; auto)+

lemma later_product:
  assumes "later e h c" and "product_row_of pid h = Some r"
  obtains r' where "product_row_of pid c = Some r'" "tp_price r' = tp_price r" "tp_status r' = tp_status r"
  using assms unfolding later_def by metis

lemma later_order:
  assumes "later e h c" and "order_row_of e no h = Some r"
  obtains r' where "order_row_of e no c = Some r'" "to_user_id r' = to_user_id r" "to_total_amount r' = to_total_amount r"
    "to_order_no r' = to_order_no r" "to_request_id r' = to_request_id r" "to_status r = 1 \<longrightarrow> to_status r' = 1"
  using assms unfolding later_def by metis

lemma later_account:
  assumes "later e h c" and "account_row_of u h = Some a"
  obtains a' where "account_row_of u c = Some a'" "ta_account_no a' = ta_account_no a"
  using assms unfolding later_def by metis

lemma order_step_acquire:
  assumes "tx_move e H c t t'" and "tx_prog t = order_acquire e OrderAnswer req rec" and "tx_log t = []" and "tx_locks t = []"
    and "idm_requestId rec = cor_requestId req"
  shows "order_stage e req c (tx_prog t') (tx_log t') (set (tx_locks t')) \<or> harmless (tx_prog t')"
proof -
  from assms(3) have "replay (tx_log t) c = c" by simp
  from move_exec [OF assms(1) assms(2) [unfolded order_acquire_def] this] obtain n v a where st: "sql_acquire e rec n c = Some (v, a)" and
    t': "t' = \<lparr>tx_prog = (if a = 1 then order_product e OrderAnswer req else order_repeated e OrderAnswer req),
      tx_log = (if written_locks e c v = [] then tx_log t else tx_log t @ [(n, sql_acquire e rec)]), tx_locks = tx_locks t @ written_locks e c v\<rparr>"
    by blast
  show ?thesis
  proof (cases "a = 1")
    case True
    with st assms(5) obtain y where held: "key_held e req c rec y" and v: "v = c\<lparr>t_idempotent := t_idempotent c @ [idem_row_for rec y]\<rparr>"
      by (auto simp: sql_acquire_free key_held_def split: option.splits if_splits)
    have "idem_row_for rec y \<notin> set (t_idempotent c)"
      using held by (intro free_notin [of "idem_key e"]) (simp add: key_held_def idem_row_for_def)
    then have "written_locks e c v = [key_lock e req]"
      using assms(5) by (simp add: v written_insert idempotent_locks_def idem_row_for_def)
    with t' True assms(3,4) show ?thesis using order_stage.product [OF held, of n] by simp
  qed (simp add: t')
qed

lemma read_unlocked:
  "(\<And>i. ProductLock i \<notin> set held) \<Longrightarrow> product_row_of pid (read_view e held old new) = product_row_of pid old"
  "(\<And>k. OrderLock k \<notin> set held) \<Longrightarrow> (\<And>k. OrderRequestLock k \<notin> set held) \<Longrightarrow>
     order_row_of e no (read_view e held old new) = order_row_of e no old"
  "(\<And>k. AccountLock k \<notin> set held) \<Longrightarrow> account_row_of u (read_view e held old new) = account_row_of u old"
  unfolding product_row_of_def order_row_of_def account_row_of_def read_view_def
  by (simp, subst overlay_none; auto simp: row_locks)+

lemma order_step_product:
  assumes "tx_move e H c t t'" and "tx_prog t = order_product e OrderAnswer req" and "tx_log t = [(n1, sql_acquire e rec)]"
    and "set (tx_locks t) = {key_lock e req}" and held: "key_held e req c rec y" and "\<And>h. h \<in> H \<Longrightarrow> later e h c"
  shows "order_stage e req c (tx_prog t') (tx_log t') (set (tx_locks t')) \<or> harmless (tx_prog t')"
proof -
  from move_select [OF assms(1) assms(2) [unfolded order_product_def]] obtain h where h: "h \<in> H" and
    t': "t' = t\<lparr>tx_prog := (case map_option product_of_row (product_row_of (cor_productId req)
        (read_view e (tx_locks t) h (replay (tx_log t) c))) of
         None \<Rightarrow> refuse kProductNotFound msg_product_missing
       | Some p \<Rightarrow>
           if \<not> Product_onSale p then refuse kProductNotFound msg_product_off_sale else order_deduct e OrderAnswer req p)\<rparr>"
    by blast
  have "product_row_of (cor_productId req) (read_view e (tx_locks t) h (replay (tx_log t) c)) = product_row_of (cor_productId req) h"
    using assms(4) by (intro read_unlocked) auto
  with t' have t': "t' = t\<lparr>tx_prog := (case product_row_of (cor_productId req) h of
         None \<Rightarrow> refuse kProductNotFound msg_product_missing
       | Some r \<Rightarrow>
           if \<not> Product_onSale (product_of_row r) then refuse kProductNotFound msg_product_off_sale
           else order_deduct e OrderAnswer req (product_of_row r))\<rparr>"
    by (simp split: option.split)
  show ?thesis
  proof (cases "product_row_of (cor_productId req) h")
    case None
    with t' show ?thesis by simp
  next
    case (Some r)
    from later_product [OF assms(6) [OF h] this] have "priced req c (product_of_row r)" by (auto simp: priced_def)
    from order_stage.deduct [OF held this, of n1] Some t' assms(3,4) show ?thesis by auto
  qed
qed

lemma order_step_deduct:
  assumes "tx_move e H c t t'" and "tx_prog t = order_deduct e OrderAnswer req p" and log: "tx_log t = [(n1, sql_acquire e rec)]"
    and locks: "set (tx_locks t) = {key_lock e req}" and held: "key_held e req c rec y" and priced: "priced req c p" and ok: "schema_ok e c"
  shows "order_stage e req c (tx_prog t') (tx_log t') (set (tx_locks t')) \<or> harmless (tx_prog t')"
proof -
  let ?v = "c\<lparr>t_idempotent := t_idempotent c @ [idem_row_for rec y]\<rparr>" and ?st = "sql_deductStock (cor_productId req) (cor_quantity req)"
  have view: "replay (tx_log t) c = ?v" using replay_acquired [OF held] log by simp
  from move_exec [OF assms(1) assms(2) [unfolded order_deduct_def] view] obtain n v a where st: "?st n ?v = Some (v, a)" and
    t': "t' = \<lparr>tx_prog = (if a = 0 then refuse kStockNotEnough msg_stock_short else order_number e OrderAnswer req p),
      tx_log = (if written_locks e ?v v = [] then tx_log t else tx_log t @ [(n, ?st)]), tx_locks = tx_locks t @ written_locks e ?v v\<rparr>"
    by blast
  show ?thesis
  proof (cases "a = 0")
    case False
    from priced obtain r where r: "product_row_of (cor_productId req) c = Some r" "tp_price r = prd_priceFen p" by (auto simp: priced_def)
    from ok have pok: "product_ok (t_product ?v)" by (simp add: schema_ok_def)
    from r have rv: "product_row_of (cor_productId req) ?v = Some r" by (simp add: product_row_of_def)
    from st False pok rv have v: "v = sell (cor_productId req) (cor_quantity req) ?v" and "tp_status r = 1" "cor_quantity req \<le> tp_stock r"
      by (auto simp: sql_deductStock_def product_dec_eq on_sale_stock_def split: if_splits)
    with r have "stocked req c p" by (simp add: stocked_def)
    moreover from written_sell [OF pok rv] v have "set (written_locks e ?v v) = {stock_lock req}" by simp
    moreover from this have "written_locks e ?v v \<noteq> []" by (rule set_single_nonempty)
    moreover from calculation(2) locks t' have "set (tx_locks t') = {key_lock e req, stock_lock req}" by (simp add: insert_commute)
    ultimately show ?thesis using order_stage.number [OF held, of p n1 n] t' False log by simp
  qed (simp add: t')
qed

lemma order_step_insert:
  assumes "tx_move e H c t t'" and "tx_prog t = order_insert e OrderAnswer req order"
    and log: "tx_log t = [(n1, sql_acquire e rec), (n2, sql_deductStock (cor_productId req) (cor_quantity req))]"
    and locks: "set (tx_locks t) = {key_lock e req, stock_lock req}" and held: "key_held e req c rec y" and stocked: "stocked req c p"
    and order: "order = orderOf req p no expiry" and ok: "schema_ok e c"
  shows "order_stage e req c (tx_prog t') (tx_log t') (set (tx_locks t')) \<or> harmless (tx_prog t')"
proof -
  let ?v = "(sell (cor_productId req) (cor_quantity req) c)\<lparr>t_idempotent := t_idempotent c @ [idem_row_for rec y]\<rparr>"
  let ?st = "uncounted (sql_insertOrder e order)"
  have view: "replay (tx_log t) c = ?v" using replay_stocked [OF held stocked] ok log by (simp add: schema_ok_def)
  from move_exec [OF assms(1) assms(2) [unfolded order_insert_def] view] obtain n v a where st: "?st n ?v = Some (v, a)" and
    t': "t' = \<lparr>tx_prog = order_mark e OrderAnswer req order,
      tx_log = (if written_locks e ?v v = [] then tx_log t else tx_log t @ [(n, ?st)]), tx_locks = tx_locks t @ written_locks e ?v v\<rparr>"
    by blast
  have tv: "t_order ?v = t_order c" by (simp add: sell_def)
  from st obtain x where fits: "order_fits e c order x" and v: "v = ?v\<lparr>t_order := t_order ?v @ [order_row_for e order x]\<rparr>"
    by (auto simp: uncounted_def sql_insertOrder_free order_fits_def tv split: option.splits if_splits)
  have "order_row_for e order x \<notin> set (t_order ?v)"
    using fits by (intro free_notin [of "order_key e"]) (simp add: order_fits_def order_row_for_def tv)
  then have "written_locks e ?v v = order_locks e (order_row_for e order x)" unfolding v by (rule written_insert)
  then have "written_locks e ?v v = [OrderLock (ckey e (ord_orderNo order)), OrderRequestLock (ckey e (ord_requestId order))]"
    by (simp only: order_locks_def order_row_for_def order_row.simps)
  moreover from this locks t' have "set (tx_locks t') = {key_lock e req, stock_lock req} \<union> numbers e order" by (simp add: insert_commute)
  ultimately show ?thesis using order_stage.mark [OF held stocked order fits, of n1 n2 n] t' log by simp
qed

lemma order_step_mark:
  assumes "tx_move e H c t t'" and "tx_prog t = order_mark e OrderAnswer req order"
    and log: "tx_log t = [(n1, sql_acquire e rec), (n2, sql_deductStock (cor_productId req) (cor_quantity req)), (n3, uncounted (sql_insertOrder e order))]"
    and locks: "set (tx_locks t) = {key_lock e req, stock_lock req} \<union> numbers e order" and held: "key_held e req c rec y"
    and stocked: "stocked req c p" and order: "order = orderOf req p no expiry" and fits: "order_fits e c order x" and ok: "schema_ok e c"
  shows "order_stage e req c (tx_prog t') (tx_log t') (set (tx_locks t')) \<or> harmless (tx_prog t')"
proof -
  let ?d = "c\<lparr>t_product := t_product (sell (cor_productId req) (cor_quantity req) c), t_order := t_order c @ [order_row_for e order x]\<rparr>"
  let ?r = "idem_row_for rec y"
  let ?v = "?d\<lparr>t_idempotent := t_idempotent ?d @ [?r]\<rparr>"
  let ?body = "orderSnapshot e order (cor_requestId req)"
  let ?st = "uncounted (sql_markSuccess e (cor_requestId req) ?body)"
  from ok have pok: "product_ok (t_product c)" by (simp add: schema_ok_def)
  have view: "replay (tx_log t) c = ?v" unfolding log replay_inserted [OF held stocked pok fits] by (simp add: sell_def)
  from move_exec [OF assms(1) assms(2) [unfolded order_mark_def] view] obtain n v a where st: "?st n ?v = Some (v, a)" and
    t': "t' = \<lparr>tx_prog = Commit (OrderAnswer (executed (Result_ok order (cor_requestId req)))),
      tx_log = (if written_locks e ?v v = [] then tx_log t else tx_log t @ [(n, ?st)]), tx_locks = tx_locks t @ written_locks e ?v v\<rparr>"
    by blast
  let ?r' = "?r\<lparr>ti_status := 1, ti_response_body := Some ?body\<rparr>"
  from held have row: "ti_request_id ?r = cor_requestId req" "ti_status ?r = 0"
    and new: "idem_lookup e (ckey e (cor_requestId req)) ?d = None"
    by (simp_all add: key_held_def idem_row_for_def idem_lookup_def first_where_None free_def list_all_iff)
  from st idem_markSuccess_new [OF new row] have v: "v = ?d\<lparr>t_idempotent := t_idempotent ?d @ [?r']\<rparr>"
    by (simp add: uncounted_def sql_markSuccess_def)
  have "?r \<notin> set (t_idempotent c)" "?r' \<notin> set (t_idempotent c)"
    using held row by (auto intro!: free_notin [of "idem_key e"] simp: key_held_def)
  moreover have "?r \<noteq> ?r'"
  proof
    assume "?r = ?r'"
    then have "ti_status ?r = ti_status ?r'" by (rule arg_cong)
    with row show False by simp
  qed
  ultimately have "written_locks e ?v v = [key_lock e req, key_lock e req]"
    using row by (simp add: v written_locks_def touched_last idempotent_locks_def)
  moreover from this locks t' have "set (tx_locks t') = {key_lock e req, stock_lock req} \<union> numbers e order" by auto
  ultimately show ?thesis using order_stage.commit [OF held stocked order fits, of n1 n2 n3 n] t' log by simp
qed

lemma order_stage_move:
  assumes "order_stage e req c (tx_prog t) (tx_log t) (set (tx_locks t))" and "tx_move e H c t t'" and ok: "schema_ok e c"
    and H: "\<And>h. h \<in> H \<Longrightarrow> later e h c"
  shows "order_stage e req c (tx_prog t') (tx_log t') (set (tx_locks t')) \<or> harmless (tx_prog t')"
  using assms(1)
proof cases
  case start
  from move_draw(2) [OF assms(2) start(1) [unfolded createOrder_prog_def]] obtain x where
    "t' = t\<lparr>tx_prog := order_acquire e OrderAnswer req (idemRecord req x)\<rparr>" by blast
  moreover have "idm_requestId (idemRecord req x) = cor_requestId req" by (simp add: idemRecord_def)
  from order_stage.acquire [OF this] have "order_stage e req c (order_acquire e OrderAnswer req (idemRecord req x)) [] {}" .
  ultimately show ?thesis using start by simp
next
  case (acquire rec)
  with order_step_acquire [OF assms(2)] show ?thesis by simp
next
  case (product rec y n1)
  with order_step_product [OF assms(2) product(1,2,3) _ H] show ?thesis by simp
next
  case (deduct rec y p n1)
  with order_step_deduct [OF assms(2) deduct(1,2,3) _ _ ok] show ?thesis by simp
next
  case (number rec y p n1 n2)
  from move_draw(1) [OF assms(2) number(1) [unfolded order_number_def]] obtain no where
    "t' = t\<lparr>tx_prog := Now (\<lambda>t. order_insert e OrderAnswer req (orderOf req p no (dbTimeAfter t kOrderExpireMinutes)))\<rparr>" by blast
  with number order_stage.date [OF number(4,5), of no n1 n2] show ?thesis by simp
next
  case (date rec y p no n1 n2)
  from move_draw(2) [OF assms(2) date(1)] obtain x where
    "t' = t\<lparr>tx_prog := order_insert e OrderAnswer req (orderOf req p no (dbTimeAfter x kOrderExpireMinutes))\<rparr>" by blast
  with date order_stage.insert [OF date(4,5) refl, of no "dbTimeAfter x kOrderExpireMinutes" n1 n2] show ?thesis by simp
next
  case (insert rec y p order no expiry n1 n2)
  with order_step_insert [OF assms(2) insert(1,2,3) _ _ _ ok] show ?thesis by simp
next
  case (mark rec y p order no expiry x n1 n2 n3)
  with order_step_mark [OF assms(2) mark(1,2,3) _ _ _ _ ok] show ?thesis by simp
next
  case commit
  with assms(2) show ?thesis by (cases rule: tx_move.cases) auto
qed

end
