(* ===== verification/PaymentStages.thy ===== *)
theory PaymentStages
  imports OrderStages
begin

text \<open>
  The progress of a payment callback through its transaction (\<open>pay_stage\<close>), as \<open>OrderStages\<close> for orders.
\<close>

lemma replay_append: "replay (xs @ ys) d = replay ys (replay xs d)"
  by (induction xs arbitrary: d) auto

section \<open>Stages of a payment\<close>

definition order_like :: "Order \<Rightarrow> order_row \<Rightarrow> bool" where
  "order_like order ord \<longleftrightarrow> ord_userId order = word_of_int (to_user_id ord) \<and> ord_totalAmountFen order = to_total_amount ord \<and>
     ord_orderNo order = to_order_no ord"

definition known_order :: "env \<Rightarrow> PaymentCallbackReq \<Rightarrow> db \<Rightarrow> Order \<Rightarrow> int64 \<Rightarrow> bool" where
  "known_order e cb c order amt \<longleftrightarrow> yuanStringToFen (pcr_amount cb) = Some amt \<and> amt = ord_totalAmountFen order \<and>
     (\<exists>ord. order_row_of e (pcr_orderNo cb) c = Some ord \<and> order_like order ord)"

definition pay_fits :: "env \<Rightarrow> db \<Rightarrow> Payment \<Rightarrow> int \<Rightarrow> bool" where
  "pay_fits e c payment t \<longleftrightarrow> dt_parse e (pay_callbackTime payment) = Some t \<and>
     free (pay_key e) (ckey e (pay_paymentNo payment)) (t_payment c) \<and>
     free (trade_key e) (ckey e (pay_channel payment), ckey e (pay_channelTradeNo payment)) (t_payment c)"

definition pending_order :: "env \<Rightarrow> PaymentCallbackReq \<Rightarrow> db \<Rightarrow> Order \<Rightarrow> int64 \<Rightarrow> order_row \<Rightarrow> bool" where
  "pending_order e cb c order amt ord \<longleftrightarrow> yuanStringToFen (pcr_amount cb) = Some amt \<and> amt = ord_totalAmountFen order \<and>
     order_row_of e (pcr_orderNo cb) c = Some ord \<and> order_like order ord \<and> to_status ord = 0"

definition known_account :: "db \<Rightarrow> Order \<Rightarrow> string \<Rightarrow> bool" where
  "known_account c order accountNo \<longleftrightarrow> (\<exists>a. account_row_of (ord_userId order) c = Some a \<and> ta_account_no a = accountNo)"

definition account_held :: "db \<Rightarrow> Order \<Rightarrow> int64 \<Rightarrow> account_row \<Rightarrow> bool" where
  "account_held c order amt a \<longleftrightarrow> account_row_of (ord_userId order) c = Some a \<and> ta_status a = 0 \<and> amt \<le> ta_balance a"

definition flow_fits :: "env \<Rightarrow> db \<Rightarrow> AccountFlow \<Rightarrow> bool" where
  "flow_fits e c flow \<longleftrightarrow> 0 < tf_amount (flow_row_for e flow) \<and>
     free (flow_key e) (ckey e (flw_requestId flow), FlowBizType_int (flw_bizType flow)) (t_account_flow c)"

definition message_fits :: "env \<Rightarrow> db \<Rightarrow> LocalMessage \<Rightarrow> bool" where
  "message_fits e c m \<longleftrightarrow> free (message_key e) (ckey e (msg_messageId m)) (t_local_message c)"

abbreviation payment_numbers :: "env \<Rightarrow> Payment \<Rightarrow> lock set" where
  "payment_numbers e p \<equiv> {PaymentLock (ckey e (pay_paymentNo p)), TradeLock (ckey e (pay_channel p)) (ckey e (pay_channelTradeNo p))}"

abbreviation paid_locks :: "env \<Rightarrow> Payment \<Rightarrow> order_row \<Rightarrow> lock set" where
  "paid_locks e p ord \<equiv> payment_numbers e p \<union> set (order_locks e ord)"

abbreviation debit_locks :: "env \<Rightarrow> Payment \<Rightarrow> order_row \<Rightarrow> account_row \<Rightarrow> lock set" where
  "debit_locks e p ord a \<equiv> paid_locks e p ord \<union> {AccountLock (ckey e (ta_account_no a))}"

abbreviation flow_lock :: "env \<Rightarrow> AccountFlow \<Rightarrow> lock" where
  "flow_lock e f \<equiv> FlowLock (ckey e (flw_requestId f)) (FlowBizType_int (flw_bizType f))"

abbreviation paid_log :: "env \<Rightarrow> PaymentCallbackReq \<Rightarrow> Payment \<Rightarrow> nat \<Rightarrow> nat \<Rightarrow> redo" where
  "paid_log e cb p n1 n2 \<equiv> [(n1, sql_insertPayment e p), (n2, sql_markPaid e (pcr_orderNo cb))]"

abbreviation debit_log :: "env \<Rightarrow> PaymentCallbackReq \<Rightarrow> Payment \<Rightarrow> account_row \<Rightarrow> int64 \<Rightarrow> nat \<Rightarrow> nat \<Rightarrow> nat \<Rightarrow> redo" where
  "debit_log e cb p a amt n1 n2 n3 \<equiv> paid_log e cb p n1 n2 @ [(n3, sql_deduct e (ta_account_no a) amt)]"

inductive pay_stage :: "env \<Rightarrow> PaymentCallbackReq \<Rightarrow> db \<Rightarrow> answer prog \<Rightarrow> redo \<Rightarrow> lock set \<Rightarrow> bool" for e cb c where
  start: "pay_stage e cb c (handleCallback_prog e PayAnswer cb raw) [] {}"
| number: "known_order e cb c order amt \<Longrightarrow> pay_stage e cb c (pay_number e PayAnswer cb raw order amt) [] {}"
| recording: "known_order e cb c order amt \<Longrightarrow> p = paymentOf cb raw no amt time \<Longrightarrow>
    pay_stage e cb c (pay_record e PayAnswer cb order p) [] {}"
| settle: "known_order e cb c order amt \<Longrightarrow> p = paymentOf cb raw no amt time \<Longrightarrow> pay_fits e c p t \<Longrightarrow>
    pay_stage e cb c (pay_settle e PayAnswer cb order amt) [(n1, sql_insertPayment e p)] (payment_numbers e p)"
| account: "p = paymentOf cb raw no amt time \<Longrightarrow> pay_fits e c p t \<Longrightarrow> pending_order e cb c order amt ord \<Longrightarrow>
    pay_stage e cb c (pay_account e PayAnswer cb order amt) (paid_log e cb p n1 n2) (paid_locks e p ord)"
| deduct: "p = paymentOf cb raw no amt time \<Longrightarrow> pay_fits e c p t \<Longrightarrow> pending_order e cb c order amt ord \<Longrightarrow> known_account c order accountNo \<Longrightarrow>
    pay_stage e cb c (pay_deduct e PayAnswer cb order amt accountNo) (paid_log e cb p n1 n2) (paid_locks e p ord)"
| after: "p = paymentOf cb raw no amt time \<Longrightarrow> pay_fits e c p t \<Longrightarrow> pending_order e cb c order amt ord \<Longrightarrow> account_held c order amt a \<Longrightarrow>
    pay_stage e cb c (pay_after e PayAnswer cb order amt (ta_account_no a)) (debit_log e cb p a amt n1 n2 n3) (debit_locks e p ord a)"
| flow: "p = paymentOf cb raw no amt time \<Longrightarrow> pay_fits e c p t \<Longrightarrow> pending_order e cb c order amt ord \<Longrightarrow> account_held c order amt a \<Longrightarrow>
    f = flowOf cb (ta_account_no a) amt (ta_balance a - amt) \<Longrightarrow>
    pay_stage e cb c (pay_flow e PayAnswer cb order f) (debit_log e cb p a amt n1 n2 n3) (debit_locks e p ord a)"
| message: "p = paymentOf cb raw no amt time \<Longrightarrow> pay_fits e c p t \<Longrightarrow> pending_order e cb c order amt ord \<Longrightarrow> account_held c order amt a \<Longrightarrow>
    f = flowOf cb (ta_account_no a) amt (ta_balance a - amt) \<Longrightarrow> flow_fits e c f \<Longrightarrow>
    pay_stage e cb c (pay_message_id e PayAnswer cb order cfg)
      (debit_log e cb p a amt n1 n2 n3 @ [(n4, uncounted (sql_insertFlow e f))]) (debit_locks e p ord a \<union> {flow_lock e f})"
| store: "p = paymentOf cb raw no amt time \<Longrightarrow> pay_fits e c p t \<Longrightarrow> pending_order e cb c order amt ord \<Longrightarrow> account_held c order amt a \<Longrightarrow>
    f = flowOf cb (ta_account_no a) amt (ta_balance a - amt) \<Longrightarrow> flow_fits e c f \<Longrightarrow> m = messageOf e cb order mid ex rk \<Longrightarrow>
    pay_stage e cb c (pay_store e PayAnswer cb m)
      (debit_log e cb p a amt n1 n2 n3 @ [(n4, uncounted (sql_insertFlow e f))]) (debit_locks e p ord a \<union> {flow_lock e f})"
| commit: "p = paymentOf cb raw no amt time \<Longrightarrow> pay_fits e c p t \<Longrightarrow> pending_order e cb c order amt ord \<Longrightarrow> account_held c order amt a \<Longrightarrow>
    f = flowOf cb (ta_account_no a) amt (ta_balance a - amt) \<Longrightarrow> flow_fits e c f \<Longrightarrow> m = messageOf e cb order mid ex rk \<Longrightarrow> message_fits e c m \<Longrightarrow>
    pay_stage e cb c (Commit (PayAnswer (Result_ok (paidData cb) (pcr_requestId cb))))
      (debit_log e cb p a amt n1 n2 n3 @ [(n4, uncounted (sql_insertFlow e f)), (n5, uncounted (sql_insertMessage e m))])
      (debit_locks e p ord a \<union> {flow_lock e f, MessageLock (ckey e (msg_messageId m))})"

text \<open>The commits of others.\<close>

lemma known_order_foreign: "known_order e cb c order amt \<Longrightarrow> foreign e L c c' \<Longrightarrow> known_order e cb c' order amt"
  unfolding known_order_def using foreign_later [of e L c c'] later_order [of e c c' "pcr_orderNo cb"]
  by (metis (no_types, lifting) order_like_def)

lemma pay_fits_foreign: "pay_fits e c p t \<Longrightarrow> foreign e L c c' \<Longrightarrow> payment_numbers e p \<subseteq> L \<Longrightarrow> pay_fits e c' p t"
  by (simp add: pay_fits_def foreign_def)

lemma pending_order_foreign:
  "pending_order e cb c order amt ord \<Longrightarrow> foreign e L c c' \<Longrightarrow> set (order_locks e ord) \<subseteq> L \<Longrightarrow> pending_order e cb c' order amt ord"
  using order_row_of_SomeD [of e "pcr_orderNo cb" c ord] by (simp add: pending_order_def foreign_def order_locks_def)

lemma known_account_foreign: "known_account c order no \<Longrightarrow> foreign e L c c' \<Longrightarrow> known_account c' order no"
  unfolding known_account_def using foreign_later [of e L c c'] later_account [of e c c' "ord_userId order"] by metis

lemma account_held_foreign:
  "account_held c order amt a \<Longrightarrow> foreign e L c c' \<Longrightarrow> AccountLock (ckey e (ta_account_no a)) \<in> L \<Longrightarrow> account_held c' order amt a"
  by (simp add: account_held_def foreign_def)

lemma flow_fits_foreign: "flow_fits e c f \<Longrightarrow> foreign e L c c' \<Longrightarrow> flow_lock e f \<in> L \<Longrightarrow> flow_fits e c' f"
  by (simp add: flow_fits_def foreign_def)

lemma message_fits_foreign: "message_fits e c m \<Longrightarrow> foreign e L c c' \<Longrightarrow> MessageLock (ckey e (msg_messageId m)) \<in> L \<Longrightarrow> message_fits e c' m"
  by (simp add: message_fits_def foreign_def)

lemmas pay_facts_foreign = known_order_foreign pay_fits_foreign pending_order_foreign known_account_foreign account_held_foreign
  flow_fits_foreign message_fits_foreign

lemma pay_stage_foreign:
  assumes "pay_stage e cb c p log L" and "foreign e L c c'"
  shows "pay_stage e cb c' p log L"
  using assms
proof (induction rule: pay_stage.induct)
  case start
  show ?case by (rule pay_stage.start)
next
  case number
  from known_order_foreign [OF number] show ?case by (rule pay_stage.number)
next
  case recording
  from known_order_foreign [OF recording(1,3)] recording(2) show ?case by (rule pay_stage.recording)
next
  case settle
  from known_order_foreign [OF settle(1,4)] settle(2) pay_fits_foreign [OF settle(3,4)] show ?case by (intro pay_stage.settle) (simp_all add: subset_insertI2)
next
  case account
  from account(1) pay_fits_foreign [OF account(2,4)] pending_order_foreign [OF account(3,4)] show ?case by (intro pay_stage.account) (simp_all add: subset_insertI2)
next
  case deduct
  from deduct(1) pay_fits_foreign [OF deduct(2,5)] pending_order_foreign [OF deduct(3,5)] known_account_foreign [OF deduct(4,5)]
  show ?case by (intro pay_stage.deduct) (simp_all add: subset_insertI2)
next
  case after
  from after(1) pay_fits_foreign [OF after(2,5)] pending_order_foreign [OF after(3,5)] account_held_foreign [OF after(4,5)]
  show ?case by (intro pay_stage.after) (simp_all add: subset_insertI2)
next
  case flow
  from flow(1) pay_fits_foreign [OF flow(2,6)] pending_order_foreign [OF flow(3,6)] account_held_foreign [OF flow(4,6)] flow(5)
  show ?case by (intro pay_stage.flow) (simp_all add: subset_insertI2)
next
  case message
  from message(1) pay_fits_foreign [OF message(2,7)] pending_order_foreign [OF message(3,7)] account_held_foreign [OF message(4,7)] message(5)
    flow_fits_foreign [OF message(6,7)] show ?case by (intro pay_stage.message) (simp_all add: subset_insertI2)
next
  case store
  from store(1) pay_fits_foreign [OF store(2,8)] pending_order_foreign [OF store(3,8)] account_held_foreign [OF store(4,8)] store(5)
    flow_fits_foreign [OF store(6,8)] store(7) show ?case by (intro pay_stage.store) (simp_all add: subset_insertI2)
next
  case commit
  from commit(1) pay_fits_foreign [OF commit(2,9)] pending_order_foreign [OF commit(3,9)] account_held_foreign [OF commit(4,9)] commit(5)
    flow_fits_foreign [OF commit(6,9)] commit(7) message_fits_foreign [OF commit(8,9)] show ?case by (intro pay_stage.commit) (simp_all add: subset_insertI2)
qed

text \<open>The tables as the transaction sees them.\<close>

abbreviation recorded_view :: "env \<Rightarrow> Payment \<Rightarrow> int \<Rightarrow> db \<Rightarrow> db" where
  "recorded_view e p t c \<equiv> c\<lparr>t_payment := t_payment c @ [payment_row_for e p t]\<rparr>"

abbreviation paid_view :: "env \<Rightarrow> PaymentCallbackReq \<Rightarrow> Payment \<Rightarrow> int \<Rightarrow> nat \<Rightarrow> db \<Rightarrow> db" where
  "paid_view e cb p t n2 c \<equiv> pay_order e (pcr_orderNo cb) n2 (recorded_view e p t c)"

abbreviation debit_view :: "env \<Rightarrow> PaymentCallbackReq \<Rightarrow> Payment \<Rightarrow> int \<Rightarrow> nat \<Rightarrow> account_row \<Rightarrow> int64 \<Rightarrow> db \<Rightarrow> db" where
  "debit_view e cb p t n2 a amt c \<equiv> debit e (ta_account_no a) amt (paid_view e cb p t n2 c)"

lemma replay_recorded: "pay_fits e c p t \<Longrightarrow> replay [(n1, sql_insertPayment e p)] c = recorded_view e p t c"
  by (simp add: pay_fits_def sql_insertPayment_free)

lemma replay_paid:
  assumes "pay_fits e c p t" and "pending_order e cb c order amt ord" and "order_ok e (t_order c)"
  shows "replay (paid_log e cb p n1 n2) c = paid_view e cb p t n2 c"
proof -
  have "order_pending e (pcr_orderNo cb) (recorded_view e p t c)"
    using assms(2) by (simp add: order_pending_def pending_order_def order_row_of_def)
  with replay_recorded [OF assms(1), of n1] assms(3) show ?thesis by (simp add: sql_markPaid_def order_markPaid_eq)
qed

lemma pending_amount: "pending_order e cb c order amt ord \<Longrightarrow> \<bar>amt\<bar> < 10 ^ 18"
  using yuanStringToFen_bound [of "pcr_amount cb" amt] by (simp add: pending_order_def)

lemma account_row_paid_view [simp]: "account_row_of u (paid_view e cb p t n2 c) = account_row_of u c"
  by (simp add: account_row_of_def pay_order_def)

lemma tables_paid_view [simp]:
  "t_account (paid_view e cb p t n2 c) = t_account c" "t_account_flow (paid_view e cb p t n2 c) = t_account_flow c"
  "t_local_message (paid_view e cb p t n2 c) = t_local_message c"
  by (simp_all add: pay_order_def)

lemma replay_debited:
  assumes "pay_fits e c p t" and "pending_order e cb c order amt ord" and "account_held c order amt a" and "schema_ok e c"
  shows "replay (debit_log e cb p a amt n1 n2 n3) c = debit_view e cb p t n2 a amt c"
proof -
  let ?v = "paid_view e cb p t n2 c"
  from assms(4) have ok: "order_ok e (t_order c)" "account_ok e (t_account ?v)" by (simp_all add: schema_ok_def)
  from assms(3) have "account_row_of (ord_userId order) ?v = Some a" by (simp add: account_held_def)
  from spendable_user [OF this ok(2)] assms(3) have "spendable e (ta_account_no a) ?v = Some (ta_balance a)" "amt \<le> ta_balance a"
    by (simp_all add: account_held_def)
  then have "sql_deduct e (ta_account_no a) amt n3 ?v = Some (debit_view e cb p t n2 a amt c, 1)"
    using pending_amount [OF assms(2)] by (simp add: sql_deduct_def account_dec_eq [OF ok(2)] Let_def)
  then show ?thesis unfolding replay_append replay_paid [OF assms(1,2) ok(1)] by simp
qed

lemma tables_debit_view [simp]:
  "t_account_flow (debit_view e cb p t n2 a amt c) = t_account_flow c"
  "t_local_message (debit_view e cb p t n2 a amt c) = t_local_message c"
  by (simp_all add: debit_def pay_order_def)

lemma replay_flow:
  assumes "pay_fits e c p t" and "pending_order e cb c order amt ord" and "account_held c order amt a" and "schema_ok e c"
    and "flow_fits e c f"
  shows "replay (debit_log e cb p a amt n1 n2 n3 @ [(n4, uncounted (sql_insertFlow e f))]) c =
    (debit_view e cb p t n2 a amt c)\<lparr>t_account_flow := t_account_flow c @ [flow_row_for e f]\<rparr>"
  unfolding replay_append [of "debit_log e cb p a amt n1 n2 n3"] replay_debited [OF assms(1-4)]
  using assms(5) by (simp add: uncounted_def sql_insertFlow_free flow_fits_def)

lemma replay_settled:
  assumes "pay_fits e c p t" and "pending_order e cb c order amt ord" and "account_held c order amt a" and "schema_ok e c"
    and "flow_fits e c f" and "message_fits e c m"
  shows "replay (debit_log e cb p a amt n1 n2 n3 @ [(n4, uncounted (sql_insertFlow e f)), (n5, uncounted (sql_insertMessage e m))]) c =
    paid_db e (pcr_orderNo cb) n2 (ta_account_no a) amt (payment_row_for e p t) (flow_row_for e f) (message_row_for e m n5) c"
proof -
  have "replay (debit_log e cb p a amt n1 n2 n3 @ [(n4, uncounted (sql_insertFlow e f)), (n5, uncounted (sql_insertMessage e m))]) c =
    replay [(n5, uncounted (sql_insertMessage e m))] (replay (debit_log e cb p a amt n1 n2 n3 @ [(n4, uncounted (sql_insertFlow e f))]) c)"
    by (simp add: replay_append)
  then show ?thesis
    unfolding replay_flow [OF assms(1-5)] using assms(6)
    by (simp add: uncounted_def sql_insertMessage_free message_fits_def paid_db_def debit_def pay_order_def)
qed

text \<open>Reading back the account that the transaction has debited.\<close>

lemma read_account_held:
  assumes "AccountLock (ckey e (ta_account_no a)) \<in> set held" and "account_row_of u new = Some a" and "account_ok e (t_account new)"
    and "account_ok e (t_account old)" and "\<And>r. account_row_of u old = Some r \<Longrightarrow> ta_account_no r = ta_account_no a"
  shows "account_row_of u (read_view e held old new) = Some a"
proof -
  let ?old = "filter (\<lambda>r. \<not> list_ex (\<lambda>l. l \<in> set held) (account_locks e r)) (t_account old)"
  let ?new = "filter (\<lambda>r. list_ex (\<lambda>l. l \<in> set held) (account_locks e r)) (t_account new)"
  from first_where_Some [OF assms(2) [unfolded account_row_of_def]] have a: "a \<in> set (t_account new)" "ta_user_id a = sint u" by simp_all
  have "first_where (\<lambda>r. ta_user_id r = sint u) ?old = None"
    unfolding first_where_None
  proof (intro ballI notI)
    fix r
    assume r: "r \<in> set ?old" "ta_user_id r = sint u"
    then have "account_row_of u old = Some r"
      using assms(4) first_where_unique [of ta_user_id "t_account old" r] by (simp add: account_row_of_def account_ok_def)
    with assms(5) have "ta_account_no r = ta_account_no a" .
    with r(1) assms(1) show False by (simp add: account_locks_def)
  qed
  moreover have "first_where (\<lambda>r. ta_user_id r = sint u) ?new = Some a"
    using a assms(1,3) by (intro first_where_unique) (auto simp: account_ok_def account_locks_def distinct_map inj_on_def)
  ultimately show ?thesis by (simp add: account_row_of_def read_view_def overlay_def first_where_append)
qed

lemma harmless_or_refuse: "harmless (or_refuse v k) \<longleftrightarrow> (\<forall>x. v = Some x \<longrightarrow> harmless (k x))"
  by (cases v) (simp_all add: or_refuse_def)

lemma pay_step_start:
  assumes "tx_move e H c t t'" and "tx_prog t = handleCallback_prog e PayAnswer cb raw" and "tx_log t = []" "tx_locks t = []"
    and "\<And>h. h \<in> H \<Longrightarrow> later e h c"
  shows "pay_stage e cb c (tx_prog t') (tx_log t') (set (tx_locks t')) \<or> harmless (tx_prog t')"
proof -
  from move_select [OF assms(1) assms(2) [unfolded handleCallback_prog_def]] obtain h where h: "h \<in> H" and
    t': "t' = t\<lparr>tx_prog := (case map_option (order_of_row e) (order_row_of e (pcr_orderNo cb)
          (read_view e (tx_locks t) h (replay (tx_log t) c))) of
         None \<Rightarrow> refuse kOrderNotFound msg_order_missing
       | Some order \<Rightarrow>
           (case yuanStringToFen (pcr_amount cb) of
              None \<Rightarrow> refuse kAmountMismatch msg_amount_mismatch
            | Some amountFen \<Rightarrow>
                if amountFen \<noteq> ord_totalAmountFen order then refuse kAmountMismatch msg_amount_mismatch
                else pay_number e PayAnswer cb raw order amountFen))\<rparr>" by blast
  have read: "order_row_of e (pcr_orderNo cb) (read_view e (tx_locks t) h (replay (tx_log t) c)) = order_row_of e (pcr_orderNo cb) h"
    using assms(4) by (intro read_unlocked) auto
  show ?thesis
  proof (cases "order_row_of e (pcr_orderNo cb) h")
    case None
    with t' read show ?thesis by simp
  next
    case (Some r)
    show ?thesis
    proof (cases "yuanStringToFen (pcr_amount cb) = Some (to_total_amount r)")
      case True
      obtain r' where "order_row_of e (pcr_orderNo cb) c = Some r'" "order_like (order_of_row e r) r'"
        by (rule later_order [OF assms(5) [OF h] Some]) (simp add: order_like_def)
      with True have "known_order e cb c (order_of_row e r) (to_total_amount r)" by (auto simp: known_order_def)
      from pay_stage.number [OF this] t' read Some True assms(3,4) show ?thesis by simp
    qed (use t' read Some in \<open>simp split: option.split\<close>)
  qed
qed

lemma pay_step_record:
  assumes "tx_move e H c t t'" and "tx_prog t = pay_record e PayAnswer cb order p" and "tx_log t = []" "tx_locks t = []"
    and known: "known_order e cb c order amt" and p: "p = paymentOf cb raw no amt time"
  shows "pay_stage e cb c (tx_prog t') (tx_log t') (set (tx_locks t')) \<or> harmless (tx_prog t')"
proof -
  from assms(3) have "replay (tx_log t) c = c" by simp
  from move_exec [OF assms(1) assms(2) [unfolded pay_record_def] this] obtain n v a where st: "sql_insertPayment e p n c = Some (v, a)" and
    t': "t' = \<lparr>tx_prog = (if a = 1 then pay_settle e PayAnswer cb order (pay_amountFen p) else pay_repeated e PayAnswer cb),
      tx_log = (if written_locks e c v = [] then tx_log t else tx_log t @ [(n, sql_insertPayment e p)]), tx_locks = tx_locks t @ written_locks e c v\<rparr>"
    by blast
  show ?thesis
  proof (cases "a = 1")
    case True
    with st obtain x where fits: "pay_fits e c p x" and v: "v = c\<lparr>t_payment := t_payment c @ [payment_row_for e p x]\<rparr>"
      by (auto simp: sql_insertPayment_free pay_fits_def split: option.splits if_splits)
    have "payment_row_for e p x \<notin> set (t_payment c)"
      using fits by (intro free_notin [of "pay_key e"]) (simp add: pay_fits_def payment_row_for_def)
    then have "written_locks e c v = payment_locks e (payment_row_for e p x)" unfolding v by (rule written_insert)
    then have "written_locks e c v = [PaymentLock (ckey e (pay_paymentNo p)), TradeLock (ckey e (pay_channel p)) (ckey e (pay_channelTradeNo p))]"
      by (simp add: payment_locks_def payment_row_for_def)
    moreover have "pay_amountFen p = amt" by (simp add: p paymentOf_def)
    ultimately show ?thesis using pay_stage.settle [OF known p fits, of n] t' True assms(3,4) by simp
  qed (simp add: t')
qed

lemma pay_step_settle:
  assumes "tx_move e H c t t'" and "tx_prog t = pay_settle e PayAnswer cb order amt" and log: "tx_log t = [(n1, sql_insertPayment e p)]"
    and locks: "set (tx_locks t) = payment_numbers e p" and known: "known_order e cb c order amt"
    and p: "p = paymentOf cb raw no amt time" and fits: "pay_fits e c p x" and ok: "schema_ok e c"
  shows "pay_stage e cb c (tx_prog t') (tx_log t') (set (tx_locks t')) \<or> harmless (tx_prog t')"
proof -
  let ?v = "recorded_view e p x c" and ?st = "sql_markPaid e (pcr_orderNo cb)"
  have view: "replay (tx_log t) c = ?v" using replay_recorded [OF fits] log by simp
  from move_exec [OF assms(1) assms(2) [unfolded pay_settle_def] view] obtain n v a where st: "?st n ?v = Some (v, a)" and
    t': "t' = \<lparr>tx_prog = (if a = 0 then pay_beaten e PayAnswer cb else pay_account e PayAnswer cb order amt),
      tx_log = (if written_locks e ?v v = [] then tx_log t else tx_log t @ [(n, ?st)]), tx_locks = tx_locks t @ written_locks e ?v v\<rparr>"
    by blast
  show ?thesis
  proof (cases "a = 0")
    case False
    from known obtain ord where ord: "order_row_of e (pcr_orderNo cb) c = Some ord" "order_like order ord" by (auto simp: known_order_def)
    from ok have ook: "order_ok e (t_order ?v)" by (simp add: schema_ok_def)
    from ord have ov: "order_row_of e (pcr_orderNo cb) ?v = Some ord" by (simp add: order_row_of_def)
    from st False ook ov have v: "v = pay_order e (pcr_orderNo cb) n ?v" and status: "to_status ord = 0"
      by (auto simp: sql_markPaid_def order_markPaid_eq order_pending_def split: if_splits)
    with ord known have pending: "pending_order e cb c order amt ord" by (simp add: pending_order_def known_order_def)
    have ls: "set (written_locks e ?v v) = set (order_locks e ord)" unfolding v by (rule written_pay_order [OF ook ov status])
    then have "written_locks e ?v v \<noteq> []" by (metis empty_iff list.set(1) list.set_intros(1) order_locks_def)
    moreover from ls locks t' have "set (tx_locks t') = paid_locks e p ord" by simp
    ultimately show ?thesis using pay_stage.account [OF p fits pending, of n1 n] t' False log by simp
  qed (simp add: t')
qed

lemma pay_step_account:
  assumes "tx_move e H c t t'" and "tx_prog t = pay_account e PayAnswer cb order amt" and log: "tx_log t = paid_log e cb p n1 n2"
    and locks: "set (tx_locks t) = paid_locks e p ord" and p: "p = paymentOf cb raw no amt time" and fits: "pay_fits e c p x"
    and pending: "pending_order e cb c order amt ord" and H: "\<And>h. h \<in> H \<Longrightarrow> later e h c"
  shows "pay_stage e cb c (tx_prog t') (tx_log t') (set (tx_locks t')) \<or> harmless (tx_prog t')"
proof -
  from move_select [OF assms(1) assms(2) [unfolded pay_account_def]] obtain h where h: "h \<in> H" and
    t': "t' = t\<lparr>tx_prog := (case map_option account_of_row (account_row_of (ord_userId order)
          (read_view e (tx_locks t) h (replay (tx_log t) c))) of
         None \<Rightarrow> refuse kAccountNotFound msg_account_missing
       | Some a \<Rightarrow> pay_deduct e PayAnswer cb order amt (acc_accountNo a))\<rparr>" by blast
  have read: "account_row_of (ord_userId order) (read_view e (tx_locks t) h (replay (tx_log t) c)) = account_row_of (ord_userId order) h"
    using locks by (intro read_unlocked) (auto simp: order_locks_def)
  show ?thesis
  proof (cases "account_row_of (ord_userId order) h")
    case None
    with t' read show ?thesis by simp
  next
    case (Some a)
    from later_account [OF H [OF h] Some] have "known_account c order (ta_account_no a)" by (auto simp: known_account_def)
    from pay_stage.deduct [OF p fits pending this, of n1 n2] t' read Some log locks show ?thesis by (simp add: account_of_row_def)
  qed
qed

lemma pay_step_deduct:
  assumes "tx_move e H c t t'" and "tx_prog t = pay_deduct e PayAnswer cb order amt accountNo" and log: "tx_log t = paid_log e cb p n1 n2"
    and locks: "set (tx_locks t) = paid_locks e p ord" and p: "p = paymentOf cb raw no amt time" and fits: "pay_fits e c p x"
    and pending: "pending_order e cb c order amt ord" and known: "known_account c order accountNo" and ok: "schema_ok e c"
  shows "pay_stage e cb c (tx_prog t') (tx_log t') (set (tx_locks t')) \<or> harmless (tx_prog t')"
proof -
  let ?v = "paid_view e cb p x n2 c" and ?st = "sql_deduct e accountNo amt"
  from ok have ook: "order_ok e (t_order c)" and aok: "account_ok e (t_account ?v)" by (simp_all add: schema_ok_def)
  have view: "replay (tx_log t) c = ?v" unfolding log by (rule replay_paid [OF fits pending ook])
  from move_exec [OF assms(1) assms(2) [unfolded pay_deduct_def] view] obtain n v a where st: "?st n ?v = Some (v, a)" and
    t': "t' = \<lparr>tx_prog = (if a = 0 then refuse kBalanceNotEnough msg_balance_short else pay_after e PayAnswer cb order amt accountNo),
      tx_log = (if written_locks e ?v v = [] then tx_log t else tx_log t @ [(n, ?st)]), tx_locks = tx_locks t @ written_locks e ?v v\<rparr>"
    by blast
  show ?thesis
  proof (cases "a = 0")
    case False
    from known obtain acc where acc: "account_row_of (ord_userId order) c = Some acc" "ta_account_no acc = accountNo" by (auto simp: known_account_def)
    then have av: "account_row_of (ord_userId order) ?v = Some acc" by simp
    from st False spendable_user [OF av aok] pending_amount [OF pending] acc(2)
    have v: "v = debit e (ta_account_no acc) amt ?v" and "ta_status acc = 0" "amt \<le> ta_balance acc"
      by (auto simp: sql_deduct_def account_dec_eq [OF aok] Let_def split: if_splits)
    with acc have held: "account_held c order amt acc" by (simp add: account_held_def)
    have ls: "set (written_locks e ?v v) = {AccountLock (ckey e (ta_account_no acc))}" unfolding v by (rule written_debit [OF aok av])
    then have "written_locks e ?v v \<noteq> []" by (rule set_single_nonempty)
    moreover from ls locks t' have "set (tx_locks t') = debit_locks e p ord acc" by simp
    ultimately show ?thesis using pay_stage.after [OF p fits pending held, of n1 n2 n] t' False log acc(2) by simp
  qed (simp add: t')
qed

lemma pay_step_after:
  assumes "tx_move e H c t t'" and "tx_prog t = pay_after e PayAnswer cb order amt (ta_account_no a)"
    and log: "tx_log t = debit_log e cb p a amt n1 n2 n3" and locks: "set (tx_locks t) = debit_locks e p ord a"
    and p: "p = paymentOf cb raw no amt time" and fits: "pay_fits e c p x" and pending: "pending_order e cb c order amt ord"
    and held: "account_held c order amt a" and ok: "schema_ok e c"
    and H: "\<And>h. h \<in> H \<Longrightarrow> later e h c" "\<And>h. h \<in> H \<Longrightarrow> schema_ok e h"
  shows "pay_stage e cb c (tx_prog t') (tx_log t') (set (tx_locks t')) \<or> harmless (tx_prog t')"
proof -
  let ?v = "debit_view e cb p x n2 a amt c" and ?a = "a\<lparr>ta_balance := ta_balance a - amt, ta_version := ta_version a + 1\<rparr>"
  have view: "replay (tx_log t) c = ?v" unfolding log by (rule replay_debited [OF fits pending held ok])
  from move_select [OF assms(1) assms(2) [unfolded pay_after_def]] view obtain h where h: "h \<in> H" and
    t': "t' = t\<lparr>tx_prog := (case map_option account_of_row (account_row_of (ord_userId order) (read_view e (tx_locks t) h ?v)) of
         None \<Rightarrow> Stuck
       | Some a' \<Rightarrow> pay_flow e PayAnswer cb order (flowOf cb (ta_account_no a) amt (acc_balanceFen a')))\<rparr>" by metis
  from ok have aok: "account_ok e (t_account (paid_view e cb p x n2 c))" by (simp add: schema_ok_def)
  from held have av: "account_row_of (ord_userId order) (paid_view e cb p x n2 c) = Some a" by (simp add: account_held_def)
  have "account_row_of (ord_userId order) (read_view e (tx_locks t) h ?v) = Some ?a"
  proof (rule read_account_held)
    show "AccountLock (ckey e (ta_account_no ?a)) \<in> set (tx_locks t)" using locks by simp
    show "account_row_of (ord_userId order) ?v = Some ?a" by (rule account_row_of_debit [OF av aok])
    show "account_ok e (t_account ?v)"
    proof (rule account_ok_debit [OF aok])
      fix r
      assume "account_row_no e (ta_account_no a) (paid_view e cb p x n2 c) = Some r"
      with spendable_user [OF av aok] held show "amt \<le> ta_balance r" by (simp add: spendable_def account_held_def split: if_splits)
    qed
    show "account_ok e (t_account h)" using H(2) [OF h] by (simp add: schema_ok_def)
    fix r
    assume "account_row_of (ord_userId order) h = Some r"
    then obtain r' where "account_row_of (ord_userId order) c = Some r'" "ta_account_no r' = ta_account_no r"
      by (rule later_account [OF H(1) [OF h]])
    with held show "ta_account_no r = ta_account_no ?a" by (simp add: account_held_def)
  qed
  with t' have "t' = t\<lparr>tx_prog := pay_flow e PayAnswer cb order (flowOf cb (ta_account_no a) amt (ta_balance a - amt))\<rparr>"
    by (simp add: account_of_row_def)
  with pay_stage.flow [OF p fits pending held refl, of n1 n2 n3] log locks show ?thesis by simp
qed

lemma pay_step_flow:
  assumes "tx_move e H c t t'" and "tx_prog t = pay_flow e PayAnswer cb order f"
    and log: "tx_log t = debit_log e cb p a amt n1 n2 n3" and locks: "set (tx_locks t) = debit_locks e p ord a"
    and p: "p = paymentOf cb raw no amt time" and fits: "pay_fits e c p x" and pending: "pending_order e cb c order amt ord"
    and held: "account_held c order amt a" and f: "f = flowOf cb (ta_account_no a) amt (ta_balance a - amt)" and ok: "schema_ok e c"
  shows "pay_stage e cb c (tx_prog t') (tx_log t') (set (tx_locks t')) \<or> harmless (tx_prog t')"
proof -
  let ?v = "debit_view e cb p x n2 a amt c" and ?st = "uncounted (sql_insertFlow e f)"
  have view: "replay (tx_log t) c = ?v" unfolding log by (rule replay_debited [OF fits pending held ok])
  from move_exec [OF assms(1) assms(2) [unfolded pay_flow_def] view] obtain n v k where st: "?st n ?v = Some (v, k)" and
    t': "t' = \<lparr>tx_prog = pay_message e PayAnswer cb order,
      tx_log = (if written_locks e ?v v = [] then tx_log t else tx_log t @ [(n, ?st)]), tx_locks = tx_locks t @ written_locks e ?v v\<rparr>"
    by blast
  from st have fit: "flow_fits e c f" and v: "v = ?v\<lparr>t_account_flow := t_account_flow ?v @ [flow_row_for e f]\<rparr>"
    by (auto simp: uncounted_def sql_insertFlow_free flow_fits_def split: if_splits)
  have "flow_row_for e f \<notin> set (t_account_flow ?v)"
    using fit by (intro free_notin [of "flow_key e"]) (simp add: flow_fits_def flow_row_for_def)
  then have "written_locks e ?v v = flow_locks e (flow_row_for e f)" unfolding v by (rule written_insert)
  then have ls: "written_locks e ?v v = [flow_lock e f]" by (simp add: flow_locks_def flow_row_for_def)
  with locks t' have "set (tx_locks t') = debit_locks e p ord a \<union> {flow_lock e f}" by (simp add: insert_commute)
  with pay_stage.message [OF p fits pending held f fit, of _ n1 n2 n3 n] t' ls log show ?thesis
    by (cases "jget (custom_config e) ''rabbitmq''") (simp_all add: pay_message_def or_refuse_def)
qed

lemma pay_step_message:
  assumes "tx_move e H c t t'" and "tx_prog t = pay_message_id e PayAnswer cb order cfg"
    and "\<And>mid ex rk. pay_stage e cb c (pay_store e PayAnswer cb (messageOf e cb order mid ex rk)) (tx_log t) (set (tx_locks t))"
  shows "pay_stage e cb c (tx_prog t') (tx_log t') (set (tx_locks t')) \<or> harmless (tx_prog t')"
proof -
  from move_draw(1) [OF assms(1) assms(2) [unfolded pay_message_id_def]] obtain mid where
    "t' = t\<lparr>tx_prog := or_refuse (memberOr cfg ''exchange'' ''trade.exchange'') (\<lambda>exchange.
         or_refuse (memberOr cfg ''routing_key_notify'' ''order.paid'') (\<lambda>routingKey.
           pay_store e PayAnswer cb (messageOf e cb order mid exchange routingKey)))\<rparr>" by blast
  with assms(3) show ?thesis
    by (cases "memberOr cfg ''exchange'' ''trade.exchange''"; cases "memberOr cfg ''routing_key_notify'' ''order.paid''")
      (simp_all add: or_refuse_def)
qed

lemma pay_step_store:
  assumes "tx_move e H c t t'" and "tx_prog t = pay_store e PayAnswer cb m"
    and log: "tx_log t = debit_log e cb p a amt n1 n2 n3 @ [(n4, uncounted (sql_insertFlow e f))]"
    and locks: "set (tx_locks t) = debit_locks e p ord a \<union> {flow_lock e f}"
    and p: "p = paymentOf cb raw no amt time" and fits: "pay_fits e c p x" and pending: "pending_order e cb c order amt ord"
    and held: "account_held c order amt a" and f: "f = flowOf cb (ta_account_no a) amt (ta_balance a - amt)" and fit: "flow_fits e c f"
    and m: "m = messageOf e cb order mid ex rk" and ok: "schema_ok e c"
  shows "pay_stage e cb c (tx_prog t') (tx_log t') (set (tx_locks t')) \<or> harmless (tx_prog t')"
proof -
  let ?v = "(debit_view e cb p x n2 a amt c)\<lparr>t_account_flow := t_account_flow c @ [flow_row_for e f]\<rparr>"
  let ?st = "uncounted (sql_insertMessage e m)"
  have view: "replay (tx_log t) c = ?v" unfolding log by (rule replay_flow [OF fits pending held ok fit])
  from move_exec [OF assms(1) assms(2) [unfolded pay_store_def] view] obtain n v k where st: "?st n ?v = Some (v, k)" and
    t': "t' = \<lparr>tx_prog = Commit (PayAnswer (Result_ok (paidData cb) (pcr_requestId cb))),
      tx_log = (if written_locks e ?v v = [] then tx_log t else tx_log t @ [(n, ?st)]), tx_locks = tx_locks t @ written_locks e ?v v\<rparr>"
    by blast
  have tv: "t_local_message ?v = t_local_message c" by simp
  from st have mfit: "message_fits e c m" and v: "v = ?v\<lparr>t_local_message := t_local_message ?v @ [message_row_for e m n]\<rparr>"
    by (auto simp: uncounted_def sql_insertMessage_free message_fits_def tv split: if_splits)
  have "message_row_for e m n \<notin> set (t_local_message ?v)"
    unfolding tv using mfit by (intro free_notin [of "message_key e"]) (simp add: message_fits_def message_row_for_def)
  then have "written_locks e ?v v = message_locks e (message_row_for e m n)" unfolding v by (rule written_insert)
  then have ls: "written_locks e ?v v = [MessageLock (ckey e (msg_messageId m))]" by (simp add: message_locks_def message_row_for_def)
  with locks t' have "set (tx_locks t') = debit_locks e p ord a \<union> {flow_lock e f, MessageLock (ckey e (msg_messageId m))}"
    by (simp add: insert_commute)
  with pay_stage.commit [OF p fits pending held f fit m mfit, of n1 n2 n3 n4 n] t' ls log show ?thesis by simp
qed

lemma pay_stage_move:
  assumes "pay_stage e cb c (tx_prog t) (tx_log t) (set (tx_locks t))" and "tx_move e H c t t'" and ok: "schema_ok e c"
    and H: "\<And>h. h \<in> H \<Longrightarrow> later e h c" "\<And>h. h \<in> H \<Longrightarrow> schema_ok e h"
  shows "pay_stage e cb c (tx_prog t') (tx_log t') (set (tx_locks t')) \<or> harmless (tx_prog t')"
  using assms(1)
proof cases
  case start
  with pay_step_start [OF assms(2) start(1) _ _ H(1)] show ?thesis by simp
next
  case (number order amt raw)
  from move_draw(1) [OF assms(2) number(1) [unfolded pay_number_def]] obtain no where
    "t' = t\<lparr>tx_prog := or_refuse (epochToBeijing (pcr_timestamp cb)) (\<lambda>callbackTime.
      pay_record e PayAnswer cb order (paymentOf cb raw no amt callbackTime))\<rparr>" by blast
  with pay_stage.recording [OF number(4) refl] number(2,3) show ?thesis
    by (cases "epochToBeijing (pcr_timestamp cb)") (simp_all add: or_refuse_def)
next
  case recording
  with pay_step_record [OF assms(2) recording(1)] show ?thesis by simp
next
  case settle
  with pay_step_settle [OF assms(2) settle(1,2,3) _ _ _ ok] show ?thesis by simp
next
  case account
  with pay_step_account [OF assms(2) account(1,2,3) _ _ _ H(1)] show ?thesis by simp
next
  case deduct
  with pay_step_deduct [OF assms(2) deduct(1,2,3) _ _ _ _ ok] show ?thesis by simp
next
  case after
  with pay_step_after [OF assms(2) after(1,2,3) _ _ _ _ ok H] show ?thesis by simp
next
  case flow
  with pay_step_flow [OF assms(2) flow(1,2,3) _ _ _ _ _ ok] show ?thesis by simp
next
  case message
  show ?thesis
    by (rule pay_step_message [OF assms(2) message(1)], unfold message(2,3), rule pay_stage.store [OF message(4-9) refl])
next
  case store
  with pay_step_store [OF assms(2) store(1,2,3) _ _ _ _ _ _ _ ok] show ?thesis by simp
next
  case commit
  with assms(2) show ?thesis by (cases rule: tx_move.cases) auto
qed

end
