(* ===== verification/Concurrency.thy ===== *)
theory Concurrency
  imports PaymentStages
begin

text \<open>
  Every interleaving is a sequence of whole calls. \<open>serial\<close> is the effect of one order, one payment or one
  background update on the committed tables, as the services have it when nothing else runs; \<open>conc_inv\<close> is the
  invariant of the server from which each commit is shown to be such an effect. What the locale
  \<open>effect_invariant\<close> asks of an invariant of the tables therefore carries it through every interleaving.
\<close>

section \<open>Commits\<close>

text \<open>
  What one call does to the committed tables when it succeeds, and the abstract server that does nothing
  else: whole orders, whole payments and the statements of the background tasks, one after the other.
\<close>

abbreviation quantity_ok :: "CreateOrderReq \<Rightarrow> bool" where
  "quantity_ok req \<equiv> 0 < cor_quantity req \<and> cor_quantity req \<le> kMaxQuantity"

definition order_effect :: "env \<Rightarrow> CreateOrderReq \<Rightarrow> Order \<Rightarrow> db \<Rightarrow> db \<Rightarrow> bool" where
  "order_effect e req order d d' \<longleftrightarrow> quantity_ok req \<and>
     (\<exists>p no expiry rec x y. product_row_of (cor_productId req) d = Some p \<and> tp_status p = 1 \<and> cor_quantity req \<le> tp_stock p \<and>
        order = orderOf req (product_of_row p) no expiry \<and> idm_requestId rec = cor_requestId req \<and>
        free (idem_key e) (ckey e (cor_requestId req)) (t_idempotent d) \<and>
        free (order_key e) (ckey e no) (t_order d) \<and> free (order_req_key e) (ckey e (cor_requestId req)) (t_order d) \<and>
        d' = placed_db e req order rec x y d)"

definition payment_effect :: "env \<Rightarrow> PaymentCallbackReq \<Rightarrow> db \<Rightarrow> db \<Rightarrow> bool" where
  "payment_effect e cb d d' \<longleftrightarrow> callback_signed e cb \<and>
     (\<exists>ord a p f m n. order_row_of e (pcr_orderNo cb) d = Some ord \<and> to_status ord = 0 \<and>
        yuanStringToFen (pcr_amount cb) = Some (to_total_amount ord) \<and> 0 < to_total_amount ord \<and>
        account_row_of (word_of_int (to_user_id ord)) d = Some a \<and> ta_status a = 0 \<and> to_total_amount ord \<le> ta_balance a \<and>
        free (trade_key e) (ckey e (pcr_channel cb), ckey e (pcr_channelTradeNo cb)) (t_payment d) \<and>
        paid_payment cb ord p \<and> paid_flow cb ord a f \<and> paid_message e cb ord m \<and>
        d' = paid_db e (pcr_orderNo cb) n (ta_account_no a) (to_total_amount ord) p f m d)"

inductive serial :: "env \<Rightarrow> db \<Rightarrow> db \<Rightarrow> bool" for e where
  order: "order_effect e req order d d' \<Longrightarrow> serial e d d'"
| payment: "payment_effect e cb d d' \<Longrightarrow> serial e d d'"
| background: "run_stmts (background_stmts e b) n d = Some d' \<Longrightarrow> serial e d d'"

text \<open>The services do nothing else when nothing runs beside them.\<close>

lemma services_are_serial:
  assumes "schema_ok e (w_db w)"
  shows "OrderService_createOrder e req w = Some (r, w') \<Longrightarrow> w_db w' = w_db w \<or> (\<exists>order. order_effect e req order (w_db w) (w_db w'))"
    "PaymentService_handleCallback e cb rawBody w = Some (r', w') \<Longrightarrow> w_db w' = w_db w \<or> payment_effect e cb (w_db w) (w_db w')"
proof -
  assume run: "OrderService_createOrder e req w = Some (r, w')"
  show "w_db w' = w_db w \<or> (\<exists>order. order_effect e req order (w_db w) (w_db w'))"
  proof (cases "\<exists>o1. r = Inr o1 \<and> order_placed o1")
    case True
    then obtain o1 where o1: "r = Inr o1" "order_placed o1" by blast
    from assms have "product_ok (t_product (w_db w))" by (simp add: schema_ok_def)
    from createOrder_placed [OF run o1 this] show ?thesis
      by cases (auto simp: order_effect_def kMaxQuantity_def free_def list_all_iff idem_lookup_def first_where_None; blast)
  next
    case False
    from createOrder_unplaced [OF run False] show ?thesis ..
  qed
next
  assume run: "PaymentService_handleCallback e cb rawBody w = Some (r', w')"
  show "w_db w' = w_db w \<or> payment_effect e cb (w_db w) (w_db w')"
  proof (cases "\<exists>res. r' = Inr res \<and> order_settled cb res")
    case True
    then obtain res where res: "r' = Inr res" "order_settled cb res" by blast
    show ?thesis
    proof (rule handleCallback_paid [OF run res assms])
      fix ord a p f m n
      assume facts: "callback_signed e cb" "order_row_of e (pcr_orderNo cb) (w_db w) = Some ord" "to_status ord = 0"
        "yuanStringToFen (pcr_amount cb) = Some (to_total_amount ord)" "account_row_of (word_of_int (to_user_id ord)) (w_db w) = Some a"
        "ta_status a = 0" "to_total_amount ord \<le> ta_balance a" "0 < to_total_amount ord" "paid_payment cb ord p" "paid_flow cb ord a f"
        "paid_message e cb ord m" "payment_row_of e (pcr_channel cb) (pcr_channelTradeNo cb) (w_db w) = None"
        "w_db w' = paid_db e (pcr_orderNo cb) n (ta_account_no a) (to_total_amount ord) p f m (w_db w)"
      from facts(12) have "free (trade_key e) (ckey e (pcr_channel cb), ckey e (pcr_channelTradeNo cb)) (t_payment (w_db w))"
        by (auto simp: payment_row_of_def free_def list_all_iff first_where_None trade_key_def sql_eq_def)
      with facts show ?thesis unfolding payment_effect_def by blast
    qed
  next
    case False
    from handleCallback_unsettled [OF run False] show ?thesis ..
  qed
qed

lemma order_commit:
  assumes "order_stage e req c (Commit a) log L" and ok: "schema_ok e c" and "quantity_ok req"
  obtains order where "a = OrderAnswer (executed (Result_ok order (cor_requestId req)))" "order_effect e req order c (replay log c)"
    "\<And>L'. L \<inter> L' = {} \<Longrightarrow> foreign e L' c (replay log c)"
  using assms(1)
proof cases
  case (commit rec y p order no expiry x n1 n2 n3 n4)
  from ok have pok: "product_ok (t_product c)" by (simp add: schema_ok_def)
  have db: "replay log c = placed_db e req order rec x y c" unfolding commit(2) by (rule replay_placed [OF commit(4,5) pok commit(7)])
  from commit(5) obtain r where r: "product_row_of (cor_productId req) c = Some r" "tp_price r = prd_priceFen p" "tp_status r = 1"
    "cor_quantity req \<le> tp_stock r" by (auto simp: stocked_def)
  show ?thesis
  proof (rule that)
    show "a = OrderAnswer (executed (Result_ok order (cor_requestId req)))" using commit(1) by simp
    have "order = orderOf req (product_of_row r) no expiry" using commit(6) r(2) by (simp add: orderOf_def)
    moreover have "ord_orderNo order = no" "ord_requestId order = cor_requestId req" by (simp_all add: commit(6) orderOf_def)
    ultimately show "order_effect e req order c (replay log c)"
      unfolding order_effect_def db using r commit(4,7) assms(3) by (auto simp: key_held_def order_fits_def)
    fix L'
    assume "L \<inter> L' = {}"
    then show "foreign e L' c (replay log c)"
      unfolding db using commit(3,4) by (intro foreign_placed) (auto simp: key_held_def)
  qed
qed (simp_all add: createOrder_prog_def order_acquire_def order_product_def order_deduct_def order_number_def order_insert_def order_mark_def select_def)

lemma pay_commit:
  assumes "pay_stage e cb c (Commit a) log L" and ok: "schema_ok e c" and signed: "callback_signed e cb"
  obtains "a = PayAnswer (Result_ok (paidData cb) (pcr_requestId cb))" "payment_effect e cb c (replay log c)"
    "\<And>L'. L \<inter> L' = {} \<Longrightarrow> foreign e L' c (replay log c)"
  using assms(1)
proof cases
  case (commit p raw no amt time t order ord a1 f m mid ex rk n1 n2 n3 n4 n5)
  note pending = commit(6) and held = commit(7)
  let ?p = "payment_row_for e p t" and ?f = "flow_row_for e f" and ?m = "message_row_for e m n5"
  have db: "replay log c = paid_db e (pcr_orderNo cb) n2 (ta_account_no a1) amt ?p ?f ?m c"
    unfolding commit(2) by (rule replay_settled [OF commit(5,6,7) ok commit(9,11)])
  from pending have ord: "order_row_of e (pcr_orderNo cb) c = Some ord" "to_status ord = 0" "amt = to_total_amount ord"
    "yuanStringToFen (pcr_amount cb) = Some amt" "ord_userId order = word_of_int (to_user_id ord)" "ord_orderNo order = to_order_no ord"
    by (simp_all add: pending_order_def order_like_def)
  have amount: "\<bar>amt\<bar> < 10 ^ 18" by (rule pending_amount [OF pending])
  from held have acc: "account_row_of (ord_userId order) c = Some a1" "ta_status a1 = 0" "amt \<le> ta_balance a1" by (simp_all add: account_held_def)
  from commit(9) have "0 < tf_amount ?f" by (simp add: flow_fits_def)
  then have pos: "0 < amt" using amount by (simp add: commit(8) flow_row_for_def flowOf_def)
  have pay: "paid_payment cb ord ?p" using amount ord(3) by (simp add: paid_payment_def payment_row_for_def commit(4) paymentOf_def)
  have flow: "paid_flow cb ord a1 ?f"
    using amount acc(3) pos ord(3) by (simp add: paid_flow_def flow_row_for_def commit(8) flowOf_def in_i64_def)
  have msg: "paid_message e cb ord ?m"
  proof -
    have "paidPayload mid order = paidPayload mid (order_of_row e ord)"
      using pending by (simp add: paidPayload_def pending_order_def order_like_def)
    then show ?thesis by (simp add: paid_message_def message_row_for_def commit(10) messageOf_def)
  qed
  have trade: "free (trade_key e) (ckey e (pcr_channel cb), ckey e (pcr_channelTradeNo cb)) (t_payment c)"
    using commit(5) by (simp add: pay_fits_def commit(4) paymentOf_def)
  show ?thesis
  proof (rule that)
    show "a = PayAnswer (Result_ok (paidData cb) (pcr_requestId cb))" using commit(1) by simp
    show "payment_effect e cb c (replay log c)"
      unfolding payment_effect_def db using signed ord acc pos pay flow msg trade by auto
    fix L'
    assume "L \<inter> L' = {}"
    then show "foreign e L' c (replay log c)"
      unfolding db using commit(3) order_row_of_SomeD [OF ord(1)]
      by (intro foreign_paid) (auto simp: order_locks_def payment_row_for_def flow_row_for_def message_row_for_def)
  qed
qed (simp_all add: handleCallback_prog_def pay_number_def pay_record_def pay_settle_def pay_account_def pay_deduct_def pay_after_def pay_flow_def
    pay_message_id_def pay_store_def select_def)

section \<open>The invariant of the server\<close>

abbreviation order_report :: "Order \<Rightarrow> string \<Rightarrow> exn + answer" where
  "order_report order rid \<equiv> Inr (OrderAnswer (executed (Result_ok order rid)))"

abbreviation pay_report :: "PaymentCallbackReq \<Rightarrow> exn + answer" where
  "pay_report cb \<equiv> Inr (PayAnswer (Result_ok (paidData cb) (pcr_requestId cb)))"

text \<open>What a report of success promises about the tables.\<close>

definition reported :: "env \<Rightarrow> db \<Rightarrow> exn + answer \<Rightarrow> bool" where
  "reported e c r \<longleftrightarrow>
     (\<forall>order rid. r = order_report order rid \<longrightarrow>
        (\<exists>row. order_row_of e (ord_orderNo order) c = Some row \<and> to_request_id row = rid)) \<and>
     (\<forall>cb. r = pay_report cb \<longrightarrow> (\<exists>row. order_row_of e (pcr_orderNo cb) c = Some row \<and> to_status row = 1))"

definition stage :: "env \<Rightarrow> db \<Rightarrow> tx \<Rightarrow> bool" where
  "stage e c t \<longleftrightarrow> (\<exists>req. quantity_ok req \<and> order_stage e req c (tx_prog t) (tx_log t) (set (tx_locks t))) \<or>
     (\<exists>cb. callback_signed e cb \<and> pay_stage e cb c (tx_prog t) (tx_log t) (set (tx_locks t))) \<or>
     harmless (tx_prog t) \<or> (\<exists>r. t = ended r \<and> reported e c r)"

text \<open>Two reports of the same order or of two payments of one order.\<close>

definition clash :: "env \<Rightarrow> exn + answer \<Rightarrow> exn + answer \<Rightarrow> bool" where
  "clash e r r' \<longleftrightarrow>
     (\<exists>order rid order' rid'. r = order_report order rid \<and> r' = order_report order' rid' \<and> ckey e rid = ckey e rid') \<or>
     (\<exists>cb cb'. r = pay_report cb \<and> r' = pay_report cb' \<and> ckey e (pcr_orderNo cb) = ckey e (pcr_orderNo cb'))"

definition tx_apart :: "env \<Rightarrow> tx \<Rightarrow> tx \<Rightarrow> bool" where
  "tx_apart e t t' \<longleftrightarrow> set (tx_locks t) \<inter> set (tx_locks t') = {} \<and>
     (\<forall>r r'. tx_prog t = Leave r \<longrightarrow> tx_prog t' = Leave r' \<longrightarrow> \<not> clash e r r')"

definition conc_inv :: "env \<Rightarrow> server \<Rightarrow> bool" where
  "conc_inv e s \<longleftrightarrow> sv_history s \<noteq> [] \<and> (\<forall>h \<in> set (sv_history s). schema_ok e h \<and> later e h (tables s)) \<and>
     (\<forall>i < length (sv_txs s). stage e (tables s) (sv_txs s ! i)) \<and>
     (\<forall>i < length (sv_txs s). \<forall>j < length (sv_txs s). i \<noteq> j \<longrightarrow> tx_apart e (sv_txs s ! i) (sv_txs s ! j))"

lemma clash_sym: "clash e r r' \<Longrightarrow> clash e r' r"
  unfolding clash_def by metis

lemma clash_success: "clash e r r' \<Longrightarrow> success r"
  unfolding clash_def success_def by blast

lemma tx_apart_sym: "tx_apart e t t' \<Longrightarrow> tx_apart e t' t"
  unfolding tx_apart_def using clash_sym by blast

lemma tx_ended [simp]: "tx_prog (ended r) = Leave r" "tx_log (ended r) = []" "tx_locks (ended r) = []"
  by (simp_all add: ended_def)

lemma reported_later:
  assumes "reported e c r" and "later e c c'"
  shows "reported e c' r"
  unfolding reported_def
proof (intro conjI allI impI)
  fix order rid
  assume "r = order_report order rid"
  with assms(1) obtain row where row: "order_row_of e (ord_orderNo order) c = Some row" "to_request_id row = rid" by (auto simp: reported_def)
  from assms(2) row(1) obtain row' where "order_row_of e (ord_orderNo order) c' = Some row'" "to_request_id row' = to_request_id row"
    by (rule later_order)
  with row(2) show "\<exists>row. order_row_of e (ord_orderNo order) c' = Some row \<and> to_request_id row = rid" by blast
next
  fix cb
  assume "r = pay_report cb"
  with assms(1) obtain row where row: "order_row_of e (pcr_orderNo cb) c = Some row" "to_status row = 1" unfolding reported_def by blast
  from assms(2) row(1) obtain row' where "order_row_of e (pcr_orderNo cb) c' = Some row'" "to_status row = 1 \<longrightarrow> to_status row' = 1"
    by (rule later_order)
  with row(2) show "\<exists>row. order_row_of e (pcr_orderNo cb) c' = Some row \<and> to_status row = 1" by blast
qed

lemma stage_foreign:
  assumes "stage e c t" and "foreign e (set (tx_locks t)) c c'"
  shows "stage e c' t"
proof -
  from reported_later [OF _ foreign_later [OF assms(2)]] have "reported e c r \<Longrightarrow> reported e c' r" for r .
  with assms(1) order_stage_foreign [OF _ assms(2)] pay_stage_foreign [OF _ assms(2)] show ?thesis
    unfolding stage_def by blast
qed

lemma stage_no_leave: "\<not> order_stage e req c (Leave r) log L" "\<not> pay_stage e cb c (Leave r) log L"
  by (auto elim!: order_stage.cases simp: createOrder_prog_def order_acquire_def order_product_def order_deduct_def order_number_def
      order_insert_def order_mark_def select_def)
    (auto elim!: pay_stage.cases simp: handleCallback_prog_def pay_number_def pay_record_def pay_settle_def pay_account_def pay_deduct_def
      pay_after_def pay_flow_def pay_message_id_def pay_store_def select_def)

lemma stage_harmless: "harmless (tx_prog t) \<Longrightarrow> stage e c t"
  by (simp add: stage_def)

lemma stage_leave: "stage e c t \<Longrightarrow> tx_prog t = Leave r \<Longrightarrow> stage e c (ended r)"
  by (auto simp: stage_def stage_no_leave)

lemma stage_move:
  assumes "stage e c t" and "tx_move e H c t t'" and "schema_ok e c"
    and "\<And>h. h \<in> H \<Longrightarrow> later e h c" "\<And>h. h \<in> H \<Longrightarrow> schema_ok e h"
  shows "stage e c t' \<and> (\<forall>r. tx_prog t' = Leave r \<longrightarrow> \<not> success r)"
proof -
  have leave: "\<not> success r" if "harmless p" "p = Leave r" for p r using that by simp
  consider req where "order_stage e req c (tx_prog t) (tx_log t) (set (tx_locks t))" "quantity_ok req"
    | cb where "pay_stage e cb c (tx_prog t) (tx_log t) (set (tx_locks t))" "callback_signed e cb"
    | "harmless (tx_prog t)" | r where "t = ended r"
    using assms(1) unfolding stage_def by blast
  then show ?thesis
  proof cases
    case 1
    from order_stage_move [OF 1(1) assms(2,3,4)] 1(2) leave show ?thesis unfolding stage_def using stage_no_leave by metis
  next
    case 2
    from pay_stage_move [OF 2(1) assms(2-5)] 2(2) leave show ?thesis unfolding stage_def using stage_no_leave by metis
  next
    case 3
    with harmless_move [OF assms(2)] leave show ?thesis by (auto simp: stage_def)
  next
    case 4
    with assms(2) show ?thesis by (cases rule: tx_move.cases) simp_all
  qed
qed

lemma stage_call: "stage e c \<lparr>tx_prog = call_prog e call, tx_log = [], tx_locks = []\<rparr>"
proof (cases call)
  case (CreateOrder req)
  show ?thesis unfolding CreateOrder stage_def using order_stage.start [of e req c] by auto
next
  case (HandleCallback cb raw)
  have "callback_signed e cb \<and> pay_stage e cb c (call_prog e call) [] {} \<or> harmless (call_prog e call)"
    unfolding HandleCallback using pay_stage.start [of e cb c raw]
    by (cases "configValue (custom_config e) ''mock_channel'' ''secret'' []") (auto simp: or_refuse_def callback_signed_guard)
  then show ?thesis by (auto simp: stage_def)
qed

text \<open>The steps that leave the committed tables alone, one kind at a time.\<close>

lemma no_new_locks [simp]: "\<not> held_elsewhere i [] txs"
  by (simp add: held_elsewhere_def list_ex_iff)

lemma step_in_range: "step_tx e i v s = Some s' \<Longrightarrow> i < length (sv_txs s)"
  by (auto simp: step_tx_def split: if_splits)

lemma select_moves:
  assumes "step_tx e i v s = Some s'" and "tx_prog (sv_txs s ! i) = Select k"
  shows "\<exists>t'. tx_move e (set (sv_history s)) (tables s) (sv_txs s ! i) t' \<and> tx_locks t' = tx_locks (sv_txs s ! i) \<and>
    sv_txs s' = (sv_txs s)[i := t'] \<and> sv_history s' = sv_history s"
proof -
  let ?t = "sv_txs s ! i"
  from assms step_in_range [OF assms(1)] have h: "v < length (sv_history s)" and s': "s' = next_sql (put_tx i
      (?t\<lparr>tx_prog := k (read_view e (tx_locks ?t) (sv_history s ! v) (replay (tx_log ?t) (tables s)))\<rparr>) s)"
    by (auto simp: step_tx_def Let_def split: if_splits)
  from h have "sv_history s ! v \<in> set (sv_history s)" by simp
  from tx_move.select [OF assms(2) this, of e "tables s"] s' show ?thesis by (auto simp: next_sql_def put_tx_def)
qed

lemma exec_moves:
  assumes "step_tx e i v s = Some s'" and "tx_prog (sv_txs s ! i) = Exec st k"
  shows "sv_history s' = sv_history s \<and> (sv_txs s' = (sv_txs s)[i := ended (Inl DrogonDbException)] \<or>
    (\<exists>t' ls. tx_move e (set (sv_history s)) (tables s) (sv_txs s ! i) t' \<and> tx_locks t' = tx_locks (sv_txs s ! i) @ ls \<and>
      \<not> held_elsewhere i ls (sv_txs s) \<and> sv_txs s' = (sv_txs s)[i := t']))"
proof (cases "st (sv_sql s) (replay (tx_log (sv_txs s ! i)) (tables s))")
  case None
  with assms step_in_range [OF assms(1)] show ?thesis by (auto simp: step_tx_def exec_step_def next_sql_def put_tx_def)
next
  case (Some va)
  let ?t = "sv_txs s ! i"
  obtain v' a where va: "va = (v', a)" by fastforce
  let ?ls = "written_locks e (replay (tx_log ?t) (tables s)) v'"
  from assms step_in_range [OF assms(1)] Some va have "\<not> held_elsewhere i ?ls (sv_txs s)" and s': "s' = next_sql (put_tx i
    \<lparr>tx_prog = k a, tx_log = (if ?ls = [] then tx_log ?t else tx_log ?t @ [(sv_sql s, st)]), tx_locks = tx_locks ?t @ ?ls\<rparr> s)"
    by (auto simp: step_tx_def exec_step_def Let_def split: if_splits)
  with tx_move.exec [OF assms(2) Some [unfolded va] refl] show ?thesis
    by (intro conjI disjI2 exI [of _ ?ls] exI) (simp_all add: next_sql_def put_tx_def)
qed

lemma nextId_moves:
  assumes "step_tx e i v s = Some s'" and "tx_prog (sv_txs s ! i) = NextId k"
  obtains r where "sv_txs s' = (sv_txs s)[i := (sv_txs s ! i)\<lparr>tx_prog := (case r of Inl x \<Rightarrow> Leave (Inl x) | Inr no \<Rightarrow> k no)\<rparr>]"
    "sv_history s' = sv_history s"
  using assms step_in_range [OF assms(1)] by (auto simp: step_tx_def Let_def put_tx_def split: option.splits)

text \<open>One step of one transaction: it ends without a trace, moves on, or commits.\<close>

lemma step_tx_cases:
  assumes "step_tx e i v s = Some s'"
  obtains (ends) r where "i < length (sv_txs s)" "tx_prog (sv_txs s ! i) = Leave r \<or> r = Inl DrogonDbException"
      "sv_txs s' = (sv_txs s)[i := ended r]" "sv_history s' = sv_history s"
    | (throws) x where "i < length (sv_txs s)" "sv_txs s' = (sv_txs s)[i := (sv_txs s ! i)\<lparr>tx_prog := Leave (Inl x)\<rparr>]" "sv_history s' = sv_history s"
      "\<exists>k. tx_prog (sv_txs s ! i) = NextId k"
    | (moves) t' ls where "i < length (sv_txs s)" "tx_move e (set (sv_history s)) (tables s) (sv_txs s ! i) t'"
      "tx_locks t' = tx_locks (sv_txs s ! i) @ ls" "\<not> held_elsewhere i ls (sv_txs s)" "sv_txs s' = (sv_txs s)[i := t']" "sv_history s' = sv_history s"
    | (commits) a where "i < length (sv_txs s)" "tx_prog (sv_txs s ! i) = Commit a" "sv_txs s' = (sv_txs s)[i := ended (Inr a)]"
      "sv_history s' = replay (tx_log (sv_txs s ! i)) (tables s) # sv_history s"
proof (cases "tx_prog (sv_txs s ! i)")
  case (Leave r)
  with assms step_in_range [OF assms] show ?thesis by (intro ends [of r]) (auto simp: step_tx_def put_tx_def)
next
  case Stuck
  with assms step_in_range [OF assms] show ?thesis by (simp add: step_tx_def)
next
  case (Select k)
  with select_moves [OF assms Select] step_in_range [OF assms] moves [of _ "[]"] show ?thesis by auto
next
  case (Exec st k)
  with exec_moves [OF assms Exec] step_in_range [OF assms] ends [of "Inl DrogonDbException"] moves show ?thesis by blast
next
  case (NextId k)
  then obtain r where s': "sv_txs s' = (sv_txs s)[i := (sv_txs s ! i)\<lparr>tx_prog := (case r of Inl x \<Rightarrow> Leave (Inl x) | Inr no \<Rightarrow> k no)\<rparr>]"
    "sv_history s' = sv_history s" by (rule nextId_moves [OF assms])
  show ?thesis
  proof (cases r)
    case (Inl x)
    with s' NextId step_in_range [OF assms] show ?thesis by (intro throws [of x]) simp_all
  next
    case (Inr no)
    with s' step_in_range [OF assms] tx_move.nextId [OF NextId] show ?thesis by (intro moves [of _ "[]"]) simp_all
  qed
next
  case (Now k)
  with assms step_in_range [OF assms] tx_move.now [OF Now] show ?thesis
    by (intro moves [of "(sv_txs s ! i)\<lparr>tx_prog := k (clock_ns e (sv_clk s))\<rparr>" "[]"]) (auto simp: step_tx_def put_tx_def)
next
  case (Commit a)
  with assms step_in_range [OF assms] show ?thesis by (intro commits [of a]) (auto simp: step_tx_def put_tx_def next_sql_def)
qed

lemma stmt_keeps_uncounted [preserves_intro]: "stmt_keeps P st \<Longrightarrow> stmt_keeps P (uncounted st)"
  by (auto simp: stmt_keeps_def uncounted_def)

lemma replay_keeps: "(\<And>n st. (n, st) \<in> set log \<Longrightarrow> stmt_keeps P st) \<Longrightarrow> P d \<Longrightarrow> P (replay log d)"
proof (induction log arbitrary: d)
  case (Cons x log)
  obtain n st where x: "x = (n, st)" by fastforce
  from Cons.prems(1) have "stmt_keeps P st" "\<And>n st. (n, st) \<in> set log \<Longrightarrow> stmt_keeps P st" by (auto simp: x)
  with Cons.IH Cons.prems(2) show ?case by (auto simp: x split: option.splits dest: stmt_keepsD)
qed simp

lemma schema_replay:
  assumes "order_stage e req c p log L \<or> pay_stage e cb c p log L" and "schema_ok e c"
  shows "schema_ok e (replay log c)"
proof (rule replay_keeps [where P = "schema_ok e"])
  show "schema_ok e c" by fact
  fix n st
  assume "(n, st) \<in> set log"
  with assms(1) show "stmt_keeps (schema_ok e) st"
    by (elim disjE order_stage.cases pay_stage.cases) (auto intro!: preserves_intro)
qed

lemma free_first_where: "free key k rows \<Longrightarrow> first_where (\<lambda>r. key r = k) rows = None"
  by (simp add: first_where_None free_def list_all_iff)

lemma order_effect_row:
  "order_effect e req order c c' \<Longrightarrow> \<exists>row. order_row_of e (ord_orderNo order) c' = Some row \<and> to_request_id row = cor_requestId req"
  unfolding order_effect_def
  by (elim exE conjE)
    (simp add: order_row_of_def placed_db_def sql_eq_def first_where_append first_where_single order_row_for_def orderOf_def
      free_first_where [of "order_key e"])

lemma payment_effect_row:
  "payment_effect e cb c c' \<Longrightarrow> \<exists>row. order_row_of e (pcr_orderNo cb) c' = Some row \<and> to_status row = 1"
proof -
  have "order_row_of e no (paid_db e no n acc q p f m d) = order_row_of e no (pay_order e no n d)" for no n acc q p f m d
    by (simp add: paid_db_def order_row_of_def)
  then show "payment_effect e cb c c' \<Longrightarrow> ?thesis"
    by (auto simp: payment_effect_def order_row_of_pay_order)
qed

lemma report_inject [simp]:
  "executed r = executed r' \<longleftrightarrow> r = r'" "Result_ok x rid = Result_ok x' rid' \<longleftrightarrow> x = x' \<and> rid = rid'"
  "paidData cb = paidData cb' \<longleftrightarrow> pcr_orderNo cb = pcr_orderNo cb'"
  by (auto simp: executed_def Result_ok_def paidData_def)

lemma reported_order:
  "order_effect e req order c c' \<Longrightarrow> reported e c' (order_report order (cor_requestId req))"
  using order_effect_row [of e req order c c'] by (auto simp: reported_def)

lemma reported_payment: "payment_effect e cb c c' \<Longrightarrow> reported e c' (pay_report cb)"
  using payment_effect_row [of e cb c c'] by (auto simp: reported_def)

text \<open>A commit cannot report what is already reported.\<close>

lemma order_no_clash:
  assumes "order_effect e req order c c'" and "reported e c r"
  shows "\<not> clash e (order_report order (cor_requestId req)) r"
proof
  assume "clash e (order_report order (cor_requestId req)) r"
  then obtain order' rid where r: "r = order_report order' rid" and key: "ckey e (cor_requestId req) = ckey e rid"
    by (auto simp: clash_def)
  with assms(2) obtain row where "order_row_of e (ord_orderNo order') c = Some row" "to_request_id row = rid" by (auto simp: reported_def)
  moreover from assms(1) have "free (order_req_key e) (ckey e (cor_requestId req)) (t_order c)" by (auto simp: order_effect_def)
  ultimately show False using key order_row_of_SomeD by (fastforce simp: free_def list_all_iff)
qed

lemma payment_no_clash:
  assumes "payment_effect e cb c c'" and "reported e c r"
  shows "\<not> clash e (pay_report cb) r"
proof
  assume "clash e (pay_report cb) r"
  then obtain cb1 cb2 where "pay_report cb = pay_report cb1" and r: "r = pay_report cb2" and "ckey e (pcr_orderNo cb1) = ckey e (pcr_orderNo cb2)"
    unfolding clash_def by blast
  then have key: "ckey e (pcr_orderNo cb) = ckey e (pcr_orderNo cb2)" by simp
  from assms(2) r obtain row where "order_row_of e (pcr_orderNo cb2) c = Some row" "to_status row = 1" unfolding reported_def by blast
  moreover have "order_row_of e (pcr_orderNo cb2) c = order_row_of e (pcr_orderNo cb) c" using key by (simp add: order_row_of_def sql_eq_def)
  moreover from assms(1) obtain ord where "order_row_of e (pcr_orderNo cb) c = Some ord" "to_status ord = 0" by (auto simp: payment_effect_def)
  ultimately show False by simp
qed

lemma run_stmts_keeps: "(\<And>st. st \<in> set sts \<Longrightarrow> stmt_keeps P st) \<Longrightarrow> run_stmts sts n d = Some d' \<Longrightarrow> P d \<Longrightarrow> P d'"
  by (induction sts arbitrary: n d) (auto split: option.splits dest: stmt_keepsD)

lemma background_keeps_schema: "st \<in> set (background_stmts e b) \<Longrightarrow> stmt_keeps (schema_ok e) st"
  by (cases b) (auto intro!: preserves_intro)

lemma schema_background: "schema_ok e d \<Longrightarrow> run_stmts (background_stmts e b) n d = Some d' \<Longrightarrow> schema_ok e d'"
  by (rule run_stmts_keeps [OF background_keeps_schema])

section \<open>Every interleaving is a sequence of whole calls\<close>

lemma inv_put:
  assumes inv: "conc_inv e s" and i: "i < length (sv_txs s)" and s': "sv_txs s' = (sv_txs s)[i := t']" "sv_history s' = sv_history s"
    and "stage e (tables s) t'" and apart: "\<And>j. j < length (sv_txs s) \<Longrightarrow> j \<noteq> i \<Longrightarrow> tx_apart e t' (sv_txs s ! j)"
  shows "conc_inv e s'"
  unfolding conc_inv_def s'
proof (intro conjI allI impI)
  fix j k
  assume jk: "j < length ((sv_txs s)[i := t'])" "k < length ((sv_txs s)[i := t'])" "j \<noteq> k"
  with inv have "tx_apart e (sv_txs s ! j) (sv_txs s ! k)" by (simp add: conc_inv_def)
  with jk apart [of j] apart [of k] tx_apart_sym [of e t' "sv_txs s ! j"]
  show "tx_apart e ((sv_txs s)[i := t'] ! j) ((sv_txs s)[i := t'] ! k)"
    by (cases "j = i"; cases "k = i") simp_all
qed (use assms in \<open>auto simp: conc_inv_def nth_list_update\<close>)

lemma apart_plain:
  assumes "conc_inv e s" and "i < length (sv_txs s)" and "j < length (sv_txs s)" and "j \<noteq> i"
    and "\<And>r. tx_prog t' = Leave r \<Longrightarrow> tx_prog (sv_txs s ! i) = Leave r \<or> \<not> success r"
    and "tx_locks t' = tx_locks (sv_txs s ! i) @ ls" and "\<not> held_elsewhere i ls (sv_txs s)"
  shows "tx_apart e t' (sv_txs s ! j)"
proof -
  from assms(1-4) have old: "tx_apart e (sv_txs s ! i) (sv_txs s ! j)" by (simp add: conc_inv_def)
  from assms(3,4,7) have "set ls \<inter> set (tx_locks (sv_txs s ! j)) = {}" by (auto simp: held_elsewhere_def list_ex_iff)
  with old assms(5,6) clash_success show ?thesis unfolding tx_apart_def by fastforce
qed

lemma inv_publish:
  assumes inv: "conc_inv e s" and s': "sv_txs s' = sv_txs s" "sv_history s' = c # sv_history s" and "schema_ok e c"
    and foreign: "\<And>j. j < length (sv_txs s) \<Longrightarrow> foreign e (set (tx_locks (sv_txs s ! j))) (tables s) c" and "later e (tables s) c"
  shows "conc_inv e s'"
  using inv assms(4) stage_foreign [OF _ foreign] later_trans [OF _ assms(6)] unfolding conc_inv_def s' by auto

lemma commit_effect:
  assumes "stage e c t" and "tx_prog t = Commit a" and ok: "schema_ok e c"
  shows "serial e c (replay (tx_log t) c) \<and> schema_ok e (replay (tx_log t) c) \<and> reported e (replay (tx_log t) c) (Inr a) \<and>
    (\<forall>r. reported e c r \<longrightarrow> \<not> clash e (Inr a) r) \<and> (\<forall>L'. set (tx_locks t) \<inter> L' = {} \<longrightarrow> foreign e L' c (replay (tx_log t) c))"
proof -
  from assms(1,2) consider req where "order_stage e req c (Commit a) (tx_log t) (set (tx_locks t))" "quantity_ok req"
    | cb where "pay_stage e cb c (Commit a) (tx_log t) (set (tx_locks t))" "callback_signed e cb"
    unfolding stage_def by auto
  then show ?thesis
  proof cases
    case 1
    from 1(1) ok 1(2) obtain order where "a = OrderAnswer (executed (Result_ok order (cor_requestId req)))"
      "order_effect e req order c (replay (tx_log t) c)"
      "\<And>L'. set (tx_locks t) \<inter> L' = {} \<Longrightarrow> foreign e L' c (replay (tx_log t) c)" by (rule order_commit) blast
    with serial.order schema_replay [OF disjI1 [OF 1(1)] ok] reported_order order_no_clash show ?thesis by blast
  next
    case 2
    from 2(1) ok 2(2) have "a = PayAnswer (Result_ok (paidData cb) (pcr_requestId cb))" "payment_effect e cb c (replay (tx_log t) c)"
      "\<And>L'. set (tx_locks t) \<inter> L' = {} \<Longrightarrow> foreign e L' c (replay (tx_log t) c)" by (rule pay_commit, blast)+
    with serial.payment schema_replay [OF disjI2 [OF 2(1)] ok] reported_payment payment_no_clash show ?thesis by blast
  qed
qed

lemma inv_commit:
  assumes inv: "conc_inv e s" and i: "i < length (sv_txs s)" and prog: "tx_prog (sv_txs s ! i) = Commit a"
    and s': "sv_txs s' = (sv_txs s)[i := ended (Inr a)]" "sv_history s' = replay (tx_log (sv_txs s ! i)) (tables s) # sv_history s"
  shows "conc_inv e s' \<and> serial e (tables s) (tables s')"
proof -
  let ?t = "sv_txs s ! i" and ?c = "tables s"
  let ?c' = "replay (tx_log ?t) ?c"
  from inv i have ok: "schema_ok e ?c" and st: "stage e ?c ?t" by (simp_all add: conc_inv_def)
  note pub = commit_effect [OF st prog ok]
  define s1 where "s1 = s\<lparr>sv_txs := (sv_txs s)[i := ended (Inl DrogonDbException)]\<rparr>"
  have inv1: "conc_inv e s1"
    by (rule inv_put [OF inv i]) (auto simp: s1_def tx_apart_def stage_harmless clash_def)
  have foreign: "foreign e (set (tx_locks (sv_txs s1 ! j))) ?c ?c'" if j: "j < length (sv_txs s)" for j
  proof -
    have "set (tx_locks ?t) \<inter> set (tx_locks (sv_txs s1 ! j)) = {}"
      using j inv i by (cases "j = i") (simp_all add: s1_def conc_inv_def tx_apart_def)
    with pub show ?thesis by blast
  qed
  from pub have c': "schema_ok e ?c'" "later e ?c ?c'" using foreign_later [of e "{}" ?c ?c'] by auto
  have inv2: "conc_inv e (s1\<lparr>sv_history := ?c' # sv_history s\<rparr>)"
    using foreign by (intro inv_publish [OF inv1 _ _ c'(1)]) (simp_all add: s1_def c'(2))
  have "conc_inv e s'"
  proof (rule inv_put [OF inv2])
    show "stage e (tables (s1\<lparr>sv_history := ?c' # sv_history s\<rparr>)) (ended (Inr a))" using pub by (auto simp: stage_def)
    fix j
    assume "j < length (sv_txs (s1\<lparr>sv_history := ?c' # sv_history s\<rparr>))" "j \<noteq> i"
    then have j: "j < length (sv_txs s)" "sv_txs s1 ! j = sv_txs s ! j" by (simp_all add: s1_def)
    have "\<not> clash e (Inr a) r" if "tx_prog (sv_txs s ! j) = Leave r" for r
    proof (cases "success r")
      case True
      from inv j(1) have "stage e ?c (sv_txs s ! j)" by (simp add: conc_inv_def)
      with that True have "reported e ?c r" by (auto simp: stage_def stage_no_leave)
      with pub show ?thesis by blast
    qed (use clash_sym clash_success in blast)
    then show "tx_apart e (ended (Inr a)) (sv_txs (s1\<lparr>sv_history := ?c' # sv_history s\<rparr>) ! j)" by (simp add: tx_apart_def j(2))
  qed (use i s' in \<open>simp_all add: s1_def\<close>)
  with pub s' show ?thesis by simp
qed

lemma inv_step:
  assumes inv: "conc_inv e s" and step: "step_tx e i v s = Some s'"
  shows "conc_inv e s' \<and> (tables s' = tables s \<or> serial e (tables s) (tables s'))"
  using step
proof (cases rule: step_tx_cases)
  case (ends r)
  have "stage e (tables s) (ended r)" using ends(1,2) inv by (auto simp: conc_inv_def stage_harmless intro: stage_leave)
  moreover have "tx_apart e (ended r) (sv_txs s ! j)" if "j < length (sv_txs s)" "j \<noteq> i" for j
    using ends(1,2) inv that by (auto simp: conc_inv_def tx_apart_def clash_def)
  ultimately show ?thesis using inv_put [OF inv ends(1,3,4)] ends(4) by simp
next
  case (throws x)
  let ?t = "(sv_txs s ! i)\<lparr>tx_prog := Leave (Inl x)\<rparr>"
  have "tx_apart e ?t (sv_txs s ! j)" if "j < length (sv_txs s)" "j \<noteq> i" for j
    using throws(1) inv that by (auto simp: conc_inv_def tx_apart_def clash_def)
  then show ?thesis using inv_put [OF inv throws(1,2,3)] throws(3) by (simp add: stage_harmless)
next
  case (moves t' ls)
  from inv moves(1) have "stage e (tables s) (sv_txs s ! i)" "schema_ok e (tables s)" "\<And>h. h \<in> set (sv_history s) \<Longrightarrow> later e h (tables s)"
    "\<And>h. h \<in> set (sv_history s) \<Longrightarrow> schema_ok e h" by (simp_all add: conc_inv_def)
  from stage_move [OF this(1) moves(2) this(2-4)] have st: "stage e (tables s) t'" "\<And>r. tx_prog t' = Leave r \<Longrightarrow> \<not> success r" by blast+
  have "tx_apart e t' (sv_txs s ! j)" if "j < length (sv_txs s)" "j \<noteq> i" for j
    by (rule apart_plain [OF inv moves(1) that _ moves(3,4)]) (use st(2) in blast)
  with inv_put [OF inv moves(1,5,6) st(1)] moves(6) show ?thesis by simp
next
  case (commits a)
  with inv_commit [OF inv] show ?thesis by blast
qed

lemma inv_background:
  assumes inv: "conc_inv e s" and "conc_step e (Background b) s = Some s'"
  shows "conc_inv e s' \<and> (tables s' = tables s \<or> serial e (tables s) (tables s'))"
proof (cases "run_stmts (background_stmts e b) (sv_sql s) (tables s)")
  case None
  with assms show ?thesis by (auto simp: conc_inv_def Let_def)
next
  case (Some c)
  from quiet_stmts [OF quiet_background Some] have "quiet (tables s) c" .
  then have foreign: "foreign e L (tables s) c" for L by (rule foreign_quiet)
  from inv have "schema_ok e (tables s)" by (simp add: conc_inv_def)
  then have "schema_ok e c" using Some by (rule schema_background)
  with Some assms foreign foreign_later show ?thesis
    by (auto simp: Let_def intro!: inv_publish [OF inv] serial.background)
qed

lemma inv_conc_step:
  assumes inv: "conc_inv e s" and "conc_step e ev s = Some s'"
  shows "conc_inv e s' \<and> (tables s' = tables s \<or> serial e (tables s) (tables s'))"
proof (cases ev)
  case (Open c)
  let ?t = "\<lparr>tx_prog = call_prog e c, tx_log = [], tx_locks = []\<rparr>"
  have leave: "\<not> success r" if "call_prog e c = Leave r" for r
    using that by (cases c) (auto simp: or_refuse_def createOrder_prog_def handleCallback_prog_def select_def split: if_splits option.splits)
  have "tx_apart e ?t (sv_txs s ! j)" for j
    using leave clash_success by (auto simp: tx_apart_def)
  moreover from this tx_apart_sym have "tx_apart e (sv_txs s ! j) ?t" for j by blast
  ultimately show ?thesis
    using assms stage_call [of e "tables s" c] unfolding Open conc_inv_def by (auto simp: nth_append less_Suc_eq)
next
  case (Step i v)
  with assms inv_step [OF inv] show ?thesis by simp
next
  case (Fail i)
  with assms(2) have i: "i < length (sv_txs s)" and
    s': "sv_txs s' = (sv_txs s)[i := ended (Inl DrogonDbException)]" "sv_history s' = sv_history s"
    by (auto simp: next_sql_def put_tx_def split: if_splits)
  have "conc_inv e s'" by (rule inv_put [OF inv i s']) (auto simp: tx_apart_def stage_harmless clash_def)
  with s' show ?thesis by simp
next
  case (Background b)
  with assms inv_background [OF inv] show ?thesis by simp
qed

lemma inv_conc_run:
  assumes "conc_inv e s" and "conc_run e evs s = Some s'"
  shows "conc_inv e s' \<and> (serial e)\<^sup>*\<^sup>* (tables s) (tables s')"
  using assms
proof (induction evs arbitrary: s)
  case (Cons ev evs)
  from Cons.prems(2) obtain t where t: "conc_step e ev s = Some t" "conc_run e evs t = Some s'" by (auto split: option.splits)
  from inv_conc_step [OF Cons.prems(1) t(1)] have "conc_inv e t" "tables t = tables s \<or> serial e (tables s) (tables t)" by simp_all
  with Cons.IH [OF _ t(2)] show ?case by (auto intro: converse_rtranclp_into_rtranclp)
qed simp

definition idle :: "db \<Rightarrow> idgen \<Rightarrow> nat \<Rightarrow> nat \<Rightarrow> server" where
  "idle d g k n = \<lparr>sv_history = [d], sv_txs = [], sv_gen = g, sv_clk = k, sv_sql = n\<rparr>"

lemma inv_idle: "schema_ok e d \<Longrightarrow> conc_inv e (idle d g k n)" "tables (idle d g k n) = d"
  by (simp_all add: conc_inv_def idle_def)

section \<open>Invariants of the tables\<close>

context effect_invariant begin

lemma serial_keeps:
  assumes "serial e d d'" and "schema_ok e d" and "P d"
  shows "P d'"
  using assms(1)
proof cases
  case (order req order)
  then obtain p no expiry rec x y where "product_row_of (cor_productId req) d = Some p" "order = orderOf req (product_of_row p) no expiry"
    "free (order_key e) (ckey e no) (t_order d)" "d' = placed_db e req order rec x y d" by (auto simp: order_effect_def)
  with placed [OF assms(2,3)] show ?thesis by (simp add: free_def)
next
  case (payment cb)
  then show ?thesis unfolding payment_effect_def using paid [OF assms(2,3)] by blast
next
  case (background b n)
  have "stmt_keeps P st" if "st \<in> set (background_stmts e b)" for st
    using that by (cases b) (auto intro!: preserves_intro reconcile_stmts outbox_stmts notify_stmts)
  from run_stmts_keeps [OF this background assms(3)] show ?thesis .
qed

lemma conc_keeps:
  assumes "conc_inv e s" and "P (tables s)" and "conc_run e evs s = Some s'"
  shows "P (tables s')"
  using assms
proof (induction evs arbitrary: s)
  case (Cons ev evs)
  from Cons.prems(3) obtain t where t: "conc_step e ev s = Some t" "conc_run e evs t = Some s'" by (auto split: option.splits)
  from Cons.prems(1) have "schema_ok e (tables s)" by (simp add: conc_inv_def)
  with inv_conc_step [OF Cons.prems(1) t(1)] serial_keeps Cons.prems(2) have "conc_inv e t" "P (tables t)" by auto
  with Cons.IH [OF _ _ t(2)] show ?case by blast
qed simp

end

text \<open>No transaction comes to the point where the code would use an account its second read did not find.\<close>

lemma no_stuck: "\<not> order_stage e req c Stuck log L" "\<not> pay_stage e cb c Stuck log L"
  by (auto elim!: order_stage.cases simp: createOrder_prog_def order_acquire_def order_product_def order_deduct_def order_number_def
      order_insert_def order_mark_def select_def)
    (auto elim!: pay_stage.cases simp: handleCallback_prog_def pay_number_def pay_record_def pay_settle_def pay_account_def pay_deduct_def
      pay_after_def pay_flow_def pay_message_id_def pay_store_def select_def)

lemma stage_not_stuck: "stage e c t \<Longrightarrow> tx_prog t \<noteq> Stuck"
  by (auto simp: stage_def no_stuck)

end
