(* ===== verification/ConcurrencyProperties.thy ===== *)
theory ConcurrencyProperties
  imports Concurrency SystemProperties
begin

text \<open>
  The properties of concurrent orders and payments, with their witnesses: two orders for the last units, and two
  callbacks for one order, on the database of \<open>Fixture\<close>.
\<close>

section \<open>Two schedules\<close>

definition first_deducts :: "event list" where
  "first_deducts = [Open (CreateOrder (demo_req ''r1'' 2)), Open (CreateOrder (demo_req ''r2'' 2)),
     Step 0 0, Step 1 0, Step 0 0, Step 1 0, Step 0 0, Step 1 0, Step 0 0]"

definition two_orders :: "event list" where
  "two_orders = first_deducts @ [Step 0 0, Step 0 0, Step 0 0, Step 0 0, Step 0 0, Step 1 0, Step 1 0]"

text \<open>
  Both callbacks read the order before either of them writes; the second one reads again after the first has
  committed, from the version \<open>v\<close> of the tables.
\<close>

definition two_callbacks :: "string \<Rightarrow> nat \<Rightarrow> event list" where
  "two_callbacks trade v = [Open (HandleCallback (demo_callback ''c1'' ''5.00'') ''{}''),
     Open (HandleCallback ((demo_callback ''c2'' ''5.00'')\<lparr>pcr_channelTradeNo := trade\<rparr>) ''{}''), Step 0 0, Step 1 0,
     Step 0 0, Step 0 0, Step 0 0, Step 0 0, Step 0 0, Step 0 0, Step 0 0, Step 0 0, Step 0 0, Step 0 0, Step 1 0, Step 1 0] @
     (if trade = ''t1'' then [] else [Step 1 0]) @ [Step 1 v, Step 1 0]"

lemmas conc_eval = step_tx_def exec_step_def next_sql_def put_tx_def idle_def ended_def held_elsewhere_def touched_def written_locks_def
  row_locks read_view_def overlay_def select_def refuse_def or_refuse_def uncounted_def leave_with_def
  createOrder_prog_def order_acquire_def order_repeated_def order_product_def order_deduct_def order_number_def order_insert_def order_mark_def
  handleCallback_prog_def pay_number_def pay_record_def pay_repeated_def pay_settle_def pay_beaten_def pay_account_def pay_deduct_def pay_after_def
  pay_flow_def pay_message_def pay_message_id_def pay_store_def idemRecord_def Let_def

text \<open>Evaluation does not look into the steps that are still to come.\<close>

lemma prog_cong: "Select k = Select k" "Exec st k1 = Exec st k1" "NextId k2 = NextId k2" "Now k3 = Now k3"
  by (rule refl)+

lemma demo_two_orders:
  "\<exists>s. conc_run demo_env two_orders (idle demo_db idgen_init 0 0) = Some s \<and> stock_of 1 (tables s) = 0 \<and> sold 1 (tables s) = 2 \<and>
     tx_prog (sv_txs s ! 1) = Leave (Inl (BizException kStockNotEnough msg_stock_short))"
  by (simp add: two_orders_def first_deducts_def conc_eval eval_simps demo_defs stock_of_def sold_def cong: eval_cong prog_cong)

text \<open>The first order has taken the stock; the second one waits for the row.\<close>

lemma demo_waiting:
  "\<exists>s. conc_run demo_env first_deducts (idle demo_db idgen_init 0 0) = Some s"
  "conc_run demo_env (first_deducts @ [Step 1 0]) (idle demo_db idgen_init 0 0) = None"
  by (simp_all add: first_deducts_def conc_eval eval_simps demo_defs cong: eval_cong prog_cong)

lemma demo_same_trade:
  "v \<in> {0, 1} \<Longrightarrow>
   \<exists>s. conc_run demo_env (two_callbacks ''t1'' v) (idle (w_db pay_world) idgen_init 0 0) = Some s \<and>
     sv_txs s = [ended (Inr (PayAnswer (Result_ok (paidData (demo_callback ''c1'' ''5.00'')) ''c1''))),
       ended (if v = 0 then Inr (PayAnswer (Result_ok JNull ''c2'')) else Inl (BizException kChannelTradeConflict msg_trade_conflict))]"
  by (auto simp: two_callbacks_def conc_eval eval_simps demo_defs pay_world_def demo_callback_def cong: eval_cong prog_cong)

lemma demo_other_trade:
  "v \<in> {0, 1} \<Longrightarrow>
   \<exists>s. conc_run demo_env (two_callbacks ''t2'' v) (idle (w_db pay_world) idgen_init 0 0) = Some s \<and>
     sv_txs s = [ended (Inr (PayAnswer (Result_ok (paidData (demo_callback ''c1'' ''5.00'')) ''c1''))),
       ended (if v = 0 then Inr (PayAnswer (Result_ok JNull ''c2'')) else Inl (BizException kOrderStatusInvalid msg_order_status))]"
  by (auto simp: two_callbacks_def conc_eval eval_simps demo_defs pay_world_def demo_callback_def cong: eval_cong prog_cong)

section \<open>Properties\<close>

text \<open>
  The step programs are the services. Executed without interruption on one connection, the steps of an
  order are \<^verbatim>\<open>OrderService::createOrder\<close> and, for a callback that passed the checks of channel and
  signature, the steps of a payment are \<^verbatim>\<open>PaymentService::handleCallback\<close>, for every state of the
  world, every fault and every answer.
\<close>

lemma steps_are_services:
  "OrderService_createOrder e req =
     (if cor_quantity req \<le> 0 \<or> kMaxQuantity < cor_quantity req
      then ret (executed (Result_fail kParamInvalid msg_quantity_range (cor_requestId req)))
      else try_catch (with_guard e (run_prog e (createOrder_prog e (\<lambda>x. x) req))) (createOrder_catch req)) \<and>
   (callback_signed e cb \<longrightarrow> PaymentService_handleCallback e cb rawBody =
      try_catch (with_guard e (run_prog e (handleCallback_prog e (\<lambda>x. x) cb rawBody))) (handleCallback_catch cb))"
  by (simp add: run_createOrder_prog run_handleCallback_prog OrderService_createOrder_def handleCallback_signed)

lemma steps_are_services_witness:
  "PaymentService_handleCallback demo_env (demo_callback ''c1'' ''5.00'') ''{}'' =
     try_catch (with_guard demo_env (run_prog demo_env (handleCallback_prog demo_env (\<lambda>x. x) (demo_callback ''c1'' ''5.00'') ''{}'')))
       (handleCallback_catch (demo_callback ''c1'' ''5.00''))"
  using steps_are_services [of demo_env "demo_req ''r1'' 1" "demo_callback ''c1'' ''5.00''" "''{}''"] demo_signed by blast

text \<open>
  C6: concurrent requests are serializable. However the statements of any number of orders, payments and
  background updates interleave, whichever version of the tables a SELECT reads, whichever statements fail, the
  committed tables are those of a sequence of whole orders, whole payments and background updates, each of them
  with the effect that the service has when it runs alone.
\<close>

theorem concurrent_refines_serial:
  assumes "schema_ok e d" and "conc_run e evs (idle d g k n) = Some s"
  shows "(serial e)\<^sup>*\<^sup>* d (tables s)"
  using inv_conc_run [OF inv_idle(1) assms(2)] assms(1) by (simp add: inv_idle(2))

theorem concurrent_refines_serial_witness:
  "\<exists>s. conc_run demo_env two_orders (idle demo_db idgen_init 0 0) = Some s \<and> (serial demo_env)\<^sup>*\<^sup>* demo_db (tables s)"
  using demo_two_orders concurrent_refines_serial [OF demo_db_schema, of demo_env two_orders idgen_init 0 0] by blast

text \<open>
  C7: nothing is oversold under concurrency. In every interleaving the units in stock and the units in orders
  keep their sum, product by product, and the stock never becomes negative.
\<close>

theorem concurrent_no_oversell:
  assumes "schema_ok e d" and "conc_run e evs (idle d g k n) = Some s"
  shows "stock_of pid (tables s) + sold pid (tables s) = stock_of pid d + sold pid d \<and> 0 \<le> stock_of pid (tables s)"
proof -
  from inv_conc_run [OF inv_idle(1) assms(2)] assms(1) have "schema_ok e (tables s)" by (simp add: conc_inv_def)
  then have "0 \<le> stock_of pid (tables s)" by (intro stock_of_nonneg) (simp add: schema_ok_def)
  moreover have "stock_of pid (tables s) + sold pid (tables s) = stock_of pid d + sold pid d"
    by (rule units.conc_keeps [OF inv_idle(1) _ assms(2)]) (simp_all add: assms(1) inv_idle(2))
  ultimately show ?thesis by simp
qed

theorem concurrent_no_oversell_witness:
  "\<exists>s. conc_run demo_env two_orders (idle demo_db idgen_init 0 0) = Some s \<and>
     stock_of 1 (tables s) + sold 1 (tables s) = stock_of 1 demo_db + sold 1 demo_db \<and> 0 \<le> stock_of 1 (tables s)"
  using demo_two_orders concurrent_no_oversell [OF demo_db_schema, of demo_env two_orders idgen_init 0 0 _ 1] by blast

text \<open>
  C8: the books balance under concurrency. In every interleaving balances plus outflows, the sums of payments,
  paid orders and outflows, and the number of outbox messages stay in the relation in which they were
  (\<open>ledger\<close>), and no order has two payments.
\<close>

theorem concurrent_ledger:
  assumes "schema_ok e d" and "paid_once e d" and "conc_run e evs (idle d g k n) = Some s"
  shows "ledger (tables s) = ledger d \<and> paid_once e (tables s)"
  using books.conc_keeps [OF inv_idle(1) _ assms(3), of "ledger d"] payments.conc_keeps [OF inv_idle(1) _ assms(3)] assms(1,2)
  by (simp add: inv_idle(2))

theorem concurrent_ledger_witness:
  "\<exists>s. conc_run demo_env (two_callbacks ''t1'' 0) (idle (w_db pay_world) idgen_init 0 0) = Some s \<and>
     ledger (tables s) = ledger (w_db pay_world) \<and> paid_once demo_env (tables s)"
proof -
  have "paid_once demo_env (w_db pay_world)" by (simp add: paid_once_def pay_world_def demo_defs)
  with demo_same_trade [of 0] concurrent_ledger [OF pay_world_schema, of "two_callbacks ''t1'' 0" idgen_init 0 0] show ?thesis by blast
qed

text \<open>
  C9: a success is reported once, and truly. A request that is answered with a new order finds that order in
  the committed tables under its request identifier, and a callback that is answered as paid finds its order
  paid; and of all the requests that ever ran, no two are answered with a new order for one request
  identifier, and no two callbacks are answered as the payment of one order.
\<close>

theorem concurrent_once:
  assumes "schema_ok e d" and "conc_run e evs (idle d g k n) = Some s"
    and "i < length (sv_txs s)" and "tx_prog (sv_txs s ! i) = Leave r"
  shows "reported e (tables s) r \<and>
    (\<forall>j < length (sv_txs s). \<forall>r'. j \<noteq> i \<longrightarrow> tx_prog (sv_txs s ! j) = Leave r' \<longrightarrow> \<not> clash e r r')"
proof -
  from inv_conc_run [OF inv_idle(1) assms(2)] assms(1) have inv: "conc_inv e s" by simp
  with assms(3,4) have "stage e (tables s) (sv_txs s ! i)" by (simp add: conc_inv_def)
  with assms(4) have "reported e (tables s) r" by (auto simp: stage_def stage_no_leave reported_def success_def)
  moreover from inv assms(3,4) have "\<not> clash e r r'" if "j < length (sv_txs s)" "j \<noteq> i" "tx_prog (sv_txs s ! j) = Leave r'" for j r'
    using that unfolding conc_inv_def tx_apart_def by (metis assms(4))
  ultimately show ?thesis by blast
qed

theorem concurrent_once_witness:
  "\<exists>s. conc_run demo_env (two_callbacks ''t1'' 0) (idle (w_db pay_world) idgen_init 0 0) = Some s \<and>
     reported demo_env (tables s) (pay_report (demo_callback ''c1'' ''5.00'')) \<and>
     \<not> clash demo_env (pay_report (demo_callback ''c1'' ''5.00'')) (Inr (PayAnswer (Result_ok JNull ''c2'')))"
proof -
  let ?txs = "[ended (pay_report (demo_callback ''c1'' ''5.00'')), ended (Inr (PayAnswer (Result_ok JNull ''c2'')))]"
  from demo_same_trade [of 0] obtain s where s: "conc_run demo_env (two_callbacks ''t1'' 0) (idle (w_db pay_world) idgen_init 0 0) = Some s"
    "sv_txs s = ?txs" by auto
  have "0 < length (sv_txs s)" "tx_prog (sv_txs s ! 0) = Leave (pay_report (demo_callback ''c1'' ''5.00''))" using s(2) by simp_all
  from concurrent_once [OF pay_world_schema s(1) this] s show ?thesis by (auto dest: spec [of _ 1])
qed

text \<open>
  C30: no undefined behaviour. \<^verbatim>\<open>handleCallback\<close> uses the account that its second read returns without
  looking whether there is one. However orders, payments and background updates interleave, whatever
  version of the tables the reads see and whichever statements fail, no transaction ever comes to
  that use with nothing found: the second read sees the debit of its own transaction.
\<close>

theorem concurrent_defined:
  assumes "schema_ok e d" and "conc_run e evs (idle d g k n) = Some s"
  shows "list_all (\<lambda>t. tx_prog t \<noteq> Stuck) (sv_txs s)"
proof -
  from inv_conc_run [OF inv_idle(1) [OF assms(1)] assms(2)] have "conc_inv e s" by blast
  then show ?thesis using stage_not_stuck by (auto simp: conc_inv_def list_all_length)
qed

theorem concurrent_defined_witness:
  "\<exists>s. conc_run demo_env (two_callbacks ''t1'' 0) (idle (w_db pay_world) idgen_init 0 0) = Some s \<and> length (sv_txs s) = 2 \<and>
     list_all (\<lambda>t. tx_prog t \<noteq> Stuck) (sv_txs s)"
proof -
  from demo_same_trade [of 0] obtain s where s: "conc_run demo_env (two_callbacks ''t1'' 0) (idle (w_db pay_world) idgen_init 0 0) = Some s"
    "length (sv_txs s) = 2" by auto
  with concurrent_defined [OF pay_world_schema s(1)] show ?thesis by blast
qed

text \<open>
  A repeated callback that overlaps the first one is not always answered as a repetition. When both have read
  the order before the first commits, the second finds the trade number taken (or the order no longer
  pending); it then reads the payment (or the order) again, and a SELECT that still sees the version of the
  tables of its first read, as under REPEATABLE READ, gives the answer of a conflict. Reading the
  latest version gives the repetition the answer of a success.
\<close>

theorem concurrent_replay_conflict:
  "(\<exists>s. conc_run demo_env (two_callbacks ''t1'' 1) (idle (w_db pay_world) idgen_init 0 0) = Some s \<and>
      sv_txs s = [ended (pay_report (demo_callback ''c1'' ''5.00'')), ended (Inl (BizException kChannelTradeConflict msg_trade_conflict))]) \<and>
   (\<exists>s. conc_run demo_env (two_callbacks ''t1'' 0) (idle (w_db pay_world) idgen_init 0 0) = Some s \<and>
      sv_txs s = [ended (pay_report (demo_callback ''c1'' ''5.00'')), ended (Inr (PayAnswer (Result_ok JNull ''c2'')))]) \<and>
   (\<exists>s. conc_run demo_env (two_callbacks ''t2'' 1) (idle (w_db pay_world) idgen_init 0 0) = Some s \<and>
      sv_txs s = [ended (pay_report (demo_callback ''c1'' ''5.00'')), ended (Inl (BizException kOrderStatusInvalid msg_order_status))])"
  using demo_same_trade [of 0] demo_same_trade [of 1] demo_other_trade [of 1] by simp

text \<open>
  C17: the tables stay well-formed. Keys stay unique, amounts, quantities and stocks in their ranges, over any
  activity of the whole process and in every version that concurrent requests commit.
\<close>

theorem schema_maintained:
  assumes "schema_ok e (w_db (nd_world s))"
  shows "(run_ops (sys_step e a p) ops s = Some (rs, t) \<longrightarrow> schema_ok e (w_db (nd_world t))) \<and>
    (conc_run e evs (idle (w_db (nd_world s)) g k n) = Some c \<longrightarrow> list_all (schema_ok e) (sv_history c))"
  using schema.sys_run_keeps [OF assms] inv_conc_run [OF inv_idle(1) [OF assms]] by (auto simp: conc_inv_def list_all_iff)

theorem schema_maintained_witness:
  "(\<exists>rs t. run_ops demo_step [Http CallbackRoute callback_request, RelayTick] pay_node = Some (rs, t) \<and>
      flow_total (w_db (nd_world t)) = 500 \<and> schema_ok demo_env (w_db (nd_world t))) \<and>
   (\<exists>c. conc_run demo_env (two_callbacks ''t1'' 0) (idle (w_db (nd_world pay_node)) idgen_init 0 0) = Some c \<and>
      list_all (schema_ok demo_env) (sv_history c))"
proof -
  from demo_system_run obtain rs t where run: "run_ops demo_step [Http CallbackRoute callback_request, RelayTick] pay_node = Some (rs, t)"
    "flow_total (w_db (nd_world t)) = 500" by blast
  have "nd_world pay_node = pay_world" by (simp add: pay_node_def)
  with demo_same_trade [of 0] obtain c where
    c: "conc_run demo_env (two_callbacks ''t1'' 0) (idle (w_db (nd_world pay_node)) idgen_init 0 0) = Some c" by auto
  from schema_maintained [OF pay_node_schema] run c show ?thesis by blast
qed

end
