(* ===== verification/UnitTests.thy ===== *)
theory UnitTests
  imports SignUtil ReconcileClassify
begin

text \<open>
  The unit tests of the repository (\<^verbatim>\<open>tests/unit/*.cc\<close>) on the model: one lemma per test case, with
  its inputs and expectations. Tests of concrete inputs are evaluated; the tests of the identifier
  generator and of the signature, whose outcome depends on the clock and on OpenSSL, are stated for
  every clock in range and every digest. The test of a known HMAC value checks OpenSSL only and has no
  counterpart.
\<close>

section \<open>Amounts\<close>

lemma MoneyUtilTest_FenToYuanString:
  "fenToYuanString 39900 = ''399.00''" "fenToYuanString 5 = ''0.05''" "fenToYuanString 0 = ''0.00''"
  "fenToYuanString (- 1250) = ''-12.50''" "fenToYuanString 10000000000 = ''100000000.00''"
  by (simp_all add: eval_simps)

lemma MoneyUtilTest_YuanStringToFen:
  "yuanStringToFen ''399.00'' = Some 39900" "yuanStringToFen ''399'' = Some 39900" "yuanStringToFen ''399.5'' = Some 39950"
  "yuanStringToFen ''0.05'' = Some 5" "yuanStringToFen ''-12.50'' = Some (- 1250)" "yuanStringToFen ''+12.50'' = Some 1250"
  by (simp_all add: eval_simps)

lemma MoneyUtilTest_RejectsGarbage:
  "yuanStringToFen [] = None" "yuanStringToFen ''abc'' = None" "yuanStringToFen ''1.234'' = None" "yuanStringToFen ''12.3.4'' = None"
  "yuanStringToFen ''.'' = None" "yuanStringToFen ''-'' = None" "yuanStringToFen ''1e5'' = None" "yuanStringToFen '' 12'' = None"
  by (simp_all add: eval_simps)

lemma MoneyUtilTest_RoundTrip: "map_option fenToYuanString (yuanStringToFen ''123456789.99'') = Some ''123456789.99''"
  by (simp add: eval_simps)

section \<open>Classification\<close>

definition makeRow :: "string \<Rightarrow> string \<Rightarrow> int64 \<Rightarrow> ReconcileSideRow" where
  "makeRow tradeNo orderNo fen = \<lparr>srow_channelTradeNo = tradeNo, srow_orderNo = orderNo, srow_amountFen = fen\<rparr>"

declare makeRow_def [eval_simps]

lemma ReconcileDiffTest_PerfectMatch: "classifyReconcileDiffs [makeRow ''T1'' ''O1'' 19900] [makeRow ''T1'' ''O1'' 19900] = []"
  by (simp add: eval_simps)

lemma ReconcileDiffTest_LocalOnlyRow:
  "classifyReconcileDiffs [makeRow ''T1'' ''O1'' 19900, makeRow ''T2'' ''O2'' 599900] [makeRow ''T1'' ''O1'' 19900] =
     [\<lparr>cdf_type = kLocalOnly, cdf_channelTradeNo = ''T2'', cdf_orderNo = ''O2'', cdf_localFen = 599900, cdf_channelFen = 0, cdf_diffFen = 599900\<rparr>]"
  by (simp add: eval_simps)

lemma ReconcileDiffTest_ChannelOnlyRow:
  "classifyReconcileDiffs [makeRow ''T1'' ''O1'' 19900] [makeRow ''T1'' ''O1'' 19900, makeRow ''TX'' ''OX'' 19900] =
     [\<lparr>cdf_type = kChannelOnly, cdf_channelTradeNo = ''TX'', cdf_orderNo = ''OX'', cdf_localFen = 0, cdf_channelFen = 19900, cdf_diffFen = - 19900\<rparr>]"
  by (simp add: eval_simps)

lemma ReconcileDiffTest_AmountMismatch:
  "map (\<lambda>d. (cdf_type d, cdf_diffFen d)) (classifyReconcileDiffs [makeRow ''T1'' ''O1'' 19900] [makeRow ''T1'' ''O1'' 1]) = [(kDiffAmountMismatch, 19899)]"
  by (simp add: eval_simps)

lemma ReconcileDiffTest_MixedScenarios:
  "map cdf_type (classifyReconcileDiffs
      [makeRow ''T1'' ''O1'' 19900, makeRow ''T2'' ''O2'' 19900, makeRow ''T3'' ''O3'' 599900]
      [makeRow ''T1'' ''O1'' 19900, makeRow ''T3'' ''O3'' 1, makeRow ''TX'' ''OX'' 19900]) = [kLocalOnly, kChannelOnly, kDiffAmountMismatch]"
  by (simp add: eval_simps)

section \<open>Codes and results\<close>

lemma SmokeTest_ErrorCodeValues:
  "ErrCode_value kSuccess = 0" "ErrCode_value kMissingRequestId = 10002" "ErrCode_value kStockNotEnough = 30002" "ErrCode_value kInternalError = 90003"
  by simp_all

lemma SmokeTest_ResultOkSerializes:
  fixes rid :: string and answer :: int
  defines "r \<equiv> Result_ok answer rid"
  shows "Result_isOk r" "res_code r = 0" "res_data r = Some answer" "jget (Result_toJson JInt r) ''code'' = Some (JInt 0)"
    "jget (Result_toJson JInt r) ''data'' = Some (JInt answer)" "jget (Result_toJson JInt r) ''requestId'' = Some (JString rid)"
    "\<exists>x. jget (Result_toJson JInt r) ''message'' = Some (JString x) \<and> x \<noteq> []"
  by (simp_all add: r_def Result_ok_def Result_isOk_def Result_toJson_def Let_def omap_find_def toMessage.simps)

lemma SmokeTest_ResultFailSerializesNullData:
  fixes r :: "int Result"
  assumes "r = Result_fail kStockNotEnough (toMessage kStockNotEnough) ''req-1''"
  shows "\<not> Result_isOk r" "res_code r = 30002" "res_data r = None" "jget (Result_toJson JInt r) ''code'' = Some (JInt 30002)"
    "jget (Result_toJson JInt r) ''message'' = Some (JString (toMessage kStockNotEnough))"
    "isMember (Result_toJson JInt r) ''data'' = Some True" "jget (Result_toJson JInt r) ''data'' = Some JNull"
  by (simp_all add: assms Result_fail_def Result_isOk_def Result_toJson_def Let_def omap_find_def)

record FakeModel =
  fake_id :: int

definition FakeModel_toJson :: "FakeModel \<Rightarrow> json" where
  "FakeModel_toJson m = jset ''id'' (JInt (fake_id m)) JNull"

lemma SmokeTest_ResultSerializesModelWithToJson:
  "Option.bind (jget (Result_toJson FakeModel_toJson (Result_ok \<lparr>fake_id = 7\<rparr> ''req-2'')) ''data'') (\<lambda>v. jget v ''id'') = Some (JInt 7)"
  by (simp add: Result_ok_def Result_toJson_def Let_def omap_find_def FakeModel_toJson_def)

section \<open>Signatures\<close>

lemma SignUtilTest_VerifyMockSignRoundTrip:
  "verifyMockSign e secret orderNo tradeNo amount ts (hmacSha256Hex e secret (orderNo @ ''|'' @ tradeNo @ ''|'' @ amount @ ''|'' @ ts))"
  by (simp add: verifyMockSign_iff mockCanonical_def)

text \<open>Tampering is found unless the digests of the two texts collide; a signature of the wrong length always.\<close>

lemma SignUtilTest_VerifyMockSignRejectsTampering:
  assumes "hmac_sha256 e secret' (mockCanonical orderNo' tradeNo amount' ts) \<noteq> hmac_sha256 e secret (mockCanonical orderNo tradeNo amount ts)"
  shows "\<not> verifyMockSign e secret' orderNo' tradeNo amount' ts (hmacSha256Hex e secret (mockCanonical orderNo tradeNo amount ts))"
  using assms hex_bytes_inj by (fastforce simp: verifyMockSign_iff hmacSha256Hex_def)

lemma hmacSha256Hex_length: "length (hmacSha256Hex e secret x) = 2 * length (hmac_sha256 e secret x)"
proof -
  have "length (concat (map hex_byte bs)) = 2 * length bs" for bs by (induction bs) (simp_all add: hex_byte_def)
  then show ?thesis by (simp add: hmacSha256Hex_def)
qed

lemma SignUtilTest_RejectsShortSign:
  assumes "\<And>x. length (hmac_sha256 e secret x) = 32"
  shows "\<not> verifyMockSign e secret orderNo tradeNo amount ts ''abcd''"
  by (simp add: verifyMockSign_def Let_def hmacSha256Hex_length assms)

section \<open>Identifiers\<close>

text \<open>The mutex makes the calls of all threads one sequence.\<close>

lemma IdGeneratorTest_FormatConstraints:
  assumes "clock_in_range clk" and "run_ops (\<lambda>_::nat. IdGenerator_nextId clk) calls (idgen_init, k) = Some (rs, u)" and "x \<in> set (returned rs)"
  shows "x \<noteq> [] \<and> length x \<le> 19 \<and> list_all is_digit x"
  using snowflake_ids.format_ids [OF _ assms(2) _ _ assms(3), of 19] assms(1) by simp

lemma IdGeneratorTest_MonotonicAndUnique:
  assumes "clock_18_digits clk" and "run_ops (\<lambda>_::nat. IdGenerator_nextId clk) calls (idgen_init, k) = Some (rs, u)"
  shows "sorted_wrt (<) (returned rs) \<and> distinct (returned rs)"
  using snowflake_18.lex_ids [OF _ assms(2), of 17] snowflake_18.distinct_ids [OF _ assms(2)] assms(1) by simp

lemma IdGeneratorTest_ThreadSafeUniqueness:
  assumes "clock_in_range clk" and "run_ops (\<lambda>_::nat. IdGenerator_nextId clk) calls (idgen_init, k) = Some (rs, u)"
    and "length (returned rs) = 8 * 5000"
  shows "card (set (returned rs)) = 8 * 5000"
  using snowflake_ids.distinct_ids [OF _ assms(2)] assms(1,3) distinct_card by force

end
