(* ===== verification/Spec2Isabelle.thy ===== *)
theory Spec2Isabelle
  imports Pipeline Startup ConcurrencyProperties UnitTests
begin

text \<open>
  Verification of the trade and reconciliation service (\<^verbatim>\<open>src/\<close>, a drogon application in C++ over MySQL
  and RabbitMQ). A client places orders over HTTP; a payment channel reports payments by signed
  callbacks; a paid order leaves a message in an outbox table, which a timer relays to the broker;
  a consumer thread takes it from the broker and notifies the merchant; once a day the payments are
  compared with the bill of the channel and the differences are kept for an operator to handle.

  \<^bold>\<open>Parts and theories.\<close> The order is that of the imports, and that in which the code builds on itself.

  \<^item> \<open>Prelude\<close>, \<open>Effects\<close>, \<open>OrderedMap\<close>: machine integers (\<open>wrap64\<close>, \<open>in_i64\<close>), decimal text and the
    theorem collections; the type of effects \<open>('s, 'x, 'a) eff\<close> (a computation returns a value or an
    exception with the new state, or does not return) with sequencing, \<open>try_catch\<close>, loops and the rules for
    invariants, exceptions and termination (\<open>preserves\<close>, \<open>raises_only\<close>, \<open>ends\<close>); \<^verbatim>\<open>std::map\<close>.
  \<^item> \<open>ErrorCode\<close>, \<open>Json\<close>, \<open>Models\<close>: \<^verbatim>\<open>common/ErrorCode.h\<close>, \<^verbatim>\<open>common/BizException.h\<close>, \<^verbatim>\<open>models/*.h\<close>. Every
    struct is a record with the fields of the code, every enum a datatype with its numeric values.
  \<^item> \<open>MoneyUtil\<close>, \<open>IdGenerator\<close>, \<open>Chrono\<close>, \<open>SignUtil\<close>, \<open>ThreadPool\<close>: the utilities of \<^verbatim>\<open>utils/\<close> and the
    time conversions of the services. The pool is a step relation (submit, stop, take, finish, leave)
    on the queue, the threads and the stop flag, one step per critical section; its specification is a
    labelled task queue (\<open>queue_step\<close>).
  \<^item> \<open>Env\<close>, \<open>Database\<close>: the parameters of the model and the ten tables of \<^verbatim>\<open>sql/schema.sql\<close> with their
    keys and ranges (\<open>schema_ok\<close>). The state \<open>world\<close> holds the committed tables, the tables as the open
    transaction sees them, the identifier generator and the counters of statements and of clock readings;
    \<open>with_guard\<close> is the scope of a \<^verbatim>\<open>TransactionGuard\<close> (\<^verbatim>\<open>utils/DbUtil.h\<close>).
  \<^item> \<open>DaoContracts\<close> and one theory per class of \<^verbatim>\<open>dao/\<close>: every SQL statement is a function on the tables
    that gives the new tables and the number of affected rows, refused when it would break the schema.
    The locales \<open>conditional_store\<close> (stock and balance), \<open>dedup_store\<close> (requests, payments, notifications)
    and \<open>one_shot\<close> (the transitions of orders and differences) are what the services rely on.
  \<^item> \<open>OrderService\<close>, \<open>PaymentService\<close>, \<open>ReconcileClassify\<close>, \<open>ReconcileService\<close>: \<^verbatim>\<open>services/*.cc\<close>, every
    branch and every handler of exceptions. Their properties are in \<open>OrderProperties\<close>,
    \<open>PaymentProperties\<close> and \<open>ReconcileProperties\<close>.
  \<^item> \<open>Node\<close>, \<open>MqClient\<close>, \<open>MessageRelayTask\<close>, \<open>NotifyConsumer\<close>, \<open>ReconcileTask\<close>: the parts with a life of
    their own. The record \<open>node\<close> adds to the database the publisher, the flags of the two timers, the
    connection of the consumer and a log of what it sent. The locale \<open>timer_task\<close> states once what both
    timers promise about their flag.
  \<^item> \<open>RequestIdFilter\<close>, \<open>Logger\<close>, \<open>Controllers\<close>, \<open>Startup\<close>: \<^verbatim>\<open>common/\<close>, \<^verbatim>\<open>controllers/\<close> and \<^verbatim>\<open>main.cc\<close>. \<open>serve\<close>
    composes filter and handler as the method lists in the controllers' headers say.
  \<^item> \<open>System\<close>, \<open>SystemProperties\<close>: the process as a whole. \<open>sys_step\<close> is one request on any route, one tick
    of a timer or one delivery; the locales \<open>service_invariant\<close>, \<open>table_invariant\<close> and
    \<open>effect_invariant\<close> carry an invariant of the tables through any sequence of them.
  \<^item> \<open>Pipeline\<close>: the way of a payment from the callback's transaction through the outbox, the relay, the
    broker and the consumer to the merchant; \<open>pipeline\<close> is reachability under \<open>sys_step\<close> with a broker that
    delivers only what was published.
  \<^item> \<open>StepPrograms\<close>, \<open>Interleaving\<close>: the transactions of \<^verbatim>\<open>createOrder\<close> and \<^verbatim>\<open>handleCallback\<close> as programs of single
    steps (\<open>createOrder_prog\<close>, \<open>handleCallback_prog\<close>, one definition per statement), and the state \<open>server\<close> on which any
    number of them run at the same time: the committed versions of the tables, the open transactions with
    their changes and row locks, the generator. \<open>conc_step\<close> is one event: a request arrives, a transaction
    takes one step, a statement fails, a background update commits.
  \<^item> \<open>Interference\<close>, \<open>OrderStages\<close>, \<open>PaymentStages\<close>, \<open>Concurrency\<close>: what others can change under a
    transaction that holds locks, the progress of each of the two transactions as an inductive relation, and the
    invariant of the server with the abstract specification \<open>serial\<close> (whole calls, one after the other).
    The properties are in \<open>ConcurrencyProperties\<close>.
  \<^item> \<open>Fixture\<close>: a concrete environment and database, on which the properties with hypotheses are applied.
  \<^item> \<open>UnitTests\<close>: the test cases of \<^verbatim>\<open>tests/unit/\<close>, each as a lemma about the model.

  \<^bold>\<open>Names.\<close> A method \<open>C::m\<close> is \<open>C_m\<close>, a free function keeps its name. A long method is split along its
  scopes: \<open>createOrder_scope\<close> is the body of the try block, \<open>createOrder_execute\<close> its part after the
  idempotency check, \<open>createOrder_catch\<close> the handlers; likewise \<open>handleCallback_*\<close> and \<open>run_*\<close>. Record
  fields carry a prefix for their struct (\<open>ord_\<close>, \<open>pay_\<close>, \<open>pcr_\<close>) or table (\<open>to_\<close>, \<open>ty_\<close>, \<open>ta_\<close>). The
  literal texts of the answers are the constants \<open>msg_*\<close>.

  \<^bold>\<open>Parameters.\<close> What the program calls and does not contain is a field of \<open>env\<close> (clock, faults and clock of
  the SQL server, collation, generated keys, the printers and the parser of jsoncpp, the digests of
  OpenSSL, configuration and files), of \<open>amqp\<close> (the answers of rabbitmq-c to the publisher) or of \<open>peers\<close>
  (broker and merchant as the consumer meets them). Most properties hold for every value of them, that is
  for any faults. Where one needs documented behaviour it is a named hypothesis: \<open>healthy_from\<close> (no faults
  from a statement on), \<open>same_printer\<close>, \<open>digits_collate\<close>, \<open>datetime_roundtrip\<close>, \<open>payload_roundtrip\<close>
  (the strings of a printed payload survive broker and parser), \<open>auto_increments\<close>, \<open>confirms_taken\<close> (an acknowledged
  message was taken over), \<open>queue_bound\<close> (the broker has a queue for it), \<open>broker_up\<close>, \<open>clock_in_range\<close>,
  \<open>clock_18_digits\<close>, \<open>clock_passes\<close> (the clock passes every moment).

  \<^bold>\<open>What the theorems show.\<close>
  \<^item> Whole process, any operations in any order, any faults: a retried order gets the same bytes and
    changes nothing; balances plus outflows are constant and payments, outflows, paid orders and outbox
    messages agree; no order has two payments; nothing is oversold; repeated callbacks change nothing; a
    day is reconciled once; a handled difference keeps its outcome (\<open>SystemProperties\<close>).
  \<^item> From callback to merchant: every request the merchant gets names a paid order with its amount and a recorded
    payment, and a settled order is told when server, broker and merchant are up (\<open>Pipeline\<close>).
  \<^item> Concurrent requests, any interleaving of their statements: the committed tables are those of a sequence of
    whole calls (\<open>concurrent_refines_serial\<close>), so nothing is oversold, the books balance and no order is paid
    twice; a success is reported at most once and truly; the account that a callback uses unchecked is always
    there (\<open>concurrent_defined\<close>). The tables stay within their keys and ranges, here and in the
    whole process (\<open>schema_maintained\<close>). That the step programs are the services is a lemma (\<open>steps_are_services\<close>).
  \<^item> Orders and payments: the exact effect on the tables when they succeed, the answers to refused orders,
    agreement of the payment service with a decision function of tables and configuration on every branch,
    rejection of callbacks without the right signature (defined apart from the code), and that n requests for
    one unit sell exactly \<open>min n stock\<close>. The total of an order is exact while price times quantity fits
    \<^verbatim>\<open>int64_t\<close>; beyond the model wraps (\<open>total_overflows\<close>). That a call which reports no success leaves the
    tables alone is a lemma of each service (\<open>createOrder_atomic\<close>, \<open>callback_atomic\<close>), see Faithfulness on COMMIT.
  \<^item> Reconciliation: the comparison is the decision per trade number and accounts for the difference of the
    totals; a run stores batch and differences together; the daily tick runs once and returns.
  \<^item> Outbox and notification: a message marked delivered is stored by the broker where a queue is bound for
    it (where none is, it is lost: \<open>unbound_message_lost\<close>), a row of the outbox refines an abstract retry
    machine driven by the confirm of the broker, a merchant gets at most three requests per message and none
    for a repeated delivery. A message that is JSON but neither object nor null ends the consumer
    (\<open>poison_stops_consumer\<close>).
  \<^item> Front end and utilities: which requests can change the tables, that order requests are answered while
    the pool runs, the pool has exactly the traces of a task queue, request identifiers cannot forge the
    pattern of log lines, amounts up to the documented limit print and parse exactly and no text is read as
    another amount than it denotes, identifiers are unique, of at most 19 digits and
    ordered (as strings only while they have 18 digits), and the generator returns.

  \<^bold>\<open>Loops and bounds.\<close> There is no fuel. Loops over data are structural; the retries of the consumer recur
  on the attempts left. The three loops that may not end are partial functions in the option type:
  \<open>waitNextMs\<close> (shown to return when the clock passes the last millisecond), \<open>consumeLoop\<close> and \<open>runLoop\<close> (they
  end only with an exception or a lost connection). Amounts and identifiers are integers in the range of
  their C++ type, with \<open>wrap64\<close> where the code can overflow; identifiers of users and products are 64-bit
  words; the identifier generator shifts and joins 64-bit words.

  \<^bold>\<open>Faithfulness.\<close> There are two views of the database. In the theorems of the whole process an operation runs
  on the tables that its predecessors committed, in any order and with any fault inside one. In the
  theorems on concurrent requests the statements of orders and payments interleave freely, under the documented
  rules of InnoDB: a writing statement works on the latest committed rows and its own, locks the rows it
  writes until the end of its transaction and waits for rows locked by others; a SELECT without lock reads a
  committed version together with the rows the transaction wrote itself. Which version is left open, so both READ
  COMMITTED and REPEATABLE READ are covered. A statement that finds nothing to write does not wait in the
  model, and any statement may fail, which only adds behaviours for the theorems on the tables. Gap and insert-intention
  locks, the shared locks of duplicate keys and the locks of statements without effect only make
  transactions wait or fail and are left out; the model says nothing about deadlocks. The statements of the relay, the consumer and the operator commit between the steps of
  others, one by one; the rows of a reconciliation are stored in one event, for any batch and differences, so
  that the comparison before it may have read anything. The pool is modelled with its real interleaving.
  A COMMIT whose call reports a failure is taken as not performed, in both views: that a server has performed
  it although the connection was lost before its answer is outside the model (\<open>TransactionGuard_commit\<close>). A
  publication reaches the store of the broker only when the broker takes it over and a queue is bound for it.
  The pattern of log lines belongs to the sinks, as spdlog documents, and the sinks are shared.

  \<^bold>\<open>Not modelled.\<close>
  \<^item> The libraries: drogon (event loop, parsing of HTTP, routing), spdlog (sinks and formatting), rabbitmq-c,
    jsoncpp, OpenSSL and MySQL beyond the statements used; they appear as parameters.
  \<^item> Log output: the state of the logger and the pattern are modelled, the calls that only write a line are
    left out of the services, and so are the loggers of requests that handlers ask for: before
    \<^verbatim>\<open>Logger::shutdown\<close> they change nothing else, after it asking for one dereferences a null pointer
    (\<open>logger_after_shutdown\<close>), which a handler would meet before it answers 503 for a stopped pool.
  \<^item> Columns the program never reads (\<^verbatim>\<open>created_at\<close>, \<^verbatim>\<open>updated_at\<close>), and the constructors and singletons that only
    allocate.
  \<^item> Shell scripts, the configuration file, build and container files; of the unit tests the known value of the
    HMAC, which tests OpenSSL.
\<close>

end
